(* ===== verification/Prelude.thy ===== *)
theory Prelude
  imports Complex_Main "HOL-Library.Word" "HOL-Library.Sublist" "HOL-Library.Multiset"
begin

text \<open>
  What every component shares: the values of JavaScript the server works with (strings as
  UTF-16 code units, numbers, JSON), the exceptions its handlers throw, and the effects of a
  handler.

  A handler is an \<open>act\<close>: a function of the state that returns a value or a thrown
  exception together with the state it leaves. An exception keeps the changes made before it was
  thrown, as in the source, where nothing rolls a session back. The section on preservation gives
  the calculus with which an invariant is carried through a handler: one rule per way of
  composing, collected in \<open>preserves_intros\<close>.
\<close>

named_theorems preserves_intros "an action keeps an invariant: one rule per combinator and operation"
named_theorems act_simps "equations that run an action on a state"

section \<open>JavaScript values\<close>

type_synonym byte = "8 word"
type_synonym jsstring = "16 word list"

text \<open>An ASCII literal as the string of its code units.\<close>

definition js :: "string \<Rightarrow> jsstring" where
  "js s = map of_char s"

lemma unat_of_char_16 [simp]: "unat (of_char c :: 16 word) = of_char c"
proof -
  have "(of_char c :: nat) < 2 ^ LENGTH(16)"
    by (rule less_trans [OF nat_of_char_less_256]) simp
  then have "unat (of_nat (of_char c) :: 16 word) = of_char c"
    by (simp only: unat_of_nat mod_less)
  then show ?thesis by (simp only: of_nat_of_char)
qed

lemma of_char_16_inj [simp]: "(of_char c :: 16 word) = of_char d \<longleftrightarrow> c = d"
proof
  assume "(of_char c :: 16 word) = of_char d"
  then have "unat (of_char c :: 16 word) = unat (of_char d :: 16 word)" by (rule arg_cong)
  then show "c = d" by simp
qed simp

lemma js_eq_iff [simp]: "js s = js t \<longleftrightarrow> s = t"
  unfolding js_def by (rule inj_map_eq_map) (simp add: inj_def)

lemma js_Nil [simp]: "js [] = []"
  by (simp add: js_def)

lemma js_eq_Nil [simp]: "js s = [] \<longleftrightarrow> s = []" "[] = js s \<longleftrightarrow> s = []"
  by (auto simp: js_def)

lemma length_js [simp]: "length (js s) = length s"
  by (simp add: js_def)

text \<open>
  A value of type \<open>string | undefined\<close> is truthy when it is present and not empty; this is the
  test behind \<open>!state\<close>, \<open>!password\<close> and \<open>!session.userId\<close>.
\<close>

definition truthy :: "jsstring option \<Rightarrow> bool" where
  "truthy v = (case v of None \<Rightarrow> False | Some s \<Rightarrow> s \<noteq> [])"

lemma truthy_simps [simp]: "truthy None = False" "truthy (Some s) = (s \<noteq> [])"
  by (simp_all add: truthy_def)

text \<open>The operator \<open>??\<close>: the right-hand side stands in for null and undefined.\<close>

definition orElse :: "'a option \<Rightarrow> 'a \<Rightarrow> 'a" where
  "orElse v d = (case v of None \<Rightarrow> d | Some x \<Rightarrow> x)"

lemma orElse_simps [simp]: "orElse None d = d" "orElse (Some x) d = x"
  by (simp_all add: orElse_def)

text \<open>Numbers: the finite ones are rationals, next to the two infinities and NaN.\<close>

datatype jsnum = NaN | NegInf | Fin rat | PosInf

fun jsMax :: "jsnum \<Rightarrow> jsnum \<Rightarrow> jsnum" where
  "jsMax NaN _ = NaN"
| "jsMax _ NaN = NaN"
| "jsMax PosInf _ = PosInf"
| "jsMax _ PosInf = PosInf"
| "jsMax NegInf y = y"
| "jsMax x NegInf = x"
| "jsMax (Fin a) (Fin b) = Fin (max a b)"

fun jsMin :: "jsnum \<Rightarrow> jsnum \<Rightarrow> jsnum" where
  "jsMin NaN _ = NaN"
| "jsMin _ NaN = NaN"
| "jsMin NegInf _ = NegInf"
| "jsMin _ NegInf = NegInf"
| "jsMin PosInf y = y"
| "jsMin x PosInf = x"
| "jsMin (Fin a) (Fin b) = Fin (min a b)"

text \<open>Subtraction of a finite number, and the length \<open>Array.from({ length })\<close> makes of one.\<close>

fun jsMinus :: "jsnum \<Rightarrow> rat \<Rightarrow> jsnum" where
  "jsMinus (Fin a) b = Fin (a - b)"
| "jsMinus x _ = x"

fun toLength :: "jsnum \<Rightarrow> nat" where
  "toLength (Fin a) = nat \<lfloor>a\<rfloor>"
| "toLength _ = 0"

fun isInteger :: "jsnum \<Rightarrow> bool" where
  "isInteger (Fin a) = (of_int \<lfloor>a\<rfloor> = a)"
| "isInteger _ = False"

text \<open>JSON values, as they reach a handler in a request body or a \<open>jsonb\<close> column.\<close>

datatype json =
    JNull
  | JBool bool
  | JNum jsnum
  | JStr jsstring
  | JArr "json list"
  | JObj "(jsstring \<times> json) list"

section \<open>Substrings\<close>

text \<open>\<open>String.prototype.includes\<close>.\<close>

fun includesStr :: "'a list \<Rightarrow> 'a list \<Rightarrow> bool" where
  "includesStr [] n = (n = [])"
| "includesStr (x # xs) n = (prefix n (x # xs) \<or> includesStr xs n)"

lemma includesStr_iff: "includesStr h n \<longleftrightarrow> (\<exists>us vs. h = us @ n @ vs)"
proof (induction h)
  case Nil
  then show ?case by auto
next
  case (Cons x xs)
  show ?case (is "?L \<longleftrightarrow> ?R")
  proof
    assume ?L
    then show ?R
    proof (simp, elim disjE)
      assume "prefix n (x # xs)"
      then obtain vs where "x # xs = [] @ n @ vs" by (auto simp: prefix_def)
      then show ?thesis by blast
    next
      assume "includesStr xs n"
      then obtain us vs where "x # xs = (x # us) @ n @ vs" using Cons.IH by auto
      then show ?thesis by blast
    qed
  next
    assume ?R
    then obtain us vs where "x # xs = us @ n @ vs" by blast
    then show ?L
    proof (cases us)
      case Nil
      with \<open>x # xs = us @ n @ vs\<close> have "prefix n (x # xs)" by (simp add: prefix_def)
      then show ?thesis by simp
    next
      case (Cons u us')
      with \<open>x # xs = us @ n @ vs\<close> have "\<exists>us vs. xs = us @ n @ vs" by auto
      then show ?thesis using Cons.IH by simp
    qed
  qed
qed

corollary includesStr_sublist: "includesStr h n \<longleftrightarrow> sublist n h"
  by (simp add: includesStr_iff sublist_def)

end
