(* ===== verification/Effects.thy ===== *)
theory Effects
  imports Prelude
begin

text \<open>
  Exceptions and effects. \<open>exn\<close> lists what a handler throws: the HTTP exceptions of NestJS with
  the message they carry, the errors of the database client, and the plain errors that the
  framework turns into status 500. \<open>('s, 'a) act\<close> is the type of a handler over a state
  \<open>'s\<close>; the combinators follow the statements of the source (sequence, \<open>throw\<close>, \<open>try\<close> with
  \<open>catch\<close>, \<open>for\<close> over a list).
\<close>

section \<open>Exceptions\<close>

text \<open>One constructor per message text the source throws.\<close>

datatype message =
    OAuthStateMismatch
  | MasterPasswordAlreadySet
  | GoogleLoginFirst
  | MasterPasswordTooShort
  | UserNotFound
  | MasterPasswordWrong
  | CurrentMasterPasswordWrong
  | AutoLockMinutesRange
  | LoginRequired
  | UnlockRequired
  | NoIdToken
  | NoGoogleProfile
  | CallRegisterOptionsFirst
  | CallAuthenticateOptionsFirst
  | RegistrationVerificationFailed
  | RegistrationNotVerified
  | DeviceAlreadyRegistered
  | DeviceNotRegistered
  | AuthenticationVerificationFailed
  | AuthenticationNotVerified
  | TrustedDeviceNotFound
  | StoredDeviceNotFound
  | AccountNotFound
  | AccountAlreadyExists
  | BackupVersionUnsupported
  | BackupPasswordWrongOrDamaged
  | NoRefreshToken
  | NoGmailProfile
  | EmailAccountNotFound
  | RuleNotFound
  | CandidateNotFound
  | ProviderUnsupported
  | TokenKeyMissing
  | TokenKeyWrongLength

text \<open>
  The error codes the database client reports: unique constraint, foreign key, record to change
  not found, and an argument the client rejects before it asks the database.
\<close>

datatype prisma_code = P2002 | P2003 | P2025 | PValidation

datatype exn =
    BadRequestException message
  | UnauthorizedException message
  | NotFoundException message
  | ConflictException message
  | Error message
  | PrismaError prisma_code
  | ServiceError \<comment> \<open>thrown by a remote service or its client library\<close>
  | CryptoError
  | SyntaxError \<comment> \<open>thrown by \<open>JSON.parse\<close>\<close>
  | TypeError

text \<open>The status code of the response to a request whose handler threw.\<close>

fun http_status :: "exn \<Rightarrow> nat" where
  "http_status (BadRequestException _) = 400"
| "http_status (UnauthorizedException _) = 401"
| "http_status (NotFoundException _) = 404"
| "http_status (ConflictException _) = 409"
| "http_status _ = 500"

section \<open>Actions\<close>

type_synonym ('s, 'a) act = "'s \<Rightarrow> (exn + 'a) \<times> 's"

definition ret :: "'a \<Rightarrow> ('s, 'a) act" where
  "ret x = (\<lambda>s. (Inr x, s))"

definition throw :: "exn \<Rightarrow> ('s, 'a) act" where
  "throw e = (\<lambda>s. (Inl e, s))"

definition bindA :: "('s, 'a) act \<Rightarrow> ('a \<Rightarrow> ('s, 'b) act) \<Rightarrow> ('s, 'b) act" where
  "bindA m f = (\<lambda>s. case m s of (Inl e, s') \<Rightarrow> (Inl e, s') | (Inr x, s') \<Rightarrow> f x s')"

definition gets :: "('s \<Rightarrow> 'a) \<Rightarrow> ('s, 'a) act" where
  "gets f = (\<lambda>s. (Inr (f s), s))"

definition modify :: "('s \<Rightarrow> 's) \<Rightarrow> ('s, unit) act" where
  "modify f = (\<lambda>s. (Inr (), f s))"

definition liftE :: "exn + 'a \<Rightarrow> ('s, 'a) act" where
  "liftE r = (\<lambda>s. (r, s))"

text \<open>\<open>throw\<close> unless the test holds: the guard clauses at the head of the handlers.\<close>

definition throwIf :: "bool \<Rightarrow> exn \<Rightarrow> ('s, unit) act" where
  "throwIf b e = (if b then throw e else ret ())"

definition catchA :: "('s, 'a) act \<Rightarrow> (exn \<Rightarrow> ('s, 'a) act) \<Rightarrow> ('s, 'a) act" where
  "catchA m h = (\<lambda>s. case m s of (Inl e, s') \<Rightarrow> h e s' | (Inr x, s') \<Rightarrow> (Inr x, s'))"

text \<open>A \<open>for\<close> loop that threads its local variables, and \<open>map\<close> with an action.\<close>

fun foldA :: "('x \<Rightarrow> 'b \<Rightarrow> ('s, 'b) act) \<Rightarrow> 'x list \<Rightarrow> 'b \<Rightarrow> ('s, 'b) act" where
  "foldA f [] b = ret b"
| "foldA f (x # xs) b = bindA (f x b) (foldA f xs)"

fun mapA :: "('x \<Rightarrow> ('s, 'a) act) \<Rightarrow> 'x list \<Rightarrow> ('s, 'a list) act" where
  "mapA f [] = ret []"
| "mapA f (x # xs) = bindA (f x) (\<lambda>y. bindA (mapA f xs) (\<lambda>ys. ret (y # ys)))"

text \<open>
  \<open>Promise.all(xs.map(f))\<close>: every call is made, also after one of them has failed; the result
  is the first failure, or all the values.
\<close>

fun promiseAll :: "('x \<Rightarrow> ('s, 'a) act) \<Rightarrow> 'x list \<Rightarrow> ('s, 'a list) act" where
  "promiseAll f [] = ret []"
| "promiseAll f (x # xs) =
     (\<lambda>s. case f x s of
        (Inr y, s1) \<Rightarrow> bindA (promiseAll f xs) (\<lambda>ys. ret (y # ys)) s1
      | (Inl e, s1) \<Rightarrow> (Inl e, snd (promiseAll f xs s1)))"

text \<open>\<open>map\<close> with a computation that may throw but has no other effect.\<close>

fun mapE :: "('x \<Rightarrow> exn + 'a) \<Rightarrow> 'x list \<Rightarrow> exn + 'a list" where
  "mapE f [] = Inr []"
| "mapE f (x # xs) =
     (case f x of Inl e \<Rightarrow> Inl e
      | Inr y \<Rightarrow> (case mapE f xs of Inl e \<Rightarrow> Inl e | Inr ys \<Rightarrow> Inr (y # ys)))"

subsection \<open>Running an action\<close>

lemma run_ret [act_simps]: "ret x s = (Inr x, s)"
  by (simp add: ret_def)

lemma run_throw [act_simps]: "throw e s = (Inl e, s)"
  by (simp add: throw_def)

lemma run_gets [act_simps]: "gets f s = (Inr (f s), s)"
  by (simp add: gets_def)

lemma run_modify [act_simps]: "modify f s = (Inr (), f s)"
  by (simp add: modify_def)

lemma run_liftE [act_simps]: "liftE r s = (r, s)"
  by (simp add: liftE_def)

lemma run_throwIf [act_simps]: "throwIf b e s = (if b then (Inl e, s) else (Inr (), s))"
  by (simp add: throwIf_def ret_def throw_def)

lemma run_bindA [act_simps]:
  "bindA m f s = (case m s of (Inl e, s') \<Rightarrow> (Inl e, s') | (Inr x, s') \<Rightarrow> f x s')"
  by (simp add: bindA_def)

lemma run_catchA [act_simps]:
  "catchA m h s = (case m s of (Inl e, s') \<Rightarrow> h e s' | (Inr x, s') \<Rightarrow> (Inr x, s'))"
  by (simp add: catchA_def)

lemma mapE_Inr_iff: "mapE f xs = Inr ys \<longleftrightarrow> list_all2 (\<lambda>x y. f x = Inr y) xs ys"
proof (induction xs arbitrary: ys)
  case Nil
  then show ?case by auto
next
  case (Cons x xs)
  show ?case
    by (cases "f x"; cases "mapE f xs") (auto simp: list_all2_Cons1 simp flip: Cons.IH)
qed

lemma mapE_all_Inr: "(\<And>x. x \<in> set xs \<Longrightarrow> f x = Inr (g x)) \<Longrightarrow> mapE f xs = Inr (map g xs)"
  by (induction xs) auto

lemma mapE_Inl_D: "mapE f xs = Inl e \<Longrightarrow> \<exists>x \<in> set xs. f x = Inl e"
  by (induction xs) (auto split: sum.splits)

text \<open>A successful sequence succeeded step by step.\<close>

lemma bindA_InrE:
  assumes "bindA m f s = (Inr y, s')"
  obtains x s1 where "m s = (Inr x, s1)" and "f x s1 = (Inr y, s')"
  using assms by (auto simp: bindA_def split: prod.splits sum.splits)

lemma throwIf_InrE:
  assumes "throwIf b e s = (Inr y, s')"
  obtains "\<not> b" and "s' = s"
  using assms by (auto simp: run_throwIf split: if_splits)

section \<open>Preservation\<close>

text \<open>
  The action keeps \<open>I\<close>, whether it returns or throws. Every operation of a component gets one
  rule of this shape in \<open>preserves_intros\<close>; a handler then keeps the invariant by composition.
\<close>

definition preserves :: "('s \<Rightarrow> bool) \<Rightarrow> ('s, 'a) act \<Rightarrow> bool" where
  "preserves I m \<longleftrightarrow> (\<forall>s. I s \<longrightarrow> I (snd (m s)))"

lemma preservesD: "preserves I m \<Longrightarrow> I s \<Longrightarrow> m s = (r, s') \<Longrightarrow> I s'"
  by (metis preserves_def snd_conv)

lemma preservesI: "(\<And>s r s'. I s \<Longrightarrow> m s = (r, s') \<Longrightarrow> I s') \<Longrightarrow> preserves I m"
  by (metis preserves_def prod.collapse)

lemma preserves_ret [preserves_intros]: "preserves I (ret x)"
  by (simp add: preserves_def ret_def)

lemma preserves_throw [preserves_intros]: "preserves I (throw e)"
  by (simp add: preserves_def throw_def)

lemma preserves_gets [preserves_intros]: "preserves I (gets f)"
  by (simp add: preserves_def gets_def)

lemma preserves_liftE [preserves_intros]: "preserves I (liftE r)"
  by (simp add: preserves_def liftE_def)

lemma preserves_throwIf [preserves_intros]: "preserves I (throwIf b e)"
  by (simp add: preserves_def run_throwIf)

lemma preserves_modify: "(\<And>s. I s \<Longrightarrow> I (f s)) \<Longrightarrow> preserves I (modify f)"
  by (simp add: preserves_def modify_def)

lemma preserves_bindA [preserves_intros]:
  "preserves I m \<Longrightarrow> (\<And>x. preserves I (f x)) \<Longrightarrow> preserves I (bindA m f)"
  by (fastforce simp: preserves_def bindA_def split: prod.splits sum.splits)

lemma preserves_catchA [preserves_intros]:
  "preserves I m \<Longrightarrow> (\<And>e. preserves I (h e)) \<Longrightarrow> preserves I (catchA m h)"
  by (fastforce simp: preserves_def catchA_def split: prod.splits sum.splits)

lemma preserves_if [preserves_intros]:
  "(b \<Longrightarrow> preserves I m) \<Longrightarrow> (\<not> b \<Longrightarrow> preserves I n) \<Longrightarrow> preserves I (if b then m else n)"
  by simp

lemma preserves_case_option [preserves_intros]:
  "(v = None \<Longrightarrow> preserves I m) \<Longrightarrow> (\<And>x. v = Some x \<Longrightarrow> preserves I (f x)) \<Longrightarrow>
   preserves I (case v of None \<Rightarrow> m | Some x \<Rightarrow> f x)"
  by (cases v) auto

lemma preserves_case_sum [preserves_intros]:
  "(\<And>e. v = Inl e \<Longrightarrow> preserves I (g e)) \<Longrightarrow> (\<And>x. v = Inr x \<Longrightarrow> preserves I (f x)) \<Longrightarrow>
   preserves I (case v of Inl e \<Rightarrow> g e | Inr x \<Rightarrow> f x)"
  by (cases v) auto

lemma preserves_case_prod [preserves_intros]:
  "(\<And>x y. v = (x, y) \<Longrightarrow> preserves I (f x y)) \<Longrightarrow> preserves I (case v of (x, y) \<Rightarrow> f x y)"
  by (cases v) auto

lemma preserves_foldA [preserves_intros]:
  assumes "\<And>x b. preserves I (f x b)"
  shows "preserves I (foldA f xs b)"
  by (induction xs arbitrary: b) (auto intro!: preserves_ret preserves_bindA assms)

lemma preserves_foldA_mem:
  assumes "\<And>x b. x \<in> set xs \<Longrightarrow> preserves I (f x b)"
  shows "preserves I (foldA f xs b)"
  using assms by (induction xs arbitrary: b) (auto intro!: preserves_ret preserves_bindA)

lemma preserves_mapA [preserves_intros]:
  assumes "\<And>x. preserves I (f x)"
  shows "preserves I (mapA f xs)"
  by (induction xs) (auto intro!: preserves_ret preserves_bindA assms)

lemma preserves_promiseAll [preserves_intros]:
  assumes "\<And>x. preserves I (f x)"
  shows "preserves I (promiseAll f xs)"
proof (induction xs)
  case Nil
  show ?case by (simp add: preserves_ret)
next
  case (Cons x xs)
  have "preserves I (bindA (promiseAll f xs) (\<lambda>ys. ret (y # ys)))" for y
    by (intro preserves_bindA preserves_ret Cons.IH)
  then show ?case using Cons.IH assms [of x]
    by (fastforce simp: preserves_def split: prod.splits sum.splits)
qed

end
