(* ===== verification/Tables.thy ===== *)
theory Tables
  imports Effects
begin

text \<open>
  Tables with unique keys, as the schema declares them: a table is the list of its rows in
  insertion order, and two rows clash when they agree on the primary key or on a unique
  constraint. \<open>createRow\<close>, \<open>updateRow\<close> and \<open>deleteRow\<close> are the three changes the server makes,
  with the error code the database reports. The locale \<open>keyed_table\<close> is the contract the
  components rely on (rows stay pairwise distinct on their keys, a row is found by its key);
  every table of the schema is an interpretation of it.
\<close>

definition createRow :: "('r \<Rightarrow> 'r \<Rightarrow> bool) \<Rightarrow> 'r \<Rightarrow> 'r list \<Rightarrow> prisma_code + 'r list" where
  "createRow clash r t = (if \<exists>x \<in> set t. clash x r then Inl P2002 else Inr (t @ [r]))"

definition updateRow ::
  "('r \<Rightarrow> 'r \<Rightarrow> bool) \<Rightarrow> ('r \<Rightarrow> bool) \<Rightarrow> ('r \<Rightarrow> 'r) \<Rightarrow> 'r list \<Rightarrow> prisma_code + 'r \<times> 'r list" where
  "updateRow clash p f t =
     (case find p t of
        None \<Rightarrow> Inl P2025
      | Some r \<Rightarrow>
          if \<exists>x \<in> set t. \<not> p x \<and> clash x (f r) then Inl P2002
          else Inr (f r, map (\<lambda>x. if p x then f x else x) t))"

definition deleteRow :: "('r \<Rightarrow> bool) \<Rightarrow> 'r list \<Rightarrow> prisma_code + 'r list" where
  "deleteRow p t =
     (case find p t of None \<Rightarrow> Inl P2025 | Some _ \<Rightarrow> Inr (filter (\<lambda>x. \<not> p x) t))"

text \<open>No two rows of the table clash.\<close>

definition okTable :: "('r \<Rightarrow> 'r \<Rightarrow> bool) \<Rightarrow> 'r list \<Rightarrow> bool" where
  "okTable clash t = sorted_wrt (\<lambda>x y. \<not> clash x y) t"

lemma okTable_Nil [simp]: "okTable clash []"
  by (simp add: okTable_def)

lemma okTable_filter: "okTable clash t \<Longrightarrow> okTable clash (filter p t)"
  unfolding okTable_def by (rule sorted_wrt_filter)

text \<open>A change of rows that can only remove clashes.\<close>

lemma okTable_map:
  assumes "okTable clash t"
    and "\<And>x y. x \<in> set t \<Longrightarrow> y \<in> set t \<Longrightarrow> clash (f x) (f y) \<Longrightarrow> clash x y"
  shows "okTable clash (map f t)"
  using assms by (induction t) (auto simp: okTable_def)

lemma createRow_Inr: "createRow clash r t = Inr t' \<Longrightarrow> t' = t @ [r] \<and> (\<forall>x \<in> set t. \<not> clash x r)"
  by (auto simp: createRow_def split: if_splits)

lemma updateRow_Inr:
  assumes "updateRow clash p f t = Inr (r', t')"
  obtains r where "find p t = Some r" and "r' = f r" and "t' = map (\<lambda>x. if p x then f x else x) t"
    and "\<forall>x \<in> set t. \<not> p x \<longrightarrow> \<not> clash x (f r)"
  using assms by (auto simp: updateRow_def split: option.splits if_splits)

lemma deleteRow_Inr:
  assumes "deleteRow p t = Inr t'"
  obtains r where "find p t = Some r" and "t' = filter (\<lambda>x. \<not> p x) t"
  using assms by (auto simp: deleteRow_def split: option.splits)

lemma find_Some_D: "find p t = Some r \<Longrightarrow> r \<in> set t \<and> p r"
  by (auto simp: find_Some_iff)

lemma find_None_D: "find p t = None \<Longrightarrow> x \<in> set t \<Longrightarrow> \<not> p x"
  by (auto simp: find_None_iff)

text \<open>Finding a row by its key after an update by key.\<close>

lemma find_map_update:
  assumes "\<And>x. key (f x) = key x"
  shows "find (\<lambda>x. key x = k) (map (\<lambda>x. if key x = k then f x else x) t) =
    map_option f (find (\<lambda>x. key x = k) t)"
  using assms by (induction t) auto

section \<open>The contract of a keyed table\<close>

locale keyed_table =
  fixes key :: "'r \<Rightarrow> 'k" and clash :: "'r \<Rightarrow> 'r \<Rightarrow> bool"
  assumes clash_sym: "clash x y \<Longrightarrow> clash y x"
    and key_clash: "key x = key y \<Longrightarrow> clash x y"
begin

lemma ok_create: "okTable clash t \<Longrightarrow> createRow clash r t = Inr t' \<Longrightarrow> okTable clash t'"
  by (auto dest!: createRow_Inr simp: okTable_def sorted_wrt_append)

lemma ok_delete: "okTable clash t \<Longrightarrow> deleteRow p t = Inr t' \<Longrightarrow> okTable clash t'"
  by (auto elim!: deleteRow_Inr intro: okTable_filter)

lemma ok_distinct: "okTable clash t \<Longrightarrow> distinct (map key t)"
  by (induction t) (auto simp: okTable_def dest: key_clash)

lemma ok_clash_eq: "okTable clash t \<Longrightarrow> x \<in> set t \<Longrightarrow> y \<in> set t \<Longrightarrow> clash x y \<Longrightarrow> x = y"
  by (induction t) (auto simp: okTable_def dest: clash_sym)

lemma ok_same_key: "okTable clash t \<Longrightarrow> x \<in> set t \<Longrightarrow> y \<in> set t \<Longrightarrow> key x = key y \<Longrightarrow> x = y"
  by (blast intro: ok_clash_eq key_clash)

lemma ok_find: "okTable clash t \<Longrightarrow> x \<in> set t \<Longrightarrow> find (\<lambda>y. key y = key x) t = Some x"
  by (induction t) (auto simp: okTable_def dest: key_clash)

text \<open>An update by key changes one row, so the table stays free of clashes.\<close>

lemma ok_update:
  assumes ok: "okTable clash t" and up: "updateRow clash (\<lambda>x. key x = k) f t = Inr (r', t')"
  shows "okTable clash t'"
proof -
  obtain r where r: "find (\<lambda>x. key x = k) t = Some r"
    and t': "t' = map (\<lambda>x. if key x = k then f x else x) t"
    and free: "\<forall>x \<in> set t. key x \<noteq> k \<longrightarrow> \<not> clash x (f r)"
    using up by (rule updateRow_Inr)
  from r have rk: "r \<in> set t" "key r = k" by (auto dest: find_Some_D)
  have one: "x = r" if "x \<in> set t" "key x = k" for x
    using ok_same_key [OF ok that(1) rk(1)] that(2) rk(2) by simp
  show ?thesis unfolding t'
  proof (rule okTable_map [OF ok])
    fix x y assume xy: "x \<in> set t" "y \<in> set t"
      and c: "clash (if key x = k then f x else x) (if key y = k then f y else y)"
    show "clash x y"
    proof (cases "key x = k")
      case True
      then have "x = r" using one xy(1) by blast
      then show ?thesis using c True free xy(2) key_clash one
        by (auto split: if_splits dest: clash_sym)
    next
      case False
      then show ?thesis using c free xy one by (auto split: if_splits)
    qed
  qed
qed

text \<open>An update that leaves the unique columns alone goes through.\<close>

lemma update_keeping:
  assumes "okTable clash t" and "find (\<lambda>x. key x = k) t = Some r" and "\<And>x y. clash x (f y) = clash x y"
  shows "updateRow clash (\<lambda>x. key x = k) f t = Inr (f r, map (\<lambda>x. if key x = k then f x else x) t)"
proof -
  have r: "r \<in> set t" "key r = k" using find_Some_D [OF assms(2)] by simp_all
  have "\<not> clash x (f r)" if "x \<in> set t" "key x \<noteq> k" for x
    using ok_clash_eq [OF assms(1) that(1) r(1)] that(2) r(2) assms(3) by auto
  then show ?thesis using assms(2) by (auto simp: updateRow_def)
qed

lemma find_created:
  assumes "createRow clash r t = Inr t'"
  shows "find (\<lambda>x. key x = key r) t' = Some r"
proof -
  from assms have "t' = t @ [r]" and "\<forall>x \<in> set t. key x \<noteq> key r"
    by (auto dest!: createRow_Inr dest: key_clash)
  moreover from this(2) have "find (\<lambda>x. key x = key r) t = None" by (auto simp: find_None_iff)
  ultimately show ?thesis by (induction t arbitrary: t') auto
qed

end

end
