(* ===== verification/Database.thy ===== *)
theory Database
  imports Tables
begin

text \<open>
  The database of \<open>prisma/schema.prisma\<close>: one record per model, one list per table, the unique
  constraints as the \<open>clash\<close> relation of the table, the foreign keys checked on insertion and
  followed on deletion (\<open>onDelete: Cascade\<close>). The tables \<open>notification_channels\<close> and
  \<open>activity_logs\<close>, which no code reads or writes, are left out. \<open>dbInv\<close> is the invariant the
  schema promises; each write of the server gets a lemma that keeps it.
\<close>

section \<open>Rows\<close>

record user_row =
  u_id :: jsstring
  u_googleSubId :: jsstring
  u_googleEmail :: jsstring
  u_masterPasswordHash :: jsstring
  u_masterKdfSalt :: jsstring
  u_autoLockMinutes :: int
  u_createdAt :: int

record device_row =
  td_id :: jsstring
  td_userId :: jsstring
  td_deviceLabel :: jsstring
  td_webauthnCredentialId :: jsstring
  td_webauthnPublicKey :: jsstring
  td_counter :: int
  td_createdAt :: int
  td_lastUsedAt :: "int option"

record account_row =
  ac_id :: jsstring
  ac_userId :: jsstring
  ac_serviceName :: jsstring
  ac_urlOrAppName :: jsstring
  ac_category :: jsstring
  ac_loginId :: jsstring
  ac_encryptedPassword :: jsstring
  ac_customFields :: "json option"
  ac_memo :: "jsstring option"
  ac_createdAt :: int
  ac_updatedAt :: int

record email_account_row =
  em_id :: jsstring
  em_userId :: jsstring
  em_providerType :: jsstring
  em_displayName :: jsstring
  em_encryptedAccessToken :: jsstring
  em_encryptedRefreshToken :: jsstring
  em_tokenExpiresAt :: "int option"
  em_isActive :: bool
  em_connectedAt :: int

datatype logical_operator = OpAND | OpOR

record rule_row =
  ru_id :: jsstring
  ru_emailAccountId :: jsstring
  ru_logicalOperator :: logical_operator
  ru_actionType :: jsstring
  ru_isActive :: bool
  ru_createdAt :: int

record condition_row =
  co_id :: jsstring
  co_ruleId :: jsstring
  co_conditionType :: jsstring
  co_conditionValue :: json

datatype candidate_status = PENDING | APPROVED | EXCLUDED | PROCESSED

record candidate_row =
  ca_id :: jsstring
  ca_ruleId :: jsstring
  ca_emailAccountId :: jsstring
  ca_externalMessageId :: jsstring
  ca_sender :: jsstring
  ca_subject :: jsstring
  ca_receivedAt :: int
  ca_status :: candidate_status
  ca_processedAt :: "int option"

record database =
  users :: "user_row list"
  trustedDevices :: "device_row list"
  accounts :: "account_row list"
  emailAccounts :: "email_account_row list"
  emailRules :: "rule_row list"
  ruleConditions :: "condition_row list"
  emailCandidates :: "candidate_row list"

definition emptyDatabase :: database where
  "emptyDatabase =
     \<lparr>users = [], trustedDevices = [], accounts = [], emailAccounts = [], emailRules = [],
      ruleConditions = [], emailCandidates = []\<rparr>"

section \<open>Unique constraints\<close>

definition user_clash :: "user_row \<Rightarrow> user_row \<Rightarrow> bool" where
  "user_clash x y \<longleftrightarrow> u_id x = u_id y \<or> u_googleSubId x = u_googleSubId y"

definition device_clash :: "device_row \<Rightarrow> device_row \<Rightarrow> bool" where
  "device_clash x y \<longleftrightarrow>
     td_id x = td_id y \<or> td_webauthnCredentialId x = td_webauthnCredentialId y"

text \<open>\<open>@@unique([userId, urlOrAppName, loginId])\<close>.\<close>

definition account_clash :: "account_row \<Rightarrow> account_row \<Rightarrow> bool" where
  "account_clash x y \<longleftrightarrow>
     ac_id x = ac_id y \<or>
     (ac_userId x = ac_userId y \<and> ac_urlOrAppName x = ac_urlOrAppName y \<and> ac_loginId x = ac_loginId y)"

definition email_account_clash :: "email_account_row \<Rightarrow> email_account_row \<Rightarrow> bool" where
  "email_account_clash x y \<longleftrightarrow> em_id x = em_id y"

definition rule_clash :: "rule_row \<Rightarrow> rule_row \<Rightarrow> bool" where
  "rule_clash x y \<longleftrightarrow> ru_id x = ru_id y"

definition condition_clash :: "condition_row \<Rightarrow> condition_row \<Rightarrow> bool" where
  "condition_clash x y \<longleftrightarrow> co_id x = co_id y"

text \<open>\<open>@@unique([ruleId, externalMessageId])\<close>.\<close>

definition candidate_clash :: "candidate_row \<Rightarrow> candidate_row \<Rightarrow> bool" where
  "candidate_clash x y \<longleftrightarrow>
     ca_id x = ca_id y \<or>
     (ca_ruleId x = ca_ruleId y \<and> ca_externalMessageId x = ca_externalMessageId y)"

interpretation user_table: keyed_table u_id user_clash
  by unfold_locales (auto simp: user_clash_def)

interpretation device_table: keyed_table td_id device_clash
  by unfold_locales (auto simp: device_clash_def)

interpretation account_table: keyed_table ac_id account_clash
  by unfold_locales (auto simp: account_clash_def)

interpretation email_account_table: keyed_table em_id email_account_clash
  by unfold_locales (auto simp: email_account_clash_def)

interpretation rule_table: keyed_table ru_id rule_clash
  by unfold_locales (auto simp: rule_clash_def)

interpretation condition_table: keyed_table co_id condition_clash
  by unfold_locales (auto simp: condition_clash_def)

interpretation candidate_table: keyed_table ca_id candidate_clash
  by unfold_locales (auto simp: candidate_clash_def)

section \<open>Writes\<close>

definition createUser :: "user_row \<Rightarrow> database \<Rightarrow> prisma_code + database" where
  "createUser r db =
     (case createRow user_clash r (users db) of Inl c \<Rightarrow> Inl c | Inr t \<Rightarrow> Inr (db\<lparr>users := t\<rparr>))"

text \<open>The two updates of a user leave its keys alone.\<close>

definition updateUser :: "jsstring \<Rightarrow> (user_row \<Rightarrow> user_row) \<Rightarrow> database \<Rightarrow> prisma_code + user_row \<times> database" where
  "updateUser k f db =
     (case updateRow user_clash (\<lambda>u. u_id u = k) f (users db) of
        Inl c \<Rightarrow> Inl c | Inr (r, t) \<Rightarrow> Inr (r, db\<lparr>users := t\<rparr>))"

definition createDevice :: "device_row \<Rightarrow> database \<Rightarrow> prisma_code + database" where
  "createDevice r db =
     (case createRow device_clash r (trustedDevices db) of
        Inl c \<Rightarrow> Inl c
      | Inr t \<Rightarrow> if td_userId r \<in> u_id ` set (users db) then Inr (db\<lparr>trustedDevices := t\<rparr>) else Inl P2003)"

definition updateDevice ::
  "jsstring \<Rightarrow> (device_row \<Rightarrow> device_row) \<Rightarrow> database \<Rightarrow> prisma_code + device_row \<times> database" where
  "updateDevice k f db =
     (case updateRow device_clash (\<lambda>d. td_id d = k) f (trustedDevices db) of
        Inl c \<Rightarrow> Inl c | Inr (r, t) \<Rightarrow> Inr (r, db\<lparr>trustedDevices := t\<rparr>))"

definition deleteDevice :: "jsstring \<Rightarrow> database \<Rightarrow> prisma_code + database" where
  "deleteDevice k db =
     (case deleteRow (\<lambda>d. td_id d = k) (trustedDevices db) of
        Inl c \<Rightarrow> Inl c | Inr t \<Rightarrow> Inr (db\<lparr>trustedDevices := t\<rparr>))"

definition createAccount :: "account_row \<Rightarrow> database \<Rightarrow> prisma_code + database" where
  "createAccount r db =
     (case createRow account_clash r (accounts db) of
        Inl c \<Rightarrow> Inl c
      | Inr t \<Rightarrow> if ac_userId r \<in> u_id ` set (users db) then Inr (db\<lparr>accounts := t\<rparr>) else Inl P2003)"

definition updateAccount ::
  "jsstring \<Rightarrow> (account_row \<Rightarrow> account_row) \<Rightarrow> database \<Rightarrow> prisma_code + account_row \<times> database" where
  "updateAccount k f db =
     (case updateRow account_clash (\<lambda>a. ac_id a = k) f (accounts db) of
        Inl c \<Rightarrow> Inl c
      | Inr (r, t) \<Rightarrow>
          if ac_userId r \<in> u_id ` set (users db) then Inr (r, db\<lparr>accounts := t\<rparr>) else Inl P2003)"

definition deleteAccount :: "jsstring \<Rightarrow> database \<Rightarrow> prisma_code + database" where
  "deleteAccount k db =
     (case deleteRow (\<lambda>a. ac_id a = k) (accounts db) of
        Inl c \<Rightarrow> Inl c | Inr t \<Rightarrow> Inr (db\<lparr>accounts := t\<rparr>))"

definition createEmailAccount :: "email_account_row \<Rightarrow> database \<Rightarrow> prisma_code + database" where
  "createEmailAccount r db =
     (case createRow email_account_clash r (emailAccounts db) of
        Inl c \<Rightarrow> Inl c
      | Inr t \<Rightarrow> if em_userId r \<in> u_id ` set (users db) then Inr (db\<lparr>emailAccounts := t\<rparr>) else Inl P2003)"

definition updateEmailAccount ::
  "jsstring \<Rightarrow> (email_account_row \<Rightarrow> email_account_row) \<Rightarrow> database \<Rightarrow> prisma_code + email_account_row \<times> database" where
  "updateEmailAccount k f db =
     (case updateRow email_account_clash (\<lambda>a. em_id a = k) f (emailAccounts db) of
        Inl c \<Rightarrow> Inl c | Inr (r, t) \<Rightarrow> Inr (r, db\<lparr>emailAccounts := t\<rparr>))"

definition createCondition :: "condition_row \<Rightarrow> database \<Rightarrow> prisma_code + database" where
  "createCondition r db =
     (case createRow condition_clash r (ruleConditions db) of
        Inl c \<Rightarrow> Inl c
      | Inr t \<Rightarrow> if co_ruleId r \<in> ru_id ` set (emailRules db) then Inr (db\<lparr>ruleConditions := t\<rparr>) else Inl P2003)"

definition deleteConditionsOf :: "jsstring \<Rightarrow> database \<Rightarrow> database" where
  "deleteConditionsOf k db = db\<lparr>ruleConditions := filter (\<lambda>c. co_ruleId c \<noteq> k) (ruleConditions db)\<rparr>"

definition createRule :: "rule_row \<Rightarrow> database \<Rightarrow> prisma_code + database" where
  "createRule r db =
     (case createRow rule_clash r (emailRules db) of
        Inl c \<Rightarrow> Inl c
      | Inr t \<Rightarrow> if ru_emailAccountId r \<in> em_id ` set (emailAccounts db) then Inr (db\<lparr>emailRules := t\<rparr>)
                else Inl P2003)"

definition updateRule ::
  "jsstring \<Rightarrow> (rule_row \<Rightarrow> rule_row) \<Rightarrow> database \<Rightarrow> prisma_code + rule_row \<times> database" where
  "updateRule k f db =
     (case updateRow rule_clash (\<lambda>r. ru_id r = k) f (emailRules db) of
        Inl c \<Rightarrow> Inl c | Inr (r, t) \<Rightarrow> Inr (r, db\<lparr>emailRules := t\<rparr>))"

definition createCandidate :: "candidate_row \<Rightarrow> database \<Rightarrow> prisma_code + database" where
  "createCandidate r db =
     (case createRow candidate_clash r (emailCandidates db) of
        Inl c \<Rightarrow> Inl c
      | Inr t \<Rightarrow>
          if ca_ruleId r \<in> ru_id ` set (emailRules db) \<and> ca_emailAccountId r \<in> em_id ` set (emailAccounts db)
          then Inr (db\<lparr>emailCandidates := t\<rparr>) else Inl P2003)"

definition updateCandidate ::
  "jsstring \<Rightarrow> (candidate_row \<Rightarrow> candidate_row) \<Rightarrow> database \<Rightarrow> prisma_code + candidate_row \<times> database" where
  "updateCandidate k f db =
     (case updateRow candidate_clash (\<lambda>c. ca_id c = k) f (emailCandidates db) of
        Inl c \<Rightarrow> Inl c | Inr (r, t) \<Rightarrow> Inr (r, db\<lparr>emailCandidates := t\<rparr>))"

text \<open>
  Deleting a rule takes its conditions and candidates with it, deleting a mail account its rules
  and candidates, and their dependents in turn.
\<close>

definition cascadeRules :: "(rule_row \<Rightarrow> bool) \<Rightarrow> database \<Rightarrow> database" where
  "cascadeRules p db =
     (let gone = ru_id ` set (filter p (emailRules db)) in
      db\<lparr>emailRules := filter (\<lambda>r. \<not> p r) (emailRules db),
         ruleConditions := filter (\<lambda>c. co_ruleId c \<notin> gone) (ruleConditions db),
         emailCandidates := filter (\<lambda>c. ca_ruleId c \<notin> gone) (emailCandidates db)\<rparr>)"

definition deleteRule :: "jsstring \<Rightarrow> database \<Rightarrow> prisma_code + database" where
  "deleteRule k db =
     (case find (\<lambda>r. ru_id r = k) (emailRules db) of
        None \<Rightarrow> Inl P2025 | Some _ \<Rightarrow> Inr (cascadeRules (\<lambda>r. ru_id r = k) db))"

definition deleteEmailAccount :: "jsstring \<Rightarrow> database \<Rightarrow> prisma_code + database" where
  "deleteEmailAccount k db =
     (case deleteRow (\<lambda>a. em_id a = k) (emailAccounts db) of
        Inl c \<Rightarrow> Inl c
      | Inr t \<Rightarrow>
          (let db' = cascadeRules (\<lambda>r. ru_emailAccountId r = k) db in
           Inr (db'\<lparr>emailAccounts := t,
                    emailCandidates := filter (\<lambda>c. ca_emailAccountId c \<noteq> k) (emailCandidates db')\<rparr>)))"

end
