(* ===== verification/Integrity.thy ===== *)
theory Integrity
  imports Database
begin

text \<open>
  Integrity of the database. \<open>keysOk\<close> is the uniqueness of every key of the schema, \<open>refsOk\<close> that
  every foreign key points to a row, \<open>denormOk\<close> that the mail account a candidate stores is the one
  of its rule (the copy the schema keeps for counting), \<open>lockMinutesOk\<close> the range of the auto-lock
  setting. \<open>dbInv\<close> is their conjunction; every write of \<open>Database\<close> keeps it.
\<close>

definition keysOk :: "database \<Rightarrow> bool" where
  "keysOk db \<longleftrightarrow>
     okTable user_clash (users db) \<and> okTable device_clash (trustedDevices db) \<and>
     okTable account_clash (accounts db) \<and> okTable email_account_clash (emailAccounts db) \<and>
     okTable rule_clash (emailRules db) \<and> okTable condition_clash (ruleConditions db) \<and>
     okTable candidate_clash (emailCandidates db)"

definition refsOk :: "database \<Rightarrow> bool" where
  "refsOk db \<longleftrightarrow>
     td_userId ` set (trustedDevices db) \<subseteq> u_id ` set (users db) \<and>
     ac_userId ` set (accounts db) \<subseteq> u_id ` set (users db) \<and>
     em_userId ` set (emailAccounts db) \<subseteq> u_id ` set (users db) \<and>
     ru_emailAccountId ` set (emailRules db) \<subseteq> em_id ` set (emailAccounts db) \<and>
     co_ruleId ` set (ruleConditions db) \<subseteq> ru_id ` set (emailRules db) \<and>
     ca_ruleId ` set (emailCandidates db) \<subseteq> ru_id ` set (emailRules db) \<and>
     ca_emailAccountId ` set (emailCandidates db) \<subseteq> em_id ` set (emailAccounts db)"

definition denormOk :: "database \<Rightarrow> bool" where
  "denormOk db \<longleftrightarrow>
     (\<forall>c \<in> set (emailCandidates db). \<forall>r \<in> set (emailRules db).
        ru_id r = ca_ruleId c \<longrightarrow> ca_emailAccountId c = ru_emailAccountId r)"

definition lockMinutesOk :: "database \<Rightarrow> bool" where
  "lockMinutesOk db \<longleftrightarrow> (\<forall>u \<in> set (users db). 1 \<le> u_autoLockMinutes u \<and> u_autoLockMinutes u \<le> 240)"

definition dbInv :: "database \<Rightarrow> bool" where
  "dbInv db \<longleftrightarrow> keysOk db \<and> refsOk db \<and> denormOk db \<and> lockMinutesOk db"

lemmas inv_defs = dbInv_def keysOk_def refsOk_def denormOk_def lockMinutesOk_def

lemma dbInv_empty: "dbInv emptyDatabase"
  by (simp add: inv_defs emptyDatabase_def)

lemma image_update_key:
  assumes "\<And>x. g (f x) = g x"
  shows "g ` set (map (\<lambda>x. if p x then f x else x) t) = g ` set t"
proof -
  have "g (if p x then f x else x) = g x" for x using assms by simp
  then show ?thesis by (simp only: set_map image_image)
qed

section \<open>What the invariant gives\<close>

lemma dbInv_tables:
  assumes "dbInv db"
  shows "okTable user_clash (users db)" and "okTable device_clash (trustedDevices db)"
    and "okTable account_clash (accounts db)" and "okTable email_account_clash (emailAccounts db)"
    and "okTable rule_clash (emailRules db)" and "okTable condition_clash (ruleConditions db)"
    and "okTable candidate_clash (emailCandidates db)"
  using assms by (simp_all add: inv_defs)

lemma dbInv_refs:
  assumes "dbInv db"
  shows "td_userId ` set (trustedDevices db) \<subseteq> u_id ` set (users db)"
    and "ac_userId ` set (accounts db) \<subseteq> u_id ` set (users db)"
    and "em_userId ` set (emailAccounts db) \<subseteq> u_id ` set (users db)"
    and "ru_emailAccountId ` set (emailRules db) \<subseteq> em_id ` set (emailAccounts db)"
    and "co_ruleId ` set (ruleConditions db) \<subseteq> ru_id ` set (emailRules db)"
    and "ca_ruleId ` set (emailCandidates db) \<subseteq> ru_id ` set (emailRules db)"
    and "ca_emailAccountId ` set (emailCandidates db) \<subseteq> em_id ` set (emailAccounts db)"
  using assms by (simp_all add: inv_defs)

lemma dbInv_denorm: "dbInv db \<Longrightarrow> c \<in> set (emailCandidates db) \<Longrightarrow> r \<in> set (emailRules db) \<Longrightarrow>
  ru_id r = ca_ruleId c \<Longrightarrow> ca_emailAccountId c = ru_emailAccountId r"
  by (simp add: inv_defs)

lemma dbInv_lockMinutes: "dbInv db \<Longrightarrow> u \<in> set (users db) \<Longrightarrow>
  1 \<le> u_autoLockMinutes u \<and> u_autoLockMinutes u \<le> 240"
  by (simp add: inv_defs)

section \<open>Replacing one table\<close>

text \<open>What has to be shown when a single table changes; the rest of the invariant carries over.\<close>

lemma dbInv_setUsers:
  assumes "dbInv db" and "okTable user_clash t" and "u_id ` set (users db) \<subseteq> u_id ` set t"
    and "\<forall>u \<in> set t. 1 \<le> u_autoLockMinutes u \<and> u_autoLockMinutes u \<le> 240"
  shows "dbInv (db\<lparr>users := t\<rparr>)"
  using assms(1,2,4) dbInv_refs(1-3) [OF assms(1), THEN subset_trans, OF assms(3)]
  by (simp add: inv_defs)

lemma dbInv_setDevices:
  "dbInv db \<Longrightarrow> okTable device_clash t \<Longrightarrow> td_userId ` set t \<subseteq> u_id ` set (users db) \<Longrightarrow>
   dbInv (db\<lparr>trustedDevices := t\<rparr>)"
  by (simp add: inv_defs)

lemma dbInv_setAccounts:
  "dbInv db \<Longrightarrow> okTable account_clash t \<Longrightarrow> ac_userId ` set t \<subseteq> u_id ` set (users db) \<Longrightarrow>
   dbInv (db\<lparr>accounts := t\<rparr>)"
  by (simp add: inv_defs)

lemma dbInv_setEmailAccounts:
  assumes "dbInv db" and "okTable email_account_clash t" and "em_userId ` set t \<subseteq> u_id ` set (users db)"
    and "em_id ` set (emailAccounts db) \<subseteq> em_id ` set t"
  shows "dbInv (db\<lparr>emailAccounts := t\<rparr>)"
  using assms(1-3) dbInv_refs(4,7) [OF assms(1), THEN subset_trans, OF assms(4)]
  by (simp add: inv_defs)

lemma dbInv_setRules:
  assumes "dbInv db" and "okTable rule_clash t" and "ru_emailAccountId ` set t \<subseteq> em_id ` set (emailAccounts db)"
    and "ru_id ` set (emailRules db) \<subseteq> ru_id ` set t" and "denormOk (db\<lparr>emailRules := t\<rparr>)"
  shows "dbInv (db\<lparr>emailRules := t\<rparr>)"
  using assms(1-3,5) dbInv_refs(5,6) [OF assms(1), THEN subset_trans, OF assms(4)]
  by (simp add: inv_defs)

lemma dbInv_setConditions:
  "dbInv db \<Longrightarrow> okTable condition_clash t \<Longrightarrow> co_ruleId ` set t \<subseteq> ru_id ` set (emailRules db) \<Longrightarrow>
   dbInv (db\<lparr>ruleConditions := t\<rparr>)"
  by (simp add: inv_defs)

lemma dbInv_setCandidates:
  "dbInv db \<Longrightarrow> okTable candidate_clash t \<Longrightarrow> ca_ruleId ` set t \<subseteq> ru_id ` set (emailRules db) \<Longrightarrow>
   ca_emailAccountId ` set t \<subseteq> em_id ` set (emailAccounts db) \<Longrightarrow>
   denormOk (db\<lparr>emailCandidates := t\<rparr>) \<Longrightarrow> dbInv (db\<lparr>emailCandidates := t\<rparr>)"
  by (simp add: inv_defs)

section \<open>Every write keeps the invariant\<close>

lemma dbInv_createUser:
  assumes "dbInv db" and "createUser r db = Inr db'"
    and "1 \<le> u_autoLockMinutes r" and "u_autoLockMinutes r \<le> 240"
  shows "dbInv db'"
proof -
  from assms(2) obtain t where t: "createRow user_clash r (users db) = Inr t" and db': "db' = db\<lparr>users := t\<rparr>"
    by (auto simp: createUser_def split: sum.splits)
  have "t = users db @ [r]" using createRow_Inr [OF t] by simp
  then show ?thesis unfolding db'
    using assms(1,3,4) dbInv_lockMinutes [OF assms(1)]
    by (intro dbInv_setUsers user_table.ok_create [OF dbInv_tables(1) t]) auto
qed

lemma dbInv_updateUser:
  assumes "dbInv db" and "updateUser k f db = Inr (r, db')"
    and "\<And>u. u_id (f u) = u_id u"
    and "\<And>u. 1 \<le> u_autoLockMinutes u \<and> u_autoLockMinutes u \<le> 240 \<Longrightarrow>
           1 \<le> u_autoLockMinutes (f u) \<and> u_autoLockMinutes (f u) \<le> 240"
  shows "dbInv db'"
proof -
  from assms(2) obtain t where t: "updateRow user_clash (\<lambda>u. u_id u = k) f (users db) = Inr (r, t)"
    and db': "db' = db\<lparr>users := t\<rparr>"
    by (auto simp: updateUser_def split: sum.splits)
  have m: "t = map (\<lambda>u. if u_id u = k then f u else u) (users db)"
    using t by (auto elim: updateRow_Inr)
  have "u_id ` set t = u_id ` set (users db)" unfolding m by (rule image_update_key) (rule assms(3))
  moreover have "\<forall>u \<in> set t. 1 \<le> u_autoLockMinutes u \<and> u_autoLockMinutes u \<le> 240"
    using assms(4) dbInv_lockMinutes [OF assms(1)] by (auto simp: m)
  ultimately show ?thesis unfolding db'
    by (intro dbInv_setUsers assms(1) user_table.ok_update [OF dbInv_tables(1) t]) auto
qed

lemma dbInv_createDevice:
  assumes "dbInv db" and "createDevice r db = Inr db'"
  shows "dbInv db'"
proof -
  from assms(2) obtain t where t: "createRow device_clash r (trustedDevices db) = Inr t"
    and db': "db' = db\<lparr>trustedDevices := t\<rparr>" and fk: "td_userId r \<in> u_id ` set (users db)"
    by (auto simp: createDevice_def split: sum.splits if_splits)
  have "t = trustedDevices db @ [r]" using createRow_Inr [OF t] by simp
  then show ?thesis unfolding db' using fk dbInv_refs(1) [OF assms(1)]
    by (intro dbInv_setDevices assms(1) device_table.ok_create [OF dbInv_tables(2) t]) auto
qed

lemma dbInv_updateDevice:
  assumes "dbInv db" and "updateDevice k f db = Inr (r, db')" and "\<And>d. td_userId (f d) = td_userId d"
  shows "dbInv db'"
proof -
  from assms(2) obtain t where t: "updateRow device_clash (\<lambda>d. td_id d = k) f (trustedDevices db) = Inr (r, t)"
    and db': "db' = db\<lparr>trustedDevices := t\<rparr>"
    by (auto simp: updateDevice_def split: sum.splits)
  have m: "t = map (\<lambda>d. if td_id d = k then f d else d) (trustedDevices db)"
    using t by (auto elim: updateRow_Inr)
  have "td_userId ` set t = td_userId ` set (trustedDevices db)"
    unfolding m by (rule image_update_key) (rule assms(3))
  then show ?thesis unfolding db' using dbInv_refs(1) [OF assms(1)]
    by (intro dbInv_setDevices assms(1) device_table.ok_update [OF dbInv_tables(2) t]) auto
qed

lemma dbInv_deleteDevicesOf:
  assumes "dbInv db"
  shows "dbInv (db\<lparr>trustedDevices := filter p (trustedDevices db)\<rparr>)"
  using dbInv_refs(1) [OF assms]
  by (intro dbInv_setDevices assms okTable_filter dbInv_tables) auto

lemma dbInv_deleteDevice: "dbInv db \<Longrightarrow> deleteDevice k db = Inr db' \<Longrightarrow> dbInv db'"
  by (auto simp: deleteDevice_def deleteRow_def dbInv_deleteDevicesOf split: sum.splits option.splits)

lemma dbInv_createAccount:
  assumes "dbInv db" and "createAccount r db = Inr db'"
  shows "dbInv db'"
proof -
  from assms(2) obtain t where t: "createRow account_clash r (accounts db) = Inr t"
    and db': "db' = db\<lparr>accounts := t\<rparr>" and fk: "ac_userId r \<in> u_id ` set (users db)"
    by (auto simp: createAccount_def split: sum.splits if_splits)
  have "t = accounts db @ [r]" using createRow_Inr [OF t] by simp
  then show ?thesis unfolding db' using fk dbInv_refs(2) [OF assms(1)]
    by (intro dbInv_setAccounts assms(1) account_table.ok_create [OF dbInv_tables(3) t]) auto
qed

lemma dbInv_updateAccount:
  assumes "dbInv db" and "updateAccount k f db = Inr (r, db')"
  shows "dbInv db'"
proof -
  from assms(2) obtain t where t: "updateRow account_clash (\<lambda>a. ac_id a = k) f (accounts db) = Inr (r, t)"
    and db': "db' = db\<lparr>accounts := t\<rparr>" and fk: "ac_userId r \<in> u_id ` set (users db)"
    by (auto simp: updateAccount_def split: sum.splits if_splits)
  obtain x where x: "find (\<lambda>a. ac_id a = k) (accounts db) = Some x" and r: "r = f x"
    and m: "t = map (\<lambda>a. if ac_id a = k then f a else a) (accounts db)"
    using t by (rule updateRow_Inr)
  have same: "f a = r" if a: "a \<in> set (accounts db)" "ac_id a = k" for a
  proof -
    have "x \<in> set (accounts db)" and "ac_id x = k" using find_Some_D [OF x] by simp_all
    then have "a = x"
      using account_table.ok_same_key [OF dbInv_tables(3) [OF assms(1)] a(1)] a(2) by simp
    then show ?thesis by (simp only: r)
  qed
  have "ac_userId (if ac_id a = k then f a else a) \<in> u_id ` set (users db)"
    if "a \<in> set (accounts db)" for a
  proof (cases "ac_id a = k")
    case True
    then show ?thesis using fk same that by simp
  next
    case False
    then show ?thesis using dbInv_refs(2) [OF assms(1)] that by auto
  qed
  then have "ac_userId ` set t \<subseteq> u_id ` set (users db)" by (simp only: m set_map image_image) blast
  then show ?thesis unfolding db'
    by (intro dbInv_setAccounts assms(1) account_table.ok_update [OF dbInv_tables(3) t])
qed

lemma dbInv_deleteAccount: "dbInv db \<Longrightarrow> deleteAccount k db = Inr db' \<Longrightarrow> dbInv db'"
  using dbInv_refs(2) [of db]
  by (auto simp: deleteAccount_def deleteRow_def split: sum.splits option.splits
      intro!: dbInv_setAccounts okTable_filter dbInv_tables)

lemma dbInv_createEmailAccount:
  assumes "dbInv db" and "createEmailAccount r db = Inr db'"
  shows "dbInv db'"
proof -
  from assms(2) obtain t where t: "createRow email_account_clash r (emailAccounts db) = Inr t"
    and db': "db' = db\<lparr>emailAccounts := t\<rparr>" and fk: "em_userId r \<in> u_id ` set (users db)"
    by (auto simp: createEmailAccount_def split: sum.splits if_splits)
  have "t = emailAccounts db @ [r]" using createRow_Inr [OF t] by simp
  then show ?thesis unfolding db' using fk dbInv_refs(3) [OF assms(1)]
    by (intro dbInv_setEmailAccounts assms(1) email_account_table.ok_create [OF dbInv_tables(4) t]) auto
qed

lemma dbInv_updateEmailAccount:
  assumes "dbInv db" and "updateEmailAccount k f db = Inr (r, db')"
    and "\<And>a. em_id (f a) = em_id a" and "\<And>a. em_userId (f a) = em_userId a"
  shows "dbInv db'"
proof -
  from assms(2) obtain t where t: "updateRow email_account_clash (\<lambda>a. em_id a = k) f (emailAccounts db) = Inr (r, t)"
    and db': "db' = db\<lparr>emailAccounts := t\<rparr>"
    by (auto simp: updateEmailAccount_def split: sum.splits)
  have m: "t = map (\<lambda>a. if em_id a = k then f a else a) (emailAccounts db)"
    using t by (auto elim: updateRow_Inr)
  have "em_id ` set t = em_id ` set (emailAccounts db)"
    unfolding m by (rule image_update_key) (rule assms(3))
  moreover have "em_userId ` set t = em_userId ` set (emailAccounts db)"
    unfolding m by (rule image_update_key) (rule assms(4))
  ultimately show ?thesis unfolding db' using dbInv_refs(3) [OF assms(1)]
    by (intro dbInv_setEmailAccounts assms(1) email_account_table.ok_update [OF dbInv_tables(4) t]) auto
qed

lemma dbInv_createRule:
  assumes "dbInv db" and "createRule r db = Inr db'"
  shows "dbInv db'"
proof -
  from assms(2) obtain t where t: "createRow rule_clash r (emailRules db) = Inr t"
    and db': "db' = db\<lparr>emailRules := t\<rparr>" and fk: "ru_emailAccountId r \<in> em_id ` set (emailAccounts db)"
    by (auto simp: createRule_def split: sum.splits if_splits)
  have m: "t = emailRules db @ [r]" "\<forall>x \<in> set (emailRules db). ru_id x \<noteq> ru_id r"
    using createRow_Inr [OF t] by (auto simp: rule_clash_def)
  have "ca_ruleId c \<noteq> ru_id r" if "c \<in> set (emailCandidates db)" for c
  proof
    assume eq: "ca_ruleId c = ru_id r"
    have "ca_ruleId c \<in> ru_id ` set (emailRules db)"
      using dbInv_refs(6) [OF assms(1)] that by (auto simp only: image_subset_iff)
    then obtain x where "x \<in> set (emailRules db)" and "ca_ruleId c = ru_id x" by (rule imageE)
    then show False using m(2) eq by metis
  qed
  then have "ca_emailAccountId c = ru_emailAccountId x"
    if "c \<in> set (emailCandidates db)" "x \<in> set t" "ru_id x = ca_ruleId c" for c x
    using dbInv_denorm [OF assms(1) that(1), of x] that by (cases "x = r") (auto simp: m)
  then have "denormOk (db\<lparr>emailRules := t\<rparr>)" by (simp add: denormOk_def)
  then show ?thesis unfolding db' using fk dbInv_refs(4) [OF assms(1)] m(1)
    by (intro dbInv_setRules assms(1) rule_table.ok_create [OF dbInv_tables(5) t]) auto
qed

lemma dbInv_updateRule:
  assumes "dbInv db" and "updateRule k f db = Inr (r, db')"
    and "\<And>x. ru_id (f x) = ru_id x" and "\<And>x. ru_emailAccountId (f x) = ru_emailAccountId x"
  shows "dbInv db'"
proof -
  from assms(2) obtain t where t: "updateRow rule_clash (\<lambda>x. ru_id x = k) f (emailRules db) = Inr (r, t)"
    and db': "db' = db\<lparr>emailRules := t\<rparr>"
    by (auto simp: updateRule_def split: sum.splits)
  have m: "t = map (\<lambda>x. if ru_id x = k then f x else x) (emailRules db)"
    using t by (auto elim: updateRow_Inr)
  have "ru_id ` set t = ru_id ` set (emailRules db)"
    unfolding m by (rule image_update_key) (rule assms(3))
  moreover have "ru_emailAccountId ` set t = ru_emailAccountId ` set (emailRules db)"
    unfolding m by (rule image_update_key) (rule assms(4))
  moreover have "denormOk db'"
    using dbInv_denorm [OF assms(1)] assms(3,4) by (auto simp: denormOk_def db' m)
  ultimately show ?thesis unfolding db' using dbInv_refs(4) [OF assms(1)]
    by (intro dbInv_setRules assms(1) rule_table.ok_update [OF dbInv_tables(5) t]) auto
qed

lemma dbInv_createCondition:
  assumes "dbInv db" and "createCondition r db = Inr db'"
  shows "dbInv db'"
proof -
  from assms(2) obtain t where t: "createRow condition_clash r (ruleConditions db) = Inr t"
    and db': "db' = db\<lparr>ruleConditions := t\<rparr>" and fk: "co_ruleId r \<in> ru_id ` set (emailRules db)"
    by (auto simp: createCondition_def split: sum.splits if_splits)
  have "t = ruleConditions db @ [r]" using createRow_Inr [OF t] by simp
  then show ?thesis unfolding db' using fk dbInv_refs(5) [OF assms(1)]
    by (intro dbInv_setConditions assms(1) condition_table.ok_create [OF dbInv_tables(6) t]) auto
qed

lemma dbInv_deleteConditionsOf: "dbInv db \<Longrightarrow> dbInv (deleteConditionsOf k db)"
  using dbInv_refs(5) [of db]
  by (auto simp: deleteConditionsOf_def intro!: dbInv_setConditions okTable_filter dbInv_tables)

lemma dbInv_createCandidate:
  assumes "dbInv db" and "createCandidate c db = Inr db'"
    and "\<And>r. r \<in> set (emailRules db) \<Longrightarrow> ru_id r = ca_ruleId c \<Longrightarrow> ca_emailAccountId c = ru_emailAccountId r"
  shows "dbInv db'"
proof -
  from assms(2) obtain t where t: "createRow candidate_clash c (emailCandidates db) = Inr t"
    and db': "db' = db\<lparr>emailCandidates := t\<rparr>"
    and fk: "ca_ruleId c \<in> ru_id ` set (emailRules db)" "ca_emailAccountId c \<in> em_id ` set (emailAccounts db)"
    by (auto simp: createCandidate_def split: sum.splits if_splits)
  have m: "t = emailCandidates db @ [c]" using createRow_Inr [OF t] by simp
  have "denormOk db'"
    using dbInv_denorm [OF assms(1)] assms(3) by (auto simp: denormOk_def db' m)
  then show ?thesis unfolding db' using fk dbInv_refs(6,7) [OF assms(1)] m
    by (intro dbInv_setCandidates assms(1) candidate_table.ok_create [OF dbInv_tables(7) t]) auto
qed

lemma dbInv_updateCandidate:
  assumes "dbInv db" and "updateCandidate k f db = Inr (r, db')"
    and "\<And>x. ca_ruleId (f x) = ca_ruleId x" and "\<And>x. ca_emailAccountId (f x) = ca_emailAccountId x"
  shows "dbInv db'"
proof -
  from assms(2) obtain t where t: "updateRow candidate_clash (\<lambda>x. ca_id x = k) f (emailCandidates db) = Inr (r, t)"
    and db': "db' = db\<lparr>emailCandidates := t\<rparr>"
    by (auto simp: updateCandidate_def split: sum.splits)
  have m: "t = map (\<lambda>x. if ca_id x = k then f x else x) (emailCandidates db)"
    using t by (auto elim: updateRow_Inr)
  have "ca_ruleId ` set t = ca_ruleId ` set (emailCandidates db)"
    unfolding m by (rule image_update_key) (rule assms(3))
  moreover have "ca_emailAccountId ` set t = ca_emailAccountId ` set (emailCandidates db)"
    unfolding m by (rule image_update_key) (rule assms(4))
  moreover have "denormOk db'"
    using dbInv_denorm [OF assms(1)] assms(3,4) by (auto simp: denormOk_def db' m)
  ultimately show ?thesis unfolding db' using dbInv_refs(6,7) [OF assms(1)]
    by (intro dbInv_setCandidates assms(1) candidate_table.ok_update [OF dbInv_tables(7) t]) auto
qed

text \<open>The rows a cascade leaves still refer to rows that are left.\<close>

lemma ref_left:
  assumes "g ` set t \<subseteq> h ` set rs"
  shows "g ` set (filter (\<lambda>c. g c \<notin> h ` set (filter p rs)) t) \<subseteq> h ` set (filter (\<lambda>r. \<not> p r) rs)"
proof
  fix k assume "k \<in> g ` set (filter (\<lambda>c. g c \<notin> h ` set (filter p rs)) t)"
  then obtain c where "c \<in> set t" and "k = g c" and out: "g c \<notin> h ` set (filter p rs)" by auto
  then obtain r where "r \<in> set rs" and "g c = h r" using assms by blast
  with out \<open>k = g c\<close> show "k \<in> h ` set (filter (\<lambda>r. \<not> p r) rs)" by auto
qed

lemma dbInv_cascadeRules:
  assumes "dbInv db"
  shows "dbInv (cascadeRules p db)"
  using assms ref_left [OF dbInv_refs(5) [OF assms], of p] ref_left [OF dbInv_refs(6) [OF assms], of p]
  by (auto simp: cascadeRules_def inv_defs okTable_filter Let_def simp del: set_filter)
     (auto simp: image_subset_iff)

lemma dbInv_deleteRule: "dbInv db \<Longrightarrow> deleteRule k db = Inr db' \<Longrightarrow> dbInv db'"
  by (auto simp: deleteRule_def dbInv_cascadeRules split: option.splits)

lemma dbInv_deleteEmailAccount:
  assumes "dbInv db" and "deleteEmailAccount k db = Inr db'"
  shows "dbInv db'"
proof -
  obtain t where t: "deleteRow (\<lambda>a. em_id a = k) (emailAccounts db) = Inr t"
    using assms(2) by (auto simp: deleteEmailAccount_def split: sum.splits)
  then have t': "t = filter (\<lambda>a. em_id a \<noteq> k) (emailAccounts db)" by (auto elim: deleteRow_Inr)
  let ?c = "cascadeRules (\<lambda>r. ru_emailAccountId r = k) db"
  let ?cs = "filter (\<lambda>c. ca_emailAccountId c \<noteq> k) (emailCandidates ?c)"
  have inv: "dbInv ?c" using assms(1) by (rule dbInv_cascadeRules)
  have db': "db' = ?c\<lparr>emailAccounts := t, emailCandidates := ?cs\<rparr>"
    using assms(2) t by (simp add: deleteEmailAccount_def Let_def)
  have e: "emailAccounts ?c = emailAccounts db" by (simp add: cascadeRules_def Let_def)
  have left: "g ` set xs \<subseteq> em_id ` set t"
    if "g ` set xs \<subseteq> em_id ` set (emailAccounts ?c)" "\<forall>x \<in> set xs. g x \<noteq> k" for g and xs :: "'z list"
  proof (rule image_subsetI)
    fix x assume x: "x \<in> set xs"
    then have "g x \<in> em_id ` set (emailAccounts db)" using that(1) unfolding e by (rule_tac subsetD) auto
    then obtain a where "a \<in> set (emailAccounts db)" and "g x = em_id a" by (rule imageE)
    then show "g x \<in> em_id ` set t" using that(2) x by (auto simp: t')
  qed
  have "ru_emailAccountId ` set (emailRules ?c) \<subseteq> em_id ` set t"
    by (rule left [OF dbInv_refs(4) [OF inv]]) (simp add: cascadeRules_def Let_def)
  moreover have "ca_emailAccountId ` set ?cs \<subseteq> em_id ` set t"
    using dbInv_refs(7) [OF inv] by (intro left) auto
  moreover have "ca_ruleId ` set ?cs \<subseteq> ru_id ` set (emailRules ?c)"
    using dbInv_refs(6) [OF inv] by auto
  moreover have "em_userId ` set t \<subseteq> u_id ` set (users ?c)"
    using dbInv_refs(3) [OF inv] by (auto simp: t' e)
  ultimately show ?thesis
    using inv by (simp add: db' inv_defs okTable_filter t' e)
qed

section \<open>Writes that go through\<close>

text \<open>
  The outcome of an update that keeps the unique columns of a row that exists, and of the removal
  of a row that exists.
\<close>

lemma updateUser_ok:
  assumes "dbInv d" and "find (\<lambda>u. u_id u = k) (users d) = Some r"
    and "\<And>x. u_id (f x) = u_id x" and "\<And>x. u_googleSubId (f x) = u_googleSubId x"
  shows "updateUser k f d = Inr (f r, d\<lparr>users := map (\<lambda>x. if u_id x = k then f x else x) (users d)\<rparr>)"
  using user_table.update_keeping [OF dbInv_tables(1) [OF assms(1)] assms(2), of f] assms(3,4)
  by (simp add: updateUser_def user_clash_def)

lemma updateDevice_ok:
  assumes "dbInv d" and "find (\<lambda>x. td_id x = k) (trustedDevices d) = Some r"
    and "\<And>x. td_id (f x) = td_id x" and "\<And>x. td_webauthnCredentialId (f x) = td_webauthnCredentialId x"
  shows "updateDevice k f d =
    Inr (f r, d\<lparr>trustedDevices := map (\<lambda>x. if td_id x = k then f x else x) (trustedDevices d)\<rparr>)"
  using device_table.update_keeping [OF dbInv_tables(2) [OF assms(1)] assms(2), of f] assms(3,4)
  by (simp add: updateDevice_def device_clash_def)

lemma updateAccount_ok:
  assumes "okTable account_clash (accounts d)" and "ac_userId ` set (accounts d) \<subseteq> u_id ` set (users d)"
    and "find (\<lambda>a. ac_id a = k) (accounts d) = Some r"
    and "\<And>x. ac_id (f x) = ac_id x" and "\<And>x. ac_userId (f x) = ac_userId x"
    and "\<And>x. ac_urlOrAppName (f x) = ac_urlOrAppName x" and "\<And>x. ac_loginId (f x) = ac_loginId x"
  shows "updateAccount k f d =
    Inr (f r, d\<lparr>accounts := map (\<lambda>x. if ac_id x = k then f x else x) (accounts d)\<rparr>)"
proof -
  have "ac_userId r \<in> u_id ` set (users d)"
    using assms(2) find_Some_D [OF assms(3)] by auto
  then show ?thesis
    using account_table.update_keeping [OF assms(1,3), of f] assms(4-7)
    by (simp add: updateAccount_def account_clash_def)
qed

lemma updateEmailAccount_ok:
  assumes "dbInv d" and "find (\<lambda>x. em_id x = k) (emailAccounts d) = Some r" and "\<And>x. em_id (f x) = em_id x"
  shows "updateEmailAccount k f d =
    Inr (f r, d\<lparr>emailAccounts := map (\<lambda>x. if em_id x = k then f x else x) (emailAccounts d)\<rparr>)"
  using email_account_table.update_keeping [OF dbInv_tables(4) [OF assms(1)] assms(2), of f] assms(3)
  by (simp add: updateEmailAccount_def email_account_clash_def)

lemma updateCandidate_ok:
  assumes "dbInv d" and "find (\<lambda>x. ca_id x = k) (emailCandidates d) = Some r"
    and "\<And>x. ca_id (f x) = ca_id x" and "\<And>x. ca_ruleId (f x) = ca_ruleId x"
    and "\<And>x. ca_externalMessageId (f x) = ca_externalMessageId x"
  shows "updateCandidate k f d =
    Inr (f r, d\<lparr>emailCandidates := map (\<lambda>x. if ca_id x = k then f x else x) (emailCandidates d)\<rparr>)"
  using candidate_table.update_keeping [OF dbInv_tables(7) [OF assms(1)] assms(2), of f] assms(3-5)
  by (simp add: updateCandidate_def candidate_clash_def)

end
