(* ===== verification/Encoding.thy ===== *)
theory Encoding
  imports Effects
begin

text \<open>
  The encodings of \<open>Buffer\<close> that the server relies on: UTF-8 with replacement of ill-formed
  input, base64 with the lenient decoder, and hexadecimal. They are part of the language's
  standard library, so they are defined here and not assumed; the results the components use are
  the round trips \<open>utf8Decode_utf8Encode\<close> and \<open>base64Decode_base64Encode\<close>.
\<close>

section \<open>Bytes and code units\<close>

definition byteOf :: "nat \<Rightarrow> byte" where
  "byteOf n = of_nat n"

definition codeUnit :: "nat \<Rightarrow> 16 word" where
  "codeUnit n = of_nat n"

lemma unat_byteOf [simp]: "n < 256 \<Longrightarrow> unat (byteOf n) = n"
  by (simp add: byteOf_def unat_of_nat)

lemma byteOf_unat [simp]: "byteOf (unat b) = b"
  by (simp add: byteOf_def)

lemma unat8_less: "unat (b :: byte) < 256"
  using unsigned_less [of b] by simp

lemma unat_codeUnit [simp]: "n < 65536 \<Longrightarrow> unat (codeUnit n) = n"
  by (simp add: codeUnit_def unat_of_nat)

lemma codeUnit_unat [simp]: "codeUnit (unat u) = u"
  by (simp add: codeUnit_def)

lemma unat16_less: "unat (u :: 16 word) < 65536"
  using unsigned_less [of u] by simp

section \<open>UTF-16 and code points\<close>

definition highSurrogate :: "nat \<Rightarrow> bool" where
  "highSurrogate n \<longleftrightarrow> 0xD800 \<le> n \<and> n \<le> 0xDBFF"

definition lowSurrogate :: "nat \<Rightarrow> bool" where
  "lowSurrogate n \<longleftrightarrow> 0xDC00 \<le> n \<and> n \<le> 0xDFFF"

definition isSurrogate :: "nat \<Rightarrow> bool" where
  "isSurrogate n \<longleftrightarrow> highSurrogate n \<or> lowSurrogate n"

text \<open>Iteration by code point, as the \<open>u\<close> flag of a regular expression does; a lone surrogate is itself.\<close>

fun codePoints :: "jsstring \<Rightarrow> nat list" where
  "codePoints [] = []"
| "codePoints [u] = [unat u]"
| "codePoints (u # v # us) =
     (if highSurrogate (unat u) \<and> lowSurrogate (unat v)
      then (0x10000 + (unat u - 0xD800) * 0x400 + (unat v - 0xDC00)) # codePoints us
      else unat u # codePoints (v # us))"

definition utf16_of :: "nat \<Rightarrow> jsstring" where
  "utf16_of c =
     (if c < 0x10000 then [codeUnit c]
      else [codeUnit (0xD800 + (c - 0x10000) div 0x400), codeUnit (0xDC00 + (c - 0x10000) mod 0x400)])"

text \<open>No lone surrogate: the strings that UTF-8 can carry without loss.\<close>

definition wellFormed :: "jsstring \<Rightarrow> bool" where
  "wellFormed s \<longleftrightarrow> (\<forall>c \<in> set (codePoints s). \<not> isSurrogate c)"

lemma codePoints_bound: "c \<in> set (codePoints s) \<Longrightarrow> c < 0x110000"
proof (induction s rule: codePoints.induct)
  case (2 u)
  then show ?case using unat16_less [of u] by simp
next
  case (3 u v us)
  then show ?case using unat16_less [of u]
    by (auto simp: highSurrogate_def lowSurrogate_def split: if_splits)
qed simp

lemma utf16_of_pair:
  assumes "highSurrogate (unat u)" and "lowSurrogate (unat v)"
  shows "utf16_of (0x10000 + (unat u - 0xD800) * 0x400 + (unat v - 0xDC00)) = [u, v]"
proof -
  define a b where "a = unat u - 0xD800" and "b = unat v - 0xDC00"
  have "b < 0x400" and u: "0xD800 + a = unat u" and v: "0xDC00 + b = unat v"
    using assms by (auto simp: a_def b_def highSurrogate_def lowSurrogate_def)
  then have "(a * 0x400 + b) div 0x400 = a" and "(a * 0x400 + b) mod 0x400 = b"
    by simp_all
  then have "utf16_of (0x10000 + a * 0x400 + b) = [codeUnit (0xD800 + a), codeUnit (0xDC00 + b)]"
    by (simp only: utf16_of_def) simp
  then show ?thesis by (simp only: u v codeUnit_unat flip: a_def b_def)
qed

lemma codePoints_inverse: "concat (map utf16_of (codePoints s)) = s"
proof (induction s rule: codePoints.induct)
  case (2 u)
  then show ?case using unat16_less [of u] by (simp add: utf16_of_def)
next
  case (3 u v us)
  then show ?case using unat16_less [of u] utf16_of_pair [of u v]
    by (auto simp add: utf16_of_def split: if_splits)
qed simp

lemma js_code_less: "u \<in> set (js s) \<Longrightarrow> unat u < 256"
  using nat_of_char_less_256 by (auto simp: js_def)

lemma codePoints_plain: "\<forall>u \<in> set s. unat u < 0xD800 \<Longrightarrow> codePoints s = map unat s"
  by (induction s rule: codePoints.induct) (auto simp: highSurrogate_def)

lemma wellFormed_plain: "\<forall>u \<in> set s. unat u < 0xD800 \<Longrightarrow> wellFormed s"
  by (auto simp: wellFormed_def codePoints_plain isSurrogate_def highSurrogate_def lowSurrogate_def)

lemma wellFormed_js [simp]: "wellFormed (js s)"
  by (rule wellFormed_plain) (auto dest: js_code_less)

section \<open>UTF-8\<close>

definition utf8_of :: "nat \<Rightarrow> byte list" where
  "utf8_of c =
     (if c < 0x80 then [byteOf c]
      else if c < 0x800 then [byteOf (0xC0 + c div 64), byteOf (0x80 + c mod 64)]
      else if isSurrogate c then [0xEF, 0xBF, 0xBD]
      else if c < 0x10000 then
        [byteOf (0xE0 + c div 4096), byteOf (0x80 + c div 64 mod 64), byteOf (0x80 + c mod 64)]
      else
        [byteOf (0xF0 + c div 262144), byteOf (0x80 + c div 4096 mod 64),
         byteOf (0x80 + c div 64 mod 64), byteOf (0x80 + c mod 64)])"

text \<open>\<open>Buffer.from(s, 'utf8')\<close>.\<close>

definition utf8Encode :: "jsstring \<Rightarrow> byte list" where
  "utf8Encode s = concat (map utf8_of (codePoints s))"

text \<open>
  The decoder: a lead byte fixes how many continuation bytes follow, the range of the first of
  them and the bits it contributes. Where a continuation byte is missing or out of range, one
  U+FFFD is emitted and decoding resumes at the offending byte.
\<close>

definition utf8Lead :: "nat \<Rightarrow> (nat \<times> nat \<times> nat \<times> nat) option" where
  "utf8Lead n =
     (if 0xC2 \<le> n \<and> n \<le> 0xDF then Some (1, 0x80, 0xBF, n - 0xC0)
      else if n = 0xE0 then Some (2, 0xA0, 0xBF, 0)
      else if n = 0xED then Some (2, 0x80, 0x9F, 0xD)
      else if 0xE1 \<le> n \<and> n \<le> 0xEF then Some (2, 0x80, 0xBF, n - 0xE0)
      else if n = 0xF0 then Some (3, 0x90, 0xBF, 0)
      else if n = 0xF4 then Some (3, 0x80, 0x8F, 4)
      else if 0xF1 \<le> n \<and> n \<le> 0xF3 then Some (3, 0x80, 0xBF, n - 0xF0)
      else None)"

fun utf8Cont :: "nat \<Rightarrow> nat \<Rightarrow> nat \<Rightarrow> nat \<Rightarrow> byte list \<Rightarrow> nat option \<times> byte list" where
  "utf8Cont 0 lo hi acc bs = (Some acc, bs)"
| "utf8Cont (Suc k) lo hi acc [] = (None, [])"
| "utf8Cont (Suc k) lo hi acc (b # bs) =
     (if lo \<le> unat b \<and> unat b \<le> hi then utf8Cont k 0x80 0xBF (acc * 64 + (unat b - 0x80)) bs
      else (None, b # bs))"

lemma utf8Cont_length: "utf8Cont k lo hi acc bs = (r, bs') \<Longrightarrow> length bs' \<le> length bs"
proof (induction k lo hi acc bs rule: utf8Cont.induct)
  case (3 k lo hi acc b bs)
  show ?case
  proof (cases "lo \<le> unat b \<and> unat b \<le> hi")
    case True
    then show ?thesis using 3 by (simp add: le_SucI)
  next
    case False
    then have "bs' = b # bs" using 3(2) by auto
    then show ?thesis by simp
  qed
qed simp_all

function utf8CodePoints :: "byte list \<Rightarrow> nat list" where
  "utf8CodePoints [] = []"
| "utf8CodePoints (b # bs) =
     (if unat b < 0x80 then unat b # utf8CodePoints bs
      else case utf8Lead (unat b) of
          None \<Rightarrow> 0xFFFD # utf8CodePoints bs
        | Some (k, lo, hi, acc) \<Rightarrow>
            (case utf8Cont k lo hi acc bs of
               (None, rest) \<Rightarrow> 0xFFFD # utf8CodePoints rest
             | (Some c, rest) \<Rightarrow> c # utf8CodePoints rest))"
  by pat_completeness auto
termination
  by (relation "measure length") (auto simp: less_Suc_eq_le, (metis utf8Cont_length)+)

text \<open>\<open>buffer.toString('utf8')\<close>.\<close>

definition utf8Decode :: "byte list \<Rightarrow> jsstring" where
  "utf8Decode bs = concat (map utf16_of (utf8CodePoints bs))"

text \<open>A continuation byte in range is consumed.\<close>

lemma utf8Cont_step:
  "t < 64 \<Longrightarrow> lo \<le> 0x80 + t \<Longrightarrow> 0x80 + t \<le> hi \<Longrightarrow>
   utf8Cont (Suc k) lo hi acc (byteOf (0x80 + t) # bs) = utf8Cont k 0x80 0xBF (acc * 64 + t) bs"
  by simp

text \<open>A lead byte whose continuation bytes decode to \<open>c\<close>.\<close>

lemma utf8_lead:
  assumes "0x80 \<le> n" and "n < 256" and "utf8Lead n = Some (k, lo, hi, acc)"
    and "utf8Cont k lo hi acc ts = (Some c, rest)"
  shows "utf8CodePoints (byteOf n # ts) = c # utf8CodePoints rest"
  using assms by simp

lemma utf8_two:
  assumes "2 \<le> x" and "x < 32" and "z < 64"
  shows "utf8CodePoints (byteOf (0xC0 + x) # byteOf (0x80 + z) # bs) = (x * 64 + z) # utf8CodePoints bs"
proof (rule utf8_lead)
  show "utf8Lead (0xC0 + x) = Some (Suc 0, 0x80, 0xBF, x)"
    using assms by (simp add: utf8Lead_def)
  show "utf8Cont (Suc 0) 0x80 0xBF x (byteOf (0x80 + z) # bs) = (Some (x * 64 + z), bs)"
    using assms by (subst utf8Cont_step) auto
qed (use assms in auto)

lemma utf8_three:
  assumes "x < 16" and "y < 64" and "z < 64" and "x = 0 \<Longrightarrow> 32 \<le> y" and "x = 13 \<Longrightarrow> y < 32"
  shows "utf8CodePoints (byteOf (0xE0 + x) # byteOf (0x80 + y) # byteOf (0x80 + z) # bs) =
    ((x * 64 + y) * 64 + z) # utf8CodePoints bs"
proof (rule utf8_lead)
  let ?lo = "if x = 0 then 0xA0 else 0x80" and ?hi = "if x = 13 then 0x9F else 0xBF"
  show "utf8Lead (0xE0 + x) = Some (Suc (Suc 0), ?lo, ?hi, x)"
    using assms(1) by (simp add: utf8Lead_def)
  show "utf8Cont (Suc (Suc 0)) ?lo ?hi x (byteOf (0x80 + y) # byteOf (0x80 + z) # bs) =
      (Some ((x * 64 + y) * 64 + z), bs)"
    using assms by (subst utf8Cont_step; (subst utf8Cont_step)?) auto
qed (use assms in auto)

lemma utf8_four:
  assumes "w < 5" and "x < 64" and "y < 64" and "z < 64" and "w = 0 \<Longrightarrow> 16 \<le> x" and "w = 4 \<Longrightarrow> x < 16"
  shows "utf8CodePoints (byteOf (0xF0 + w) # byteOf (0x80 + x) # byteOf (0x80 + y) # byteOf (0x80 + z) # bs) =
    (((w * 64 + x) * 64 + y) * 64 + z) # utf8CodePoints bs"
proof (rule utf8_lead)
  let ?lo = "if w = 0 then 0x90 else 0x80" and ?hi = "if w = 4 then 0x8F else 0xBF"
  show "utf8Lead (0xF0 + w) = Some (Suc (Suc (Suc 0)), ?lo, ?hi, w)"
    using assms(1) by (simp add: utf8Lead_def)
  show "utf8Cont (Suc (Suc (Suc 0))) ?lo ?hi w
      (byteOf (0x80 + x) # byteOf (0x80 + y) # byteOf (0x80 + z) # bs) =
      (Some (((w * 64 + x) * 64 + y) * 64 + z), bs)"
    using assms by (subst utf8Cont_step; (subst utf8Cont_step; (subst utf8Cont_step)?)?) auto
qed (use assms in auto)

text \<open>The digits of a scalar value in base 64.\<close>

lemma base64_digits:
  fixes c :: nat
  shows "c div 64 * 64 + c mod 64 = c"
    and "(c div 4096 * 64 + c div 64 mod 64) * 64 + c mod 64 = c"
    and "((c div 262144 * 64 + c div 4096 mod 64) * 64 + c div 64 mod 64) * 64 + c mod 64 = c"
proof -
  have "c div 4096 = c div 64 div 64" and "c div 262144 = c div 64 div 64 div 64"
    by (simp_all add: div_mult2_eq [symmetric])
  then show "c div 64 * 64 + c mod 64 = c"
    and "(c div 4096 * 64 + c div 64 mod 64) * 64 + c mod 64 = c"
    and "((c div 262144 * 64 + c div 4096 mod 64) * 64 + c div 64 mod 64) * 64 + c mod 64 = c"
    by (simp_all only: div_mult_mod_eq)
qed

lemma utf8_scalar:
  assumes "c < 0x110000" and "\<not> isSurrogate c"
  shows "utf8CodePoints (utf8_of c @ bs) = c # utf8CodePoints bs"
proof -
  consider "c < 0x80" | "0x80 \<le> c" "c < 0x800" | "0x800 \<le> c" "c < 0x10000" | "0x10000 \<le> c"
    by linarith
  then show ?thesis
  proof cases
    case 1
    then show ?thesis by (simp add: utf8_of_def)
  next
    case 2
    have "2 \<le> c div 64" "c div 64 < 32" using 2 by arith+
    then show ?thesis using 2 utf8_two [of "c div 64" "c mod 64" bs, unfolded base64_digits]
      by (simp add: utf8_of_def del: utf8CodePoints.simps)
  next
    case 3
    have "c div 4096 < 16" using 3 by (simp add: less_mult_imp_div_less)
    moreover have "c div 4096 = 0 \<Longrightarrow> 32 \<le> c div 64 mod 64"
      using 3 by (simp add: div_eq_0_iff less_mult_imp_div_less less_eq_div_iff_mult_less_eq)
    moreover have "c div 4096 = 13 \<Longrightarrow> c div 64 mod 64 < 32"
    proof -
      assume *: "c div 4096 = 13"
      then have "c < 0xE000" using div_mult_mod_eq [of c 4096] mod_less_divisor [of 4096 c] by linarith
      then have "c < 864 * 64"
        using assms(2) by (simp add: isSurrogate_def highSurrogate_def lowSurrogate_def) linarith
      then have "c div 64 < 864" by (rule less_mult_imp_div_less)
      moreover have "c div 64 div 64 = 13" using * by (simp add: div_mult2_eq [symmetric])
      ultimately show "c div 64 mod 64 < 32"
        using div_mult_mod_eq [of "c div 64" 64] by linarith
    qed
    ultimately show ?thesis
      using 3 assms(2) utf8_three [of "c div 4096" "c div 64 mod 64" "c mod 64" bs, unfolded base64_digits]
      by (simp add: utf8_of_def del: utf8CodePoints.simps)
  next
    case 4
    have "c div 262144 < 5" using assms(1) by (simp add: less_mult_imp_div_less)
    moreover have "c div 262144 = 0 \<Longrightarrow> 16 \<le> c div 4096 mod 64"
      using 4 by (simp add: div_eq_0_iff less_mult_imp_div_less less_eq_div_iff_mult_less_eq)
    moreover have "c div 262144 = 4 \<Longrightarrow> c div 4096 mod 64 < 16"
    proof -
      assume "c div 262144 = 4"
      then have "c div 4096 div 64 = 4" by (simp add: div_mult2_eq [symmetric])
      moreover have "c div 4096 < 272" using assms(1) by (simp add: less_mult_imp_div_less)
      ultimately show "c div 4096 mod 64 < 16"
        using div_mult_mod_eq [of "c div 4096" 64] by linarith
    qed
    ultimately show ?thesis
      using 4 assms(2)
        utf8_four [of "c div 262144" "c div 4096 mod 64" "c div 64 mod 64" "c mod 64" bs, unfolded base64_digits]
      by (simp add: utf8_of_def del: utf8CodePoints.simps)
  qed
qed

lemma utf8CodePoints_utf8Encode:
  assumes "\<forall>c \<in> set cs. c < 0x110000 \<and> \<not> isSurrogate c"
  shows "utf8CodePoints (concat (map utf8_of cs)) = cs"
  using assms by (induction cs) (simp_all add: utf8_scalar)

lemma utf8Decode_utf8Encode [simp]: "wellFormed s \<Longrightarrow> utf8Decode (utf8Encode s) = s"
  by (simp add: utf8Decode_def utf8Encode_def utf8CodePoints_utf8Encode wellFormed_def
      codePoints_bound codePoints_inverse)

section \<open>Base64\<close>

text \<open>The alphabet: letters of both cases, digits, plus and slash.\<close>

definition base64Char :: "nat \<Rightarrow> 16 word" where
  "base64Char n =
     codeUnit (if n < 26 then n + 65 else if n < 52 then n + 71 else if n < 62 then n - 4
               else if n = 62 then 43 else 47)"

definition base64Pad :: "16 word" where
  "base64Pad = 61"

text \<open>The decoder reads both the standard and the URL-safe alphabet.\<close>

definition base64Value :: "16 word \<Rightarrow> nat option" where
  "base64Value u =
     (let n = unat u in
      if 65 \<le> n \<and> n \<le> 90 then Some (n - 65)
      else if 97 \<le> n \<and> n \<le> 122 then Some (n - 71)
      else if 48 \<le> n \<and> n \<le> 57 then Some (n + 4)
      else if n = 43 \<or> n = 45 then Some 62
      else if n = 47 \<or> n = 95 then Some 63
      else None)"

text \<open>\<open>buffer.toString('base64')\<close>.\<close>

fun base64Encode :: "byte list \<Rightarrow> jsstring" where
  "base64Encode [] = []"
| "base64Encode [a] =
     [base64Char (unat a div 4), base64Char (unat a mod 4 * 16), base64Pad, base64Pad]"
| "base64Encode [a, b] =
     [base64Char (unat a div 4), base64Char (unat a mod 4 * 16 + unat b div 16),
      base64Char (unat b mod 16 * 4), base64Pad]"
| "base64Encode (a # b # c # bs) =
     [base64Char (unat a div 4), base64Char (unat a mod 4 * 16 + unat b div 16),
      base64Char (unat b mod 16 * 4 + unat c div 64), base64Char (unat c mod 64)] @ base64Encode bs"

fun base64Groups :: "nat list \<Rightarrow> byte list" where
  "base64Groups (p # q # r # t # vs) =
     [byteOf (p * 4 + q div 16), byteOf (q mod 16 * 16 + r div 4), byteOf (r mod 4 * 64 + t)] @
     base64Groups vs"
| "base64Groups [p, q, r] = [byteOf (p * 4 + q div 16), byteOf (q mod 16 * 16 + r div 4)]"
| "base64Groups [p, q] = [byteOf (p * 4 + q div 16)]"
| "base64Groups _ = []"

text \<open>\<open>Buffer.from(s, 'base64')\<close>: characters outside the alphabets, the padding included, are skipped.\<close>

definition base64Decode :: "jsstring \<Rightarrow> byte list" where
  "base64Decode s = base64Groups (List.map_filter base64Value s)"

lemma unat_base64Char:
  "n < 64 \<Longrightarrow> unat (base64Char n) =
     (if n < 26 then n + 65 else if n < 52 then n + 71 else if n < 62 then n - 4
      else if n = 62 then 43 else 47)"
  by (simp add: base64Char_def)

lemma base64_char_value:
  assumes "n < 64"
  shows "base64Value (base64Char n) = Some n" and "unat (base64Char n) < 256"
  using assms by (auto simp add: base64Value_def unat_base64Char Let_def)

lemma base64Value_pad: "base64Value base64Pad = None"
  by (simp add: base64Value_def base64Pad_def)

lemma byte_div:
  fixes b :: byte
  shows "unat b div 4 < 64" and "unat b div 16 < 16" and "unat b div 64 < 4"
  using unat8_less [of b] by (simp_all add: less_mult_imp_div_less)

lemma sextet_join: "x < m \<Longrightarrow> y < k \<Longrightarrow> x * k + y < m * (k :: nat)"
  using mult_le_mono1 [of "Suc x" m k] by simp

lemma base64_sextets:
  fixes a b c :: byte
  shows "unat a div 4 < 64" and "unat a mod 4 * 16 + unat b div 16 < 64"
    and "unat b mod 16 * 4 + unat c div 64 < 64"
    and "unat a mod 4 * 16 < 64" and "unat b mod 16 * 4 < 64" and "unat c mod 64 < 64"
  using byte_div(1) [of a] sextet_join [of "unat a mod 4" 4 "unat b div 16" 16]
    sextet_join [of "unat b mod 16" 16 "unat c div 64" 4] sextet_join [of "unat a mod 4" 4 0 16]
    sextet_join [of "unat b mod 16" 16 0 4] byte_div(2) [of b] byte_div(3) [of c]
  by simp_all

lemmas base64_simps = base64Decode_def List.map_filter_def base64_char_value base64Value_pad
  base64_sextets byte_div

lemma base64Decode_base64Encode [simp]: "base64Decode (base64Encode bs) = bs"
proof (induction bs rule: base64Encode.induct)
  case 1
  then show ?case by (simp add: base64Decode_def)
next
  case (2 a)
  then show ?case by (simp add: base64_simps)
next
  case (3 a b)
  then show ?case by (simp add: base64_simps)
next
  case (4 a b c bs)
  then show ?case by (simp add: base64_simps)
qed

text \<open>Base64 text is plain ASCII.\<close>

lemma base64Encode_plain: "u \<in> set (base64Encode bs) \<Longrightarrow> unat u < 256"
proof (induction bs rule: base64Encode.induct)
  case (2 a)
  then show ?case by (auto simp: base64_char_value base64_sextets base64Pad_def)
next
  case (3 a b)
  then show ?case by (auto simp: base64_char_value base64_sextets base64Pad_def)
next
  case (4 a b c bs)
  then show ?case by (auto simp: base64_char_value base64_sextets base64Pad_def)
qed simp

lemma wellFormed_base64Encode [simp]: "wellFormed (base64Encode bs)"
  by (rule wellFormed_plain) (auto dest: base64Encode_plain)

section \<open>Hexadecimal\<close>

definition hexDigit :: "nat \<Rightarrow> 16 word" where
  "hexDigit n = js ''0123456789abcdef'' ! n"

text \<open>\<open>buffer.toString('hex')\<close>.\<close>

definition toHex :: "byte list \<Rightarrow> jsstring" where
  "toHex bs = concat (map (\<lambda>b. [hexDigit (unat b div 16), hexDigit (unat b mod 16)]) bs)"

lemma length_toHex: "length (toHex bs) = 2 * length bs"
  by (induction bs) (simp_all add: toHex_def)

end
