(* ===== verification/Platform.thy ===== *)
theory Platform
  imports Encoding "HOL-Library.Countable"
begin

text \<open>
  What the server runs on and cannot be read in this repository, as one record of parameters:
  the ciphers and key derivation of \<open>node:crypto\<close> and \<open>argon2\<close>, the sources of randomness, the
  Unicode tables behind \<open>toLowerCase\<close> and the emoji class, \<open>Date.parse\<close>, the text form of JSON,
  the Google and WebAuthn libraries and the Gmail service. A model that uses one of them takes the
  record \<open>env\<close> as its first argument. What the code relies on is stated by the predicates
  \<open>gcmLaw\<close>, \<open>randomLaw\<close>, \<open>argon2Law\<close> and \<open>jsonLaw\<close>, which appear as hypotheses of the theorems
  that need them; \<open>demoEnv\<close> is a concrete instance that satisfies all of them, on which the
  witnesses run.

  Randomness is a stream: \<open>randomBytes E n k\<close> are the \<open>k\<close> bytes of draw number \<open>n\<close>; the state of
  the server counts the draws.
\<close>

section \<open>Values exchanged with the libraries\<close>

record argon2_options =
  ao_type :: jsstring
  ao_memoryCost :: nat
  ao_timeCost :: nat
  ao_parallelism :: nat

record auth_params =
  ap_accessType :: jsstring
  ap_prompt :: "jsstring option"
  ap_scope :: "jsstring list"
  ap_state :: jsstring

record google_tokens =
  gt_idToken :: "jsstring option"
  gt_accessToken :: "jsstring option"
  gt_refreshToken :: "jsstring option"
  gt_expiryDate :: "int option"

record id_payload =
  ip_sub :: "jsstring option"
  ip_email :: "jsstring option"

record credentials =
  cr_accessToken :: "jsstring option"
  cr_refreshToken :: "jsstring option"
  cr_expiryDate :: "int option"

record gmail_message =
  gm_id :: jsstring
  gm_headers :: "(jsstring option \<times> jsstring option) list option"
  gm_parts :: "jsstring option list option" \<comment> \<open>the file name of each part\<close>
  gm_snippet :: "jsstring option"
  gm_internalDate :: "jsstring option"

text \<open>The calls the server makes to Gmail, in the order it makes them.\<close>

datatype gmail_call =
    GetProfile credentials
  | ListMessages credentials jsstring nat
  | GetMessage credentials jsstring jsstring "jsstring list"
  | TrashMessage credentials jsstring
  | ModifyMessage credentials jsstring "jsstring list"

record registration_params =
  rp_rpName :: jsstring
  rp_rpID :: jsstring
  rp_userName :: jsstring
  rp_userID :: "byte list"
  rp_attestationType :: jsstring
  rp_excludeCredentials :: "jsstring list"
  rp_authenticatorAttachment :: jsstring
  rp_residentKey :: jsstring
  rp_userVerification :: jsstring
  rp_extensions :: "jsstring list"

record authentication_params =
  au_rpID :: jsstring
  au_userVerification :: jsstring

record webauthn_options =
  wo_challenge :: jsstring
  wo_body :: json

record webauthn_credential =
  wc_id :: jsstring
  wc_publicKey :: "byte list"
  wc_counter :: int

record auth_response =
  ar_id :: jsstring
  ar_body :: json

section \<open>The parameters\<close>

record env =
  envVar :: "jsstring \<Rightarrow> jsstring option"
  randomBytes :: "nat \<Rightarrow> nat \<Rightarrow> byte list"
  randomInt :: "nat \<Rightarrow> nat \<Rightarrow> nat"
  uuid :: "nat \<Rightarrow> jsstring"
  gcmSeal :: "byte list \<Rightarrow> byte list \<Rightarrow> byte list \<Rightarrow> (byte list \<times> byte list) option"
  gcmOpen :: "byte list \<Rightarrow> byte list \<Rightarrow> byte list \<Rightarrow> byte list \<Rightarrow> byte list option"
  argon2Hash :: "argon2_options \<Rightarrow> nat \<Rightarrow> jsstring \<Rightarrow> jsstring"
  argon2Verify :: "jsstring \<Rightarrow> jsstring \<Rightarrow> bool"
  argon2Raw :: "argon2_options \<Rightarrow> byte list \<Rightarrow> nat \<Rightarrow> jsstring \<Rightarrow> exn + byte list"
  toLowerCase :: "jsstring \<Rightarrow> jsstring"
  extendedPictographic :: "nat \<Rightarrow> bool"
  containsInsensitive :: "jsstring \<Rightarrow> jsstring \<Rightarrow> bool"
  dateParse :: "jsstring \<Rightarrow> int option"
  isoDate :: "jsstring \<Rightarrow> int option"
  toNumber :: "jsstring \<Rightarrow> jsnum"
  toISOString :: "int \<Rightarrow> jsstring"
  jsonStringify :: "json \<Rightarrow> jsstring"
  jsonParse :: "jsstring \<Rightarrow> json option"
  acceptsJsonNull :: bool
  generateAuthUrl :: "jsstring option \<Rightarrow> auth_params \<Rightarrow> jsstring"
  getToken :: "jsstring option \<Rightarrow> jsstring option \<Rightarrow> exn + google_tokens"
  verifyIdToken :: "jsstring \<Rightarrow> jsstring option \<Rightarrow> exn + id_payload option"
  getAccessToken :: "int \<Rightarrow> credentials \<Rightarrow> exn + credentials"
  generateRegistrationOptions :: "nat \<Rightarrow> registration_params \<Rightarrow> webauthn_options"
  generateAuthenticationOptions :: "nat \<Rightarrow> authentication_params \<Rightarrow> webauthn_options"
  verifyRegistrationResponse ::
    "json \<Rightarrow> jsstring \<Rightarrow> jsstring \<Rightarrow> jsstring \<Rightarrow> exn + webauthn_credential option"
  verifyAuthenticationResponse ::
    "auth_response \<Rightarrow> jsstring \<Rightarrow> jsstring \<Rightarrow> jsstring \<Rightarrow> webauthn_credential \<Rightarrow> exn + (bool \<times> int)"
  gmailProfile :: "gmail_call list \<Rightarrow> credentials \<Rightarrow> exn + jsstring option"
  gmailList :: "gmail_call list \<Rightarrow> credentials \<Rightarrow> jsstring \<Rightarrow> nat \<Rightarrow> exn + jsstring list option"
  gmailGet :: "gmail_call list \<Rightarrow> credentials \<Rightarrow> jsstring \<Rightarrow> jsstring \<Rightarrow> jsstring list \<Rightarrow> exn + gmail_message"
  gmailTrash :: "gmail_call list \<Rightarrow> credentials \<Rightarrow> jsstring \<Rightarrow> exn + unit"
  gmailModify :: "gmail_call list \<Rightarrow> credentials \<Rightarrow> jsstring \<Rightarrow> jsstring list \<Rightarrow> exn + unit"

section \<open>What the code relies on\<close>

text \<open>AES-256-GCM: with a key of 32 and an initialisation vector of 12 bytes, sealing succeeds,
  yields a tag of 16 bytes, and opening with the same key gives the plaintext back.\<close>

definition gcmLaw :: "env \<Rightarrow> bool" where
  "gcmLaw E \<longleftrightarrow>
     (\<forall>key iv m. length key = 32 \<longrightarrow> length iv = 12 \<longrightarrow>
        (\<exists>ct tag. gcmSeal E key iv m = Some (ct, tag) \<and> length tag = 16 \<and>
           gcmOpen E key iv tag ct = Some m))"

definition randomLaw :: "env \<Rightarrow> bool" where
  "randomLaw E \<longleftrightarrow>
     (\<forall>n k. length (randomBytes E n k) = k) \<and> (\<forall>n b. 0 < b \<longrightarrow> randomInt E n b < b)"

text \<open>Argon2: a password verifies against its own hash, and a salt of at least 8 bytes derives a
  key of the length asked for.\<close>

definition argon2Law :: "env \<Rightarrow> bool" where
  "argon2Law E \<longleftrightarrow>
     (\<forall>opts n p. argon2Verify E (argon2Hash E opts n p) p) \<and>
     (\<forall>opts salt len p. 8 \<le> length salt \<longrightarrow>
        (\<exists>key. argon2Raw E opts salt len p = Inr key \<and> length key = len))"

text \<open>
  JSON: parsing inverts printing on the values that have one text form: numbers are whole and small
  enough to be exact, the keys of an object are distinct and none starts with a digit (keys that
  are array indices would be reordered). The printed text has no lone surrogate.
\<close>

definition digitFirst :: "jsstring \<Rightarrow> bool" where
  "digitFirst k = (case k of [] \<Rightarrow> False | u # _ \<Rightarrow> 48 \<le> unat u \<and> unat u \<le> 57)"

fun plainJson :: "json \<Rightarrow> bool" where
  "plainJson (JNum n) = (case n of Fin r \<Rightarrow> isInteger (Fin r) \<and> \<bar>r\<bar> \<le> 9007199254740992 | _ \<Rightarrow> False)"
| "plainJson (JArr vs) = (\<forall>v \<in> set vs. plainJson v)"
| "plainJson (JObj kvs) =
     (distinct (map fst kvs) \<and> (\<forall>kv \<in> set kvs. \<not> digitFirst (fst kv) \<and> plainJson (snd kv)))"
| "plainJson _ = True"

definition jsonLaw :: "env \<Rightarrow> bool" where
  "jsonLaw E \<longleftrightarrow>
     (\<forall>v. plainJson v \<longrightarrow> jsonParse E (jsonStringify E v) = Some v \<and> wellFormed (jsonStringify E v))"

lemma gcmLawE:
  assumes "gcmLaw E" and "length key = 32" and "length iv = 12"
  obtains ct tag where "gcmSeal E key iv m = Some (ct, tag)" and "length tag = 16"
    and "gcmOpen E key iv tag ct = Some m"
  using assms unfolding gcmLaw_def by blast

lemma randomLaw_bytes [simp]: "randomLaw E \<Longrightarrow> length (randomBytes E n k) = k"
  by (simp add: randomLaw_def)

lemma randomLaw_int: "randomLaw E \<Longrightarrow> 0 < b \<Longrightarrow> randomInt E n b < b"
  by (simp add: randomLaw_def)

lemma argon2LawE:
  assumes "argon2Law E" and "8 \<le> length salt"
  obtains key where "argon2Raw E opts salt len p = Inr key" and "length key = len"
  using assms unfolding argon2Law_def by blast

section \<open>An instance\<close>

text \<open>There are countably many JSON values, so an injective numbering can serve as their text form.\<close>

instance word :: (len) countable
  by (rule countable_classI [of unat]) (rule unsigned_word_eqI)

instance jsnum :: countable
  by countable_datatype

instance json :: countable
  by countable_datatype

text \<open>
  A toy platform for the witnesses: the cipher leaves the text as it is and uses the head of the
  key as its tag, so that a key with another head does not open it; the key derived from a
  password starts with the password.
\<close>

definition demoKey :: "byte list \<Rightarrow> nat \<Rightarrow> jsstring \<Rightarrow> byte list" where
  "demoKey salt len p = take len (map (\<lambda>u. byteOf (unat u mod 256)) p @ salt @ replicate len 0)"

definition demoMessage :: gmail_message where
  "demoMessage =
     \<lparr>gm_id = js ''m1'',
      gm_headers = Some [(Some (js ''From''), Some (js ''shop'')), (Some (js ''Subject''), Some (js ''sale''))],
      gm_parts = None, gm_snippet = Some (js ''hi''), gm_internalDate = Some (js ''5'')\<rparr>"

definition demoEnv :: env where
  "demoEnv =
     \<lparr>envVar = (\<lambda>k. if k = js ''GMAIL_TOKEN_ENCRYPTION_KEY'' then Some (base64Encode (replicate 32 7)) else None),
      randomBytes = (\<lambda>n k. replicate k (byteOf (n mod 256))),
      randomInt = (\<lambda>n b. n mod b),
      uuid = (\<lambda>n. replicate (Suc n) 117),
      gcmSeal = (\<lambda>key iv m. Some (m, take 16 (key @ replicate 16 0))),
      gcmOpen = (\<lambda>key iv tag ct. if tag = take 16 (key @ replicate 16 0) then Some ct else None),
      argon2Hash = (\<lambda>opts n p. 104 # p),
      argon2Verify = (\<lambda>h p. h = 104 # p),
      argon2Raw = (\<lambda>opts salt len p.
        if 8 \<le> length salt then Inr (demoKey salt len p) else Inl ServiceError),
      toLowerCase = (\<lambda>s. s),
      extendedPictographic = (\<lambda>c. 0x1F300 \<le> c \<and> c < 0x1FAFF),
      containsInsensitive = includesStr,
      dateParse = (\<lambda>_. None),
      isoDate = (\<lambda>_. None),
      toNumber = (\<lambda>_. Fin 5),
      toISOString = (\<lambda>t. []),
      jsonStringify = (\<lambda>v. replicate (to_nat v) 65),
      jsonParse = (\<lambda>s. Some (from_nat (length s))),
      acceptsJsonNull = True,
      generateAuthUrl = (\<lambda>callback p. ap_state p),
      getToken = (\<lambda>callback code. Inr \<lparr>gt_idToken = code, gt_accessToken = code,
        gt_refreshToken = Some (js ''refresh''), gt_expiryDate = Some 100\<rparr>),
      verifyIdToken = (\<lambda>t aud. Inr (Some \<lparr>ip_sub = Some t, ip_email = Some (js ''me'')\<rparr>)),
      getAccessToken = (\<lambda>now c. Inr c),
      generateRegistrationOptions = (\<lambda>n p. \<lparr>wo_challenge = replicate (Suc n) 99, wo_body = JNull\<rparr>),
      generateAuthenticationOptions = (\<lambda>n p. \<lparr>wo_challenge = replicate (Suc n) 99, wo_body = JNull\<rparr>),
      verifyRegistrationResponse = (\<lambda>r ch orig rpid.
        Inr (Some \<lparr>wc_id = js ''cred'', wc_publicKey = [1, 2, 3], wc_counter = 0\<rparr>)),
      verifyAuthenticationResponse = (\<lambda>r ch orig rpid c. Inr (True, wc_counter c + 1)),
      gmailProfile = (\<lambda>h c. Inr (Some (js ''me''))),
      gmailList = (\<lambda>h c q k. Inr (Some [js ''m1''])),
      gmailGet = (\<lambda>h c i f hs. Inr demoMessage),
      gmailTrash = (\<lambda>h c i. Inr ()),
      gmailModify = (\<lambda>h c i ls. Inr ())\<rparr>"

lemma gcmLaw_demoEnv: "gcmLaw demoEnv"
  by (simp add: gcmLaw_def demoEnv_def)

lemma randomLaw_demoEnv: "randomLaw demoEnv"
  by (simp add: randomLaw_def demoEnv_def)

lemma length_demoKey: "length (demoKey salt len p) = len"
  by (simp add: demoKey_def)

lemma argon2Law_demoEnv: "argon2Law demoEnv"
  by (simp add: argon2Law_def demoEnv_def length_demoKey)

lemma jsonLaw_demoEnv: "jsonLaw demoEnv"
  by (auto simp: jsonLaw_def demoEnv_def intro!: wellFormed_plain)

lemmas demo_laws = gcmLaw_demoEnv randomLaw_demoEnv argon2Law_demoEnv jsonLaw_demoEnv

end
