(* ===== verification/World.thy ===== *)
theory World
  imports Integrity Platform
begin

text \<open>
  The state of the running server and its primitive effects. \<open>world\<close> holds the database, the
  in-memory store of unlock keys, the session data by session id, the clock, the count of random
  draws and the log of the calls made to Gmail. A request runs as an action over \<open>world\<close>, from
  its first guard to its response. What other requests do in between is the subject of
  \<open>Interruptions\<close>.

  A session id without stored data has the empty session (the middleware is configured with
  \<open>saveUninitialized: false\<close>), so the sessions are a total function.
\<close>

section \<open>The state\<close>

record google_profile =
  gp_sub :: jsstring
  gp_email :: jsstring

text \<open>\<open>SessionData\<close> of \<open>auth/session.types.ts\<close>; a missing \<open>unlocked\<close> is falsy.\<close>

record session_data =
  s_userId :: "jsstring option"
  s_unlocked :: bool
  s_oauthState :: "jsstring option"
  s_gmailOAuthState :: "jsstring option"
  s_pendingGoogle :: "google_profile option"
  s_currentWebauthnChallenge :: "jsstring option"

definition emptySession :: session_data where
  "emptySession =
     \<lparr>s_userId = None, s_unlocked = False, s_oauthState = None, s_gmailOAuthState = None,
      s_pendingGoogle = None, s_currentWebauthnChallenge = None\<rparr>"

text \<open>\<open>UnlockEntry\<close> of \<open>auth/unlock-key-store.service.ts\<close>.\<close>

record unlock_entry =
  ue_key :: "byte list"
  ue_autoLockMinutes :: int
  ue_lastActivityAt :: int

type_synonym key_store = "jsstring \<rightharpoonup> unlock_entry"

record world =
  db :: database
  keyStore :: key_store
  sessions :: "jsstring \<Rightarrow> session_data"
  clock :: int \<comment> \<open>milliseconds, what \<open>Date.now()\<close> reads\<close>
  draws :: nat
  gmailLog :: "gmail_call list"

type_synonym 'a action = "(world, 'a) act"

definition initWorld :: world where
  "initWorld =
     \<lparr>db = emptyDatabase, keyStore = Map.empty, sessions = (\<lambda>_. emptySession), clock = 0,
      draws = 0, gmailLog = []\<rparr>"

section \<open>Primitive effects\<close>

definition session :: "jsstring \<Rightarrow> session_data action" where
  "session sid = gets (\<lambda>w. sessions w sid)"

definition setSession :: "jsstring \<Rightarrow> (session_data \<Rightarrow> session_data) \<Rightarrow> unit action" where
  "setSession sid f = modify (\<lambda>w. w\<lparr>sessions := (sessions w)(sid := f (sessions w sid))\<rparr>)"

definition nextDraw :: "nat action" where
  "nextDraw = (\<lambda>w. (Inr (draws w), w\<lparr>draws := Suc (draws w)\<rparr>))"

definition freshId :: "env \<Rightarrow> jsstring action" where
  "freshId E = bindA nextDraw (\<lambda>n. ret (uuid E n))"

definition dateNow :: "int action" where
  "dateNow = gets clock"

definition dbQuery :: "(database \<Rightarrow> 'a) \<Rightarrow> 'a action" where
  "dbQuery f = gets (\<lambda>w. f (db w))"

text \<open>\<open>orderBy\<close> a time column; rows of the same time stay in the order of the table.\<close>

definition newestFirst :: "('r \<Rightarrow> int) \<Rightarrow> 'r list \<Rightarrow> 'r list" where
  "newestFirst time rows = sort_key (\<lambda>r. - time r) rows"

definition oldestFirst :: "('r \<Rightarrow> int) \<Rightarrow> 'r list \<Rightarrow> 'r list" where
  "oldestFirst time rows = sort_key time rows"

text \<open>A write that fails throws the error of the database client and changes nothing.\<close>

definition dbWrite :: "(database \<Rightarrow> prisma_code + database) \<Rightarrow> unit action" where
  "dbWrite f = (\<lambda>w. case f (db w) of
      Inl c \<Rightarrow> (Inl (PrismaError c), w) | Inr d \<Rightarrow> (Inr (), w\<lparr>db := d\<rparr>))"

definition dbWriteR :: "(database \<Rightarrow> prisma_code + 'r \<times> database) \<Rightarrow> 'r action" where
  "dbWriteR f = (\<lambda>w. case f (db w) of
      Inl c \<Rightarrow> (Inl (PrismaError c), w) | Inr (r, d) \<Rightarrow> (Inr r, w\<lparr>db := d\<rparr>))"

definition dbWriteAll :: "(database \<Rightarrow> 'r \<times> database) \<Rightarrow> 'r action" where
  "dbWriteAll f = (\<lambda>w. case f (db w) of (r, d) \<Rightarrow> (Inr r, w\<lparr>db := d\<rparr>))"

text \<open>\<open>prisma.$transaction\<close>: when the body throws, the database is as it was before.\<close>

definition transaction :: "'a action \<Rightarrow> 'a action" where
  "transaction m = (\<lambda>w. case m w of
      (Inl e, w') \<Rightarrow> (Inl e, w'\<lparr>db := db w\<rparr>) | (Inr x, w') \<Rightarrow> (Inr x, w'))"

text \<open>A call to Gmail is logged; its result may depend on the calls made before.\<close>

definition callGmail :: "gmail_call \<Rightarrow> (gmail_call list \<Rightarrow> exn + 'a) \<Rightarrow> 'a action" where
  "callGmail c f = (\<lambda>w. (f (gmailLog w), w\<lparr>gmailLog := gmailLog w @ [c]\<rparr>))"

lemma run_session [act_simps]: "session sid w = (Inr (sessions w sid), w)"
  by (simp add: session_def gets_def)

lemma run_setSession [act_simps]:
  "setSession sid f w = (Inr (), w\<lparr>sessions := (sessions w)(sid := f (sessions w sid))\<rparr>)"
  by (simp add: setSession_def modify_def)

lemma run_nextDraw [act_simps]: "nextDraw w = (Inr (draws w), w\<lparr>draws := Suc (draws w)\<rparr>)"
  by (simp add: nextDraw_def)

lemma run_freshId [act_simps]: "freshId E w = (Inr (uuid E (draws w)), w\<lparr>draws := Suc (draws w)\<rparr>)"
  by (simp add: freshId_def act_simps)

lemma run_dateNow [act_simps]: "dateNow w = (Inr (clock w), w)"
  by (simp add: dateNow_def gets_def)

lemma run_dbQuery [act_simps]: "dbQuery f w = (Inr (f (db w)), w)"
  by (simp add: dbQuery_def gets_def)

lemma run_dbWrite [act_simps]:
  "dbWrite f w = (case f (db w) of Inl c \<Rightarrow> (Inl (PrismaError c), w) | Inr d \<Rightarrow> (Inr (), w\<lparr>db := d\<rparr>))"
  by (simp add: dbWrite_def)

lemma run_dbWriteR [act_simps]:
  "dbWriteR f w = (case f (db w) of
     Inl c \<Rightarrow> (Inl (PrismaError c), w) | Inr (r, d) \<Rightarrow> (Inr r, w\<lparr>db := d\<rparr>))"
  by (simp add: dbWriteR_def)

lemma run_dbWriteAll [act_simps]: "dbWriteAll f w = (case f (db w) of (r, d) \<Rightarrow> (Inr r, w\<lparr>db := d\<rparr>))"
  by (simp add: dbWriteAll_def)

lemma run_transaction [act_simps]:
  "transaction m w = (case m w of
      (Inl e, w') \<Rightarrow> (Inl e, w'\<lparr>db := db w\<rparr>) | (Inr x, w') \<Rightarrow> (Inr x, w'))"
  by (simp add: transaction_def)

lemma run_callGmail [act_simps]:
  "callGmail c f w = (f (gmailLog w), w\<lparr>gmailLog := gmailLog w @ [c]\<rparr>)"
  by (simp add: callGmail_def)

section \<open>The invariant of the state\<close>

text \<open>
  A session names a user that exists and is unlocked only when it names one; an entry of the key
  store belongs to a logged-in session, has a lock time in range and no activity in the future.
\<close>

definition sessionsOk :: "world \<Rightarrow> bool" where
  "sessionsOk w \<longleftrightarrow>
     (\<forall>sid u. s_userId (sessions w sid) = Some u \<longrightarrow> u \<in> u_id ` set (users (db w))) \<and>
     (\<forall>sid. s_unlocked (sessions w sid) \<longrightarrow> s_userId (sessions w sid) \<noteq> None)"

definition keyStoreOk :: "world \<Rightarrow> bool" where
  "keyStoreOk w \<longleftrightarrow>
     (\<forall>sid e. keyStore w sid = Some e \<longrightarrow>
        s_userId (sessions w sid) \<noteq> None \<and>
        1 \<le> ue_autoLockMinutes e \<and> ue_autoLockMinutes e \<le> 240 \<and> ue_lastActivityAt e \<le> clock w)"

definition worldInv :: "world \<Rightarrow> bool" where
  "worldInv w \<longleftrightarrow> dbInv (db w) \<and> sessionsOk w \<and> keyStoreOk w"

lemma worldInv_init: "worldInv initWorld"
  by (simp add: worldInv_def sessionsOk_def keyStoreOk_def initWorld_def dbInv_empty emptySession_def)

text \<open>Changes that leave sessions and keys alone.\<close>

lemma worldInv_setDb:
  assumes "worldInv w" and "dbInv d" and "u_id ` set (users (db w)) \<subseteq> u_id ` set (users d)"
  shows "worldInv (w\<lparr>db := d\<rparr>)"
  using assms by (auto simp: worldInv_def sessionsOk_def keyStoreOk_def)

lemma worldInv_draws [simp]: "worldInv (w\<lparr>draws := n\<rparr>) = worldInv w"
  by (simp add: worldInv_def sessionsOk_def keyStoreOk_def)

lemma worldInv_gmailLog [simp]: "worldInv (w\<lparr>gmailLog := l\<rparr>) = worldInv w"
  by (simp add: worldInv_def sessionsOk_def keyStoreOk_def)

lemma preserves_session [preserves_intros]: "preserves I (session sid)"
  by (simp add: session_def preserves_gets)

lemma preserves_dateNow [preserves_intros]: "preserves I dateNow"
  by (simp add: dateNow_def preserves_gets)

lemma preserves_dbQuery [preserves_intros]: "preserves I (dbQuery f)"
  by (simp add: dbQuery_def preserves_gets)

lemma worldInv_nextDraw [preserves_intros]: "preserves worldInv nextDraw"
  by (simp add: preserves_def run_nextDraw)

lemma worldInv_freshId [preserves_intros]: "preserves worldInv (freshId E)"
  by (simp add: preserves_def run_freshId)

lemma worldInv_callGmail [preserves_intros]: "preserves worldInv (callGmail c f)"
  by (simp add: preserves_def run_callGmail)

lemma worldInv_dbWrite:
  assumes "\<And>d d'. dbInv d \<Longrightarrow> f d = Inr d' \<Longrightarrow> dbInv d' \<and> u_id ` set (users d) \<subseteq> u_id ` set (users d')"
  shows "preserves worldInv (dbWrite f)"
proof (rule preservesI)
  fix w r w' assume w: "worldInv w" and m: "dbWrite f w = (r, w')"
  show "worldInv w'"
  proof (cases "f (db w)")
    case (Inl c)
    then show ?thesis using w m by (auto simp: run_dbWrite)
  next
    case (Inr d)
    then show ?thesis using w m assms [OF _ Inr] worldInv_setDb [OF w, of d]
      by (auto simp: run_dbWrite worldInv_def)
  qed
qed

lemma worldInv_dbWriteR:
  assumes "\<And>d d' r. dbInv d \<Longrightarrow> f d = Inr (r, d') \<Longrightarrow>
    dbInv d' \<and> u_id ` set (users d) \<subseteq> u_id ` set (users d')"
  shows "preserves worldInv (dbWriteR f)"
proof (rule preservesI)
  fix w r w' assume w: "worldInv w" and m: "dbWriteR f w = (r, w')"
  show "worldInv w'"
  proof (cases "f (db w)")
    case (Inl c)
    then show ?thesis using w m by (auto simp: run_dbWriteR)
  next
    case (Inr x)
    obtain r d where x: "x = (r, d)" by (cases x)
    then have "dbInv d \<and> u_id ` set (users (db w)) \<subseteq> u_id ` set (users d)"
      using assms Inr w by (auto simp: worldInv_def)
    then show ?thesis using m Inr x worldInv_setDb [OF w, of d] by (auto simp: run_dbWriteR)
  qed
qed

lemma worldInv_dbWriteAll:
  assumes "\<And>d d' r. dbInv d \<Longrightarrow> f d = (r, d') \<Longrightarrow>
    dbInv d' \<and> u_id ` set (users d) \<subseteq> u_id ` set (users d')"
  shows "preserves worldInv (dbWriteAll f)"
proof (rule preservesI)
  fix w r w' assume w: "worldInv w" and m: "dbWriteAll f w = (r, w')"
  obtain x d where x: "f (db w) = (x, d)" by (cases "f (db w)")
  then have "dbInv d \<and> u_id ` set (users (db w)) \<subseteq> u_id ` set (users d)"
    using assms w by (auto simp: worldInv_def)
  then show "worldInv w'" using m x worldInv_setDb [OF w, of d] by (auto simp: run_dbWriteAll)
qed

text \<open>
  An action that only touches the database, the draws and the Gmail log: sessions, keys and the
  clock stay as they are. Such an action can run inside a transaction.
\<close>

definition frame :: "(jsstring \<Rightarrow> session_data) \<Rightarrow> key_store \<Rightarrow> int \<Rightarrow> world \<Rightarrow> bool" where
  "frame S K c w \<longleftrightarrow> sessions w = S \<and> keyStore w = K \<and> clock w = c"

lemma frame_dbWrite [preserves_intros]: "preserves (frame S K c) (dbWrite f)"
  by (auto simp: preserves_def run_dbWrite frame_def split: sum.splits)

lemma frame_dbWriteR [preserves_intros]: "preserves (frame S K c) (dbWriteR f)"
  by (auto simp: preserves_def run_dbWriteR frame_def split: sum.splits)

lemma frame_dbWriteAll [preserves_intros]: "preserves (frame S K c) (dbWriteAll f)"
  by (simp add: preserves_def run_dbWriteAll frame_def split_beta)

lemma frame_nextDraw [preserves_intros]: "preserves (frame S K c) nextDraw"
  by (simp add: preserves_def run_nextDraw frame_def)

lemma frame_freshId [preserves_intros]: "preserves (frame S K c) (freshId E)"
  by (simp add: preserves_def run_freshId frame_def)

lemma frame_callGmail [preserves_intros]: "preserves (frame S K c) (callGmail g f)"
  by (simp add: preserves_def run_callGmail frame_def)

lemma frame_setDb: "frame S K c (w\<lparr>db := d\<rparr>) = frame S K c w"
  by (simp add: frame_def)

lemma frame_transaction [preserves_intros]:
  assumes "preserves (frame S K c) m"
  shows "preserves (frame S K c) (transaction m)"
proof (rule preservesI)
  fix w r w' assume w: "frame S K c w" and t: "transaction m w = (r, w')"
  obtain r1 w1 where m: "m w = (r1, w1)" by (cases "m w")
  have "frame S K c w1" by (rule preservesD [OF assms w m])
  then show "frame S K c w'" using t m by (cases r1) (auto simp: run_transaction frame_setDb)
qed

lemma worldInv_transaction [preserves_intros]:
  assumes "preserves worldInv m" and "\<And>S K c. preserves (frame S K c) m"
  shows "preserves worldInv (transaction m)"
proof (rule preservesI)
  fix w r w' assume w: "worldInv w" and t: "transaction m w = (r, w')"
  obtain r1 w1 where m: "m w = (r1, w1)" by (cases "m w")
  have w1: "worldInv w1" using assms(1) w m by (rule preservesD)
  have "frame (sessions w) (keyStore w) (clock w) w" by (simp add: frame_def)
  then have f: "frame (sessions w) (keyStore w) (clock w) w1"
    using m by (rule preservesD [OF assms(2)])
  show "worldInv w'"
  proof (cases r1)
    case (Inl e)
    then have "w' = w1\<lparr>db := db w\<rparr>" using t m by (simp add: run_transaction)
    then show ?thesis using w f by (simp add: worldInv_def sessionsOk_def keyStoreOk_def frame_def)
  next
    case (Inr x)
    then show ?thesis using t m w1 by (simp add: run_transaction)
  qed
qed

text \<open>
  \<open>onlyDb w0\<close>: nothing but the database and the count of draws differs from \<open>w0\<close>. An action that
  keeps it has no other effect.
\<close>

definition onlyDb :: "world \<Rightarrow> world \<Rightarrow> bool" where
  "onlyDb w0 w \<longleftrightarrow>
     keyStore w = keyStore w0 \<and> sessions w = sessions w0 \<and> clock w = clock w0 \<and> gmailLog w = gmailLog w0"

lemma onlyDb_eq: "onlyDb w0 w \<Longrightarrow> w = w0\<lparr>db := db w, draws := draws w\<rparr>"
  by (cases w0; cases w) (simp add: onlyDb_def)

lemma onlyDb_refl [simp]: "onlyDb w w"
  by (simp add: onlyDb_def)

lemma onlyDb_nextDraw [preserves_intros]: "preserves (onlyDb w0) nextDraw"
  by (rule preservesI) (auto simp: run_nextDraw onlyDb_def)

lemma onlyDb_freshId [preserves_intros]: "preserves (onlyDb w0) (freshId E)"
  by (rule preservesI) (auto simp: run_freshId onlyDb_def)

lemma onlyDb_setDb: "onlyDb w0 w \<Longrightarrow> onlyDb w0 (w\<lparr>db := d\<rparr>)"
  by (simp add: onlyDb_def)

lemma onlyDb_dbWrite [preserves_intros]: "preserves (onlyDb w0) (dbWrite f)"
  by (rule preservesI) (auto simp: run_dbWrite onlyDb_setDb split: sum.splits)

lemma onlyDb_dbWriteR [preserves_intros]: "preserves (onlyDb w0) (dbWriteR f)"
  by (rule preservesI) (auto simp: run_dbWriteR onlyDb_setDb split: sum.splits)

lemma onlyDb_dbWriteAll [preserves_intros]: "preserves (onlyDb w0) (dbWriteAll f)"
  by (rule preservesI) (auto simp: run_dbWriteAll onlyDb_setDb split: prod.splits)

lemma onlyDb_transaction [preserves_intros]:
  assumes "preserves (onlyDb w0) m"
  shows "preserves (onlyDb w0) (transaction m)"
proof (rule preservesI)
  fix w r w' assume w: "onlyDb w0 w" and t: "transaction m w = (r, w')"
  obtain r1 w1 where m: "m w = (r1, w1)" by (cases "m w")
  have "onlyDb w0 w1" by (rule preservesD [OF assms w m])
  then show "onlyDb w0 w'" using t m by (cases r1) (auto simp: run_transaction onlyDb_setDb)
qed

lemma transaction_fails:
  assumes "preserves (onlyDb w) m" and "transaction m w = (Inl e, w')"
  shows "w' = w\<lparr>draws := draws w'\<rparr>"
proof -
  obtain r1 w1 where m: "m w = (r1, w1)" by (cases "m w")
  have "onlyDb w w1" by (rule preservesD [OF assms(1) onlyDb_refl m])
  then have "w1 = w\<lparr>db := db w1, draws := draws w1\<rparr>" by (rule onlyDb_eq)
  then have "w1\<lparr>db := db w\<rparr> = w\<lparr>draws := draws w1\<rparr>" by (cases w; cases w1) simp
  then show ?thesis using assms(2) m by (cases r1) (auto simp: run_transaction)
qed

text \<open>Logging a session in keeps the invariant when the user exists.\<close>

lemma worldInv_login:
  assumes "worldInv w" and "s_userId s = Some u" and "u \<in> u_id ` set (users (db w))"
  shows "worldInv (w\<lparr>sessions := (sessions w)(sid := s)\<rparr>)"
  using assms by (auto simp: worldInv_def sessionsOk_def keyStoreOk_def)

end
