(* ===== verification/Crypto.thy ===== *)
theory Crypto
  imports World
begin

text \<open>
  The cryptographic layer: \<open>common/crypto/aes.util.ts\<close> (\<open>encrypt\<close>, \<open>decrypt\<close>),
  \<open>kdf.util.ts\<close> (salt, hash, verification, key derivation), the delegating \<open>crypto.service.ts\<close> and
  the start-up check of \<open>gmail-token-key.service.ts\<close>. The locale \<open>cipher\<close> is the contract the
  other components rely on: what was encrypted under a key decrypts under it. It is interpreted on
  the AES definitions for a platform that satisfies \<open>gcmLaw\<close> and \<open>randomLaw\<close>.
\<close>

section \<open>AES-256-GCM\<close>

definition IV_LENGTH :: nat where
  "IV_LENGTH = 12"

definition AUTH_TAG_LENGTH :: nat where
  "AUTH_TAG_LENGTH = 16"

text \<open>The payload is the base64 form of the vector, the tag and the ciphertext, in this order.\<close>

definition aesEncrypt :: "env \<Rightarrow> nat \<Rightarrow> jsstring \<Rightarrow> byte list \<Rightarrow> exn + jsstring" where
  "aesEncrypt E n plaintext key =
     (let iv = randomBytes E n IV_LENGTH in
      case gcmSeal E key iv (utf8Encode plaintext) of
        None \<Rightarrow> Inl CryptoError
      | Some (ciphertext, authTag) \<Rightarrow> Inr (base64Encode (iv @ authTag @ ciphertext)))"

definition aesDecrypt :: "env \<Rightarrow> jsstring \<Rightarrow> byte list \<Rightarrow> exn + jsstring" where
  "aesDecrypt E payload key =
     (let raw = base64Decode payload;
          iv = take IV_LENGTH raw;
          authTag = take AUTH_TAG_LENGTH (drop IV_LENGTH raw);
          ciphertext = drop (IV_LENGTH + AUTH_TAG_LENGTH) raw in
      case gcmOpen E key iv authTag ciphertext of
        None \<Rightarrow> Inl CryptoError
      | Some plaintext \<Rightarrow> Inr (utf8Decode plaintext))"

text \<open>The calls of \<open>CryptoService\<close>: encryption draws its vector.\<close>

definition encrypt :: "env \<Rightarrow> jsstring \<Rightarrow> byte list \<Rightarrow> jsstring action" where
  "encrypt E plaintext key = bindA nextDraw (\<lambda>n. liftE (aesEncrypt E n plaintext key))"

definition decrypt :: "env \<Rightarrow> jsstring \<Rightarrow> byte list \<Rightarrow> jsstring action" where
  "decrypt E payload key = liftE (aesDecrypt E payload key)"

lemma run_encrypt [act_simps]:
  "encrypt E p key w = (aesEncrypt E (draws w) p key, w\<lparr>draws := Suc (draws w)\<rparr>)"
  by (simp add: encrypt_def act_simps)

lemma run_decrypt [act_simps]: "decrypt E p key w = (aesDecrypt E p key, w)"
  by (simp add: decrypt_def act_simps)

text \<open>
  The layout: what \<open>aesEncrypt\<close> writes is read back by \<open>aesDecrypt\<close> as the same vector, tag and
  ciphertext.
\<close>

lemma aesDecrypt_layout:
  assumes "length iv = IV_LENGTH" and "length tag = AUTH_TAG_LENGTH"
  shows "aesDecrypt E (base64Encode (iv @ tag @ ct)) key =
    (case gcmOpen E key iv tag ct of None \<Rightarrow> Inl CryptoError | Some m \<Rightarrow> Inr (utf8Decode m))"
  using assms by (simp add: aesDecrypt_def Let_def IV_LENGTH_def AUTH_TAG_LENGTH_def)

lemma aesEncrypt_succeeds:
  assumes "gcmLaw E" and "randomLaw E" and "length key = 32"
  obtains tag ct where "length tag = AUTH_TAG_LENGTH"
    and "aesEncrypt E n p key = Inr (base64Encode (randomBytes E n IV_LENGTH @ tag @ ct))"
    and "gcmOpen E key (randomBytes E n IV_LENGTH) tag ct = Some (utf8Encode p)"
proof -
  have iv: "length (randomBytes E n IV_LENGTH) = 12" using assms(2) by (simp add: IV_LENGTH_def)
  obtain ct tag where "gcmSeal E key (randomBytes E n IV_LENGTH) (utf8Encode p) = Some (ct, tag)"
    and "length tag = 16" and "gcmOpen E key (randomBytes E n IV_LENGTH) tag ct = Some (utf8Encode p)"
    by (rule gcmLawE [OF assms(1,3) iv])
  then show ?thesis by (intro that [of tag ct]) (simp_all add: aesEncrypt_def AUTH_TAG_LENGTH_def)
qed

lemma aes_inverse:
  assumes "gcmLaw E" and "randomLaw E" and "length key = 32"
    and "wellFormed p" and "aesEncrypt E n p key = Inr c"
  shows "aesDecrypt E c key = Inr p"
proof -
  obtain tag ct where "length tag = AUTH_TAG_LENGTH"
    and c: "aesEncrypt E n p key = Inr (base64Encode (randomBytes E n IV_LENGTH @ tag @ ct))"
    and "gcmOpen E key (randomBytes E n IV_LENGTH) tag ct = Some (utf8Encode p)"
    by (rule aesEncrypt_succeeds [OF assms(1-3)])
  then have "aesDecrypt E (base64Encode (randomBytes E n IV_LENGTH @ tag @ ct)) key =
      Inr (utf8Decode (utf8Encode p))"
    using assms(2) by (subst aesDecrypt_layout) (simp_all add: IV_LENGTH_def)
  then show ?thesis using assms(4,5) c by simp
qed

section \<open>The contract of a cipher\<close>

text \<open>
  A cipher encrypts under a nonce, may fail, and decryption inverts it on the plaintexts and keys
  it is meant for. \<open>rekey\<close> is what a change of key does with a payload.
\<close>

locale cipher =
  fixes enc :: "nat \<Rightarrow> jsstring \<Rightarrow> byte list \<Rightarrow> exn + jsstring"
    and dec :: "jsstring \<Rightarrow> byte list \<Rightarrow> exn + jsstring"
    and goodKey :: "byte list \<Rightarrow> bool" and goodText :: "jsstring \<Rightarrow> bool"
  assumes enc_total: "goodKey k \<Longrightarrow> \<exists>c. enc n p k = Inr c"
    and dec_enc: "goodKey k \<Longrightarrow> goodText p \<Longrightarrow> enc n p k = Inr c \<Longrightarrow> dec c k = Inr p"
begin

text \<open>Re-encryption under a new key keeps the plaintext.\<close>

lemma rekey:
  assumes "goodKey new" and "dec c old = Inr p" and "goodText p"
  shows "\<exists>c'. (case dec c old of Inl e \<Rightarrow> Inl e | Inr p \<Rightarrow> enc n p new) = Inr c' \<and> dec c' new = Inr p"
  using enc_total [OF assms(1), of n p] dec_enc [OF assms(1,3)] assms(2) by auto

text \<open>A ciphertext determines its plaintext.\<close>

lemma enc_injective:
  assumes "goodKey k" and "goodText p" and "goodText q" and "enc n p k = Inr c" and "enc m q k = Inr c"
  shows "p = q"
  using dec_enc [OF assms(1,2,4)] dec_enc [OF assms(1,3,5)] by simp

end

definition goodPlatform :: "env \<Rightarrow> bool" where
  "goodPlatform E \<longleftrightarrow> gcmLaw E \<and> randomLaw E"

text \<open>On a platform that breaks its laws no key counts as good.\<close>

interpretation aes: cipher "aesEncrypt E" "aesDecrypt E" "\<lambda>k. goodPlatform E \<and> length k = 32" wellFormed for E
proof
  fix k :: "byte list" and n p assume "goodPlatform E \<and> length k = 32"
  then show "\<exists>c. aesEncrypt E n p k = Inr c"
    by (meson aesEncrypt_succeeds goodPlatform_def)
next
  fix k :: "byte list" and n p c
  assume "goodPlatform E \<and> length k = 32" and "wellFormed p" and "aesEncrypt E n p k = Inr c"
  then show "aesDecrypt E c k = Inr p" by (auto intro: aes_inverse simp: goodPlatform_def)
qed

section \<open>Passwords and keys\<close>

definition ARGON2ID_OPTIONS :: argon2_options where
  "ARGON2ID_OPTIONS =
     \<lparr>ao_type = js ''argon2id'', ao_memoryCost = 65536, ao_timeCost = 3, ao_parallelism = 4\<rparr>"

definition AES_256_KEY_LENGTH :: nat where
  "AES_256_KEY_LENGTH = 32"

definition generateKdfSalt :: "env \<Rightarrow> jsstring action" where
  "generateKdfSalt E = bindA nextDraw (\<lambda>n. ret (base64Encode (randomBytes E n 16)))"

text \<open>\<open>argon2.hash\<close> draws the salt of the hash itself.\<close>

definition hashMasterPassword :: "env \<Rightarrow> jsstring \<Rightarrow> jsstring action" where
  "hashMasterPassword E password =
     bindA nextDraw (\<lambda>n. ret (argon2Hash E ARGON2ID_OPTIONS n password))"

text \<open>A missing password makes \<open>argon2\<close> throw.\<close>

definition verifyMasterPassword :: "env \<Rightarrow> jsstring option \<Rightarrow> jsstring \<Rightarrow> bool action" where
  "verifyMasterPassword E password hash =
     liftE (case password of None \<Rightarrow> Inl TypeError | Some p \<Rightarrow> Inr (argon2Verify E hash p))"

definition deriveKey :: "env \<Rightarrow> jsstring \<Rightarrow> jsstring \<Rightarrow> exn + byte list" where
  "deriveKey E password kdfSaltBase64 =
     argon2Raw E ARGON2ID_OPTIONS (base64Decode kdfSaltBase64) AES_256_KEY_LENGTH password"

definition deriveEncryptionKey :: "env \<Rightarrow> jsstring option \<Rightarrow> jsstring \<Rightarrow> byte list action" where
  "deriveEncryptionKey E password kdfSaltBase64 =
     liftE (case password of None \<Rightarrow> Inl TypeError | Some p \<Rightarrow> deriveKey E p kdfSaltBase64)"

lemma run_generateKdfSalt [act_simps]:
  "generateKdfSalt E w = (Inr (base64Encode (randomBytes E (draws w) 16)), w\<lparr>draws := Suc (draws w)\<rparr>)"
  by (simp add: generateKdfSalt_def act_simps)

lemma run_hashMasterPassword [act_simps]:
  "hashMasterPassword E p w =
     (Inr (argon2Hash E ARGON2ID_OPTIONS (draws w) p), w\<lparr>draws := Suc (draws w)\<rparr>)"
  by (simp add: hashMasterPassword_def act_simps)

lemma run_verifyMasterPassword [act_simps]:
  "verifyMasterPassword E p h w =
     (case p of None \<Rightarrow> Inl TypeError | Some q \<Rightarrow> Inr (argon2Verify E h q), w)"
  by (simp add: verifyMasterPassword_def act_simps)

lemma run_deriveEncryptionKey [act_simps]:
  "deriveEncryptionKey E p s w = (case p of None \<Rightarrow> Inl TypeError | Some q \<Rightarrow> deriveKey E q s, w)"
  by (simp add: deriveEncryptionKey_def act_simps)

text \<open>A generated salt is long enough for the derivation, and the derived key fits the cipher.\<close>

lemma deriveKey_fresh:
  assumes "randomLaw E" and "argon2Law E"
  obtains key where "deriveKey E p (base64Encode (randomBytes E n 16)) = Inr key" and "length key = 32"
proof -
  have "8 \<le> length (randomBytes E n 16)" using assms(1) by simp
  then obtain key where "argon2Raw E ARGON2ID_OPTIONS (randomBytes E n 16) 32 p = Inr key"
    and "length key = 32"
    by (rule argon2LawE [OF assms(2)])
  then show ?thesis by (intro that [of key]) (simp_all add: deriveKey_def AES_256_KEY_LENGTH_def)
qed

section \<open>The server key of the Gmail tokens\<close>

text \<open>\<open>onModuleInit\<close>: the server does not start without a key of 32 bytes.\<close>

definition tokenKeyInit :: "env \<Rightarrow> exn + byte list" where
  "tokenKeyInit E =
     (let raw = envVar E (js ''GMAIL_TOKEN_ENCRYPTION_KEY'') in
      if \<not> truthy raw then Inl (Error TokenKeyMissing)
      else let key = base64Decode (orElse raw []) in
        if length key \<noteq> 32 then Inl (Error TokenKeyWrongLength) else Inr key)"

text \<open>What \<open>key\<close> returns once the server has started.\<close>

definition tokenKey :: "env \<Rightarrow> byte list" where
  "tokenKey E = (case tokenKeyInit E of Inl _ \<Rightarrow> [] | Inr key \<Rightarrow> key)"

lemma tokenKeyInit_length: "tokenKeyInit E = Inr key \<Longrightarrow> length key = 32"
  by (auto simp: tokenKeyInit_def Let_def split: if_splits)

section \<open>Preservation\<close>

lemma worldInv_encrypt [preserves_intros]: "preserves worldInv (encrypt E p k)"
  by (simp add: preserves_def run_encrypt)

lemma worldInv_generateKdfSalt [preserves_intros]: "preserves worldInv (generateKdfSalt E)"
  by (simp add: preserves_def run_generateKdfSalt)

lemma worldInv_hashMasterPassword [preserves_intros]: "preserves worldInv (hashMasterPassword E p)"
  by (simp add: preserves_def run_hashMasterPassword)

lemma preserves_decrypt [preserves_intros]: "preserves I (decrypt E p k)"
  by (simp add: decrypt_def preserves_liftE)

lemma preserves_verifyMasterPassword [preserves_intros]: "preserves I (verifyMasterPassword E p h)"
  by (simp add: verifyMasterPassword_def preserves_liftE)

lemma preserves_deriveEncryptionKey [preserves_intros]: "preserves I (deriveEncryptionKey E p s)"
  by (simp add: deriveEncryptionKey_def preserves_liftE)

lemma onlyDb_encrypt [preserves_intros]: "preserves (onlyDb w0) (encrypt E p k)"
  unfolding encrypt_def by (intro preserves_intros)

lemma onlyDb_generateKdfSalt [preserves_intros]: "preserves (onlyDb w0) (generateKdfSalt E)"
  unfolding generateKdfSalt_def by (intro preserves_intros)

lemma onlyDb_hashMasterPassword [preserves_intros]: "preserves (onlyDb w0) (hashMasterPassword E p)"
  unfolding hashMasterPassword_def by (intro preserves_intros)

lemma frame_encrypt [preserves_intros]: "preserves (frame S K c) (encrypt E p k)"
  by (simp add: preserves_def run_encrypt frame_def)

section \<open>Properties\<close>

text \<open>
  under a key of 32 bytes every well-formed text can be encrypted. The payload starts with the
  fresh vector of this call, decryption under the same key gives the text back in any later state
  of the server, and encrypting changes nothing else.
\<close>

theorem aes_roundtrip:
  assumes "gcmLaw E" and "randomLaw E" and "length key = 32" and "wellFormed p"
  shows "\<exists>c. encrypt E p key w = (Inr c, w\<lparr>draws := Suc (draws w)\<rparr>) \<and>
    take 12 (base64Decode c) = randomBytes E (draws w) 12 \<and>
    28 \<le> length (base64Decode c) \<and>
    (\<forall>w'. decrypt E c key w' = (Inr p, w'))"
proof -
  obtain tag ct where t: "length tag = AUTH_TAG_LENGTH"
    and c: "aesEncrypt E (draws w) p key = Inr (base64Encode (randomBytes E (draws w) IV_LENGTH @ tag @ ct))"
    by (rule aesEncrypt_succeeds [OF assms(1-3)])
  have "aesDecrypt E (base64Encode (randomBytes E (draws w) IV_LENGTH @ tag @ ct)) key = Inr p"
    by (rule aes_inverse [OF assms c])
  then show ?thesis using assms(2) c t
    by (intro exI [of _ "base64Encode (randomBytes E (draws w) IV_LENGTH @ tag @ ct)"])
      (simp add: run_encrypt run_decrypt IV_LENGTH_def AUTH_TAG_LENGTH_def)
qed

lemma aes_roundtrip_witness:
  "\<exists>c. encrypt demoEnv (js ''secret'') (replicate 32 7) initWorld = (Inr c, initWorld\<lparr>draws := Suc (draws initWorld)\<rparr>) \<and>
    take 12 (base64Decode c) = randomBytes demoEnv (draws initWorld) 12 \<and>
    28 \<le> length (base64Decode c) \<and>
    (\<forall>w'. decrypt demoEnv c (replicate 32 7) w' = (Inr (js ''secret''), w'))"
  by (rule aes_roundtrip) (simp_all add: demo_laws)

text \<open>
  the server starts exactly when the variable for the Gmail token key holds the base64 form of
  32 bytes, and then uses those bytes as its key.
\<close>

theorem tokenKeyInit_iff:
  "tokenKeyInit E = Inr key \<longleftrightarrow>
     (\<exists>raw. envVar E (js ''GMAIL_TOKEN_ENCRYPTION_KEY'') = Some raw \<and> base64Decode raw = key \<and> length key = 32)"
proof -
  have "base64Decode [] = []" by (simp add: base64Decode_def List.map_filter_def)
  then show ?thesis
    by (cases "envVar E (js ''GMAIL_TOKEN_ENCRYPTION_KEY'')") (auto simp: tokenKeyInit_def Let_def)
qed

end
