(* ===== verification/UnlockKeyStore.thy ===== *)
theory UnlockKeyStore
  imports World
begin

text \<open>
  \<open>auth/unlock-key-store.service.ts\<close>, the two guards of \<open>auth/guards\<close> and the parameter decorators
  that read what a guard left. A key is held per session until it has been idle for longer than
  the lock time; \<open>touch\<close> is the one place that measures it. The locale \<open>key_holder\<close> states the
  contract the guards rely on and is interpreted on the store.
\<close>

section \<open>The store\<close>

definition storeSet :: "jsstring \<Rightarrow> byte list \<Rightarrow> int \<Rightarrow> int \<Rightarrow> key_store \<Rightarrow> key_store" where
  "storeSet sid key minutes now st =
     st(sid \<mapsto> \<lparr>ue_key = key, ue_autoLockMinutes = minutes, ue_lastActivityAt = now\<rparr>)"

text \<open>
  Both readings of \<open>Date.now()\<close> in one call see the same clock. A key past the idle time is
  removed, one within it is returned and counts as active now.
\<close>

definition storeTouch :: "jsstring \<Rightarrow> int \<Rightarrow> key_store \<Rightarrow> byte list option \<times> key_store" where
  "storeTouch sid now st =
     (case st sid of
        None \<Rightarrow> (None, st)
      | Some entry \<Rightarrow>
          (let idleMs = now - ue_lastActivityAt entry in
           if idleMs > ue_autoLockMinutes entry * 60000 then (None, st(sid := None))
           else (Some (ue_key entry), st(sid \<mapsto> entry\<lparr>ue_lastActivityAt := now\<rparr>))))"

definition storeGet :: "jsstring \<Rightarrow> key_store \<Rightarrow> byte list option" where
  "storeGet sid st = map_option ue_key (st sid)"

definition storeUpdateAutoLockMinutes :: "jsstring \<Rightarrow> int \<Rightarrow> key_store \<Rightarrow> key_store" where
  "storeUpdateAutoLockMinutes sid minutes st =
     (case st sid of None \<Rightarrow> st | Some entry \<Rightarrow> st(sid \<mapsto> entry\<lparr>ue_autoLockMinutes := minutes\<rparr>))"

definition storeDelete :: "jsstring \<Rightarrow> key_store \<Rightarrow> key_store" where
  "storeDelete sid st = st(sid := None)"

section \<open>The contract of a key holder\<close>

text \<open>
  \<open>deadline\<close> is the last moment at which the key of a session can still be read. Setting a key
  starts a period, reading it within the period starts a new one, deleting it ends it, and no
  operation on one session moves the deadline of another.
\<close>

locale key_holder =
  fixes put :: "jsstring \<Rightarrow> byte list \<Rightarrow> int \<Rightarrow> int \<Rightarrow> 's \<Rightarrow> 's"
    and touch :: "jsstring \<Rightarrow> int \<Rightarrow> 's \<Rightarrow> byte list option \<times> 's"
    and del :: "jsstring \<Rightarrow> 's \<Rightarrow> 's"
    and holds :: "'s \<Rightarrow> jsstring \<Rightarrow> (byte list \<times> int \<times> int) option"
  assumes holds_put: "holds (put sid key m now s) sid = Some (key, m, now + m * 60000)"
    and holds_put_other: "sid' \<noteq> sid \<Longrightarrow> holds (put sid key m now s) sid' = holds s sid'"
    and touch_none: "holds s sid = None \<Longrightarrow> touch sid now s = (None, s)"
    and touch_late: "holds s sid = Some (key, m, d) \<Longrightarrow> d < now \<Longrightarrow> touch sid now s = (None, del sid s)"
    and touch_live: "holds s sid = Some (key, m, d) \<Longrightarrow> now \<le> d \<Longrightarrow>
      \<exists>s'. touch sid now s = (Some key, s') \<and> holds s' sid = Some (key, m, now + m * 60000) \<and>
        (\<forall>t. t \<noteq> sid \<longrightarrow> holds s' t = holds s t)"
    and holds_del: "holds (del sid s) sid = None"
    and holds_del_other: "sid' \<noteq> sid \<Longrightarrow> holds (del sid s) sid' = holds s sid'"
begin

text \<open>A key can be read exactly when it is held and the deadline has not passed.\<close>

lemma touch_iff:
  "fst (touch sid now s) = Some key \<longleftrightarrow> (\<exists>m d. holds s sid = Some (key, m, d) \<and> now \<le> d)"
proof (cases "holds s sid")
  case None
  then show ?thesis by (simp add: touch_none)
next
  case (Some e)
  then obtain k m d where e: "holds s sid = Some (k, m, d)" by (cases e) auto
  show ?thesis
  proof (cases "now \<le> d")
    case True
    then show ?thesis using touch_live [OF e True] e by auto
  next
    case False
    then show ?thesis using touch_late [OF e] e by auto
  qed
qed

text \<open>A touch of one session leaves the others as they were.\<close>

lemma touch_other:
  assumes "t \<noteq> sid"
  shows "holds (snd (touch sid now s)) t = holds s t"
proof (cases "holds s sid")
  case None
  then show ?thesis by (simp add: touch_none)
next
  case (Some e)
  then obtain k m d where e: "holds s sid = Some (k, m, d)" by (cases e) auto
  show ?thesis
  proof (cases "now \<le> d")
    case True
    then show ?thesis using touch_live [OF e True] assms by auto
  next
    case False
    then show ?thesis using touch_late [OF e] holds_del_other [OF assms] by simp
  qed
qed

text \<open>Once a touch has failed, every later one fails until a key is set again.\<close>

lemma touch_failed_stays:
  assumes "fst (touch sid now s) = None"
  shows "touch sid later (snd (touch sid now s)) = (None, snd (touch sid now s))"
proof (cases "holds s sid")
  case None
  then show ?thesis by (simp add: touch_none)
next
  case (Some e)
  then obtain k m d where e: "holds s sid = Some (k, m, d)" by (cases e) auto
  then have "d < now" using assms touch_live [OF e, of now] by (cases "now \<le> d") auto
  then show ?thesis using touch_late [OF e] by (simp add: touch_none holds_del)
qed

text \<open>A session touched often enough stays readable, however long it lives.\<close>

lemma touches_keep_alive:
  assumes "holds s sid = Some (key, m, x + m * 60000)"
    and "successively (\<lambda>a b. b - a \<le> m * 60000) (x # ts)"
  shows "holds (fold (\<lambda>t s. snd (touch sid t s)) ts s) sid = Some (key, m, last (x # ts) + m * 60000)"
  using assms
proof (induction ts arbitrary: s x)
  case Nil
  then show ?case by simp
next
  case (Cons t ts)
  have "t \<le> x + m * 60000" using Cons.prems(2) by simp
  then obtain s' where "touch sid t s = (Some key, s')" and "holds s' sid = Some (key, m, t + m * 60000)"
    using touch_live [OF Cons.prems(1)] by blast
  moreover have "successively (\<lambda>a b. b - a \<le> m * 60000) (t # ts)" using Cons.prems(2) by simp
  ultimately show ?case using Cons.IH [of s' t] by simp
qed

end

definition entryView :: "unlock_entry \<Rightarrow> byte list \<times> int \<times> int" where
  "entryView e =
     (ue_key e, ue_autoLockMinutes e, ue_lastActivityAt e + ue_autoLockMinutes e * 60000)"

definition storeHolds :: "key_store \<Rightarrow> jsstring \<Rightarrow> (byte list \<times> int \<times> int) option" where
  "storeHolds st sid = map_option entryView (st sid)"

interpretation store: key_holder storeSet storeTouch storeDelete storeHolds
proof
  fix st :: key_store and sid :: jsstring and key :: "byte list" and m d now :: int
  assume h: "storeHolds st sid = Some (key, m, d)" and "now \<le> d"
  then obtain e where e: "st sid = Some e" "ue_key e = key" "ue_autoLockMinutes e = m"
      "d = ue_lastActivityAt e + m * 60000"
    by (auto simp: storeHolds_def entryView_def)
  then have "storeTouch sid now st = (Some key, st(sid \<mapsto> e\<lparr>ue_lastActivityAt := now\<rparr>))"
    using \<open>now \<le> d\<close> by (simp add: storeTouch_def)
  then show "\<exists>s'. storeTouch sid now st = (Some key, s') \<and>
      storeHolds s' sid = Some (key, m, now + m * 60000) \<and>
      (\<forall>t. t \<noteq> sid \<longrightarrow> storeHolds s' t = storeHolds st t)"
    using e by (auto simp: storeHolds_def entryView_def)
qed (auto simp: storeHolds_def storeSet_def storeTouch_def storeDelete_def entryView_def)

section \<open>The store inside the server\<close>

definition keySet :: "jsstring \<Rightarrow> byte list \<Rightarrow> int \<Rightarrow> unit action" where
  "keySet sid key minutes =
     bindA dateNow (\<lambda>now. modify (\<lambda>w. w\<lparr>keyStore := storeSet sid key minutes now (keyStore w)\<rparr>))"

definition keyTouch :: "jsstring \<Rightarrow> byte list option action" where
  "keyTouch sid =
     (\<lambda>w. case storeTouch sid (clock w) (keyStore w) of (r, st) \<Rightarrow> (Inr r, w\<lparr>keyStore := st\<rparr>))"

definition keyGet :: "jsstring \<Rightarrow> byte list option action" where
  "keyGet sid = gets (\<lambda>w. storeGet sid (keyStore w))"

definition keyUpdateAutoLockMinutes :: "jsstring \<Rightarrow> int \<Rightarrow> unit action" where
  "keyUpdateAutoLockMinutes sid minutes =
     modify (\<lambda>w. w\<lparr>keyStore := storeUpdateAutoLockMinutes sid minutes (keyStore w)\<rparr>)"

definition keyDelete :: "jsstring \<Rightarrow> unit action" where
  "keyDelete sid = modify (\<lambda>w. w\<lparr>keyStore := storeDelete sid (keyStore w)\<rparr>)"

lemma run_keySet [act_simps]:
  "keySet sid key m w = (Inr (), w\<lparr>keyStore := storeSet sid key m (clock w) (keyStore w)\<rparr>)"
  by (simp add: keySet_def act_simps)

lemma run_keyTouch [act_simps]:
  "keyTouch sid w =
     (case storeTouch sid (clock w) (keyStore w) of (r, st) \<Rightarrow> (Inr r, w\<lparr>keyStore := st\<rparr>))"
  by (simp add: keyTouch_def)

lemma run_keyUpdateAutoLockMinutes [act_simps]:
  "keyUpdateAutoLockMinutes sid m w =
     (Inr (), w\<lparr>keyStore := storeUpdateAutoLockMinutes sid m (keyStore w)\<rparr>)"
  by (simp add: keyUpdateAutoLockMinutes_def act_simps)

lemma run_keyDelete [act_simps]:
  "keyDelete sid w = (Inr (), w\<lparr>keyStore := storeDelete sid (keyStore w)\<rparr>)"
  by (simp add: keyDelete_def act_simps)

section \<open>Guards\<close>

text \<open>
  A guard returns what the decorators hand to the handler: \<open>CurrentUserId\<close> the user of the session,
  \<open>EncryptionKey\<close> the key the guard put on the request.
\<close>

definition currentUserId :: "jsstring \<Rightarrow> jsstring option action" where
  "currentUserId sid = bindA (session sid) (\<lambda>s. ret (s_userId s))"

definition loggedInGuard :: "jsstring \<Rightarrow> jsstring action" where
  "loggedInGuard sid =
     bindA (currentUserId sid) (\<lambda>userId.
     bindA (throwIf (\<not> truthy userId) (UnauthorizedException LoginRequired)) (\<lambda>_.
     ret (orElse userId [])))"

text \<open>An empty \<open>Buffer\<close> is truthy: only a missing key counts as locked.\<close>

definition unlockedGuard :: "jsstring \<Rightarrow> (jsstring \<times> byte list) action" where
  "unlockedGuard sid =
     bindA (loggedInGuard sid) (\<lambda>userId.
     bindA (keyTouch sid) (\<lambda>key.
     bindA (session sid) (\<lambda>s.
       case (s_unlocked s, key) of
         (True, Some k) \<Rightarrow> ret (userId, k)
       | _ \<Rightarrow> bindA (setSession sid (\<lambda>s. s\<lparr>s_unlocked := False\<rparr>))
                (\<lambda>_. throw (UnauthorizedException UnlockRequired)))))"

lemma run_loggedInGuard:
  "loggedInGuard sid w =
     (if truthy (s_userId (sessions w sid)) then (Inr (the (s_userId (sessions w sid))), w)
      else (Inl (UnauthorizedException LoginRequired), w))"
  by (cases "s_userId (sessions w sid)") (simp_all add: loggedInGuard_def currentUserId_def act_simps)

text \<open>When the unlocked guard lets a request pass, and what it leaves.\<close>

definition keyLive :: "jsstring \<Rightarrow> world \<Rightarrow> byte list option" where
  "keyLive sid w =
     (case keyStore w sid of
        None \<Rightarrow> None
      | Some e \<Rightarrow> if clock w \<le> ue_lastActivityAt e + ue_autoLockMinutes e * 60000 then Some (ue_key e) else None)"

lemma keyLive_cong:
  "keyStore w' sid = keyStore w sid \<Longrightarrow> clock w' = clock w \<Longrightarrow> keyLive sid w' = keyLive sid w"
  by (simp only: keyLive_def)

lemma touch_keyLive: "fst (storeTouch sid (clock w) (keyStore w)) = keyLive sid w"
  by (auto simp: storeTouch_def keyLive_def Let_def split: option.split)

lemma unlockedGuard_pass:
  "fst (unlockedGuard sid w) = Inr (userId, key) \<longleftrightarrow>
     userId \<noteq> [] \<and> s_userId (sessions w sid) = Some userId \<and> s_unlocked (sessions w sid) \<and>
     keyLive sid w = Some key"
proof -
  obtain r st where t: "storeTouch sid (clock w) (keyStore w) = (r, st)"
    by (cases "storeTouch sid (clock w) (keyStore w)")
  then have r: "keyLive sid w = r" using touch_keyLive [of sid w] by simp
  show ?thesis
    using t r by (cases "s_userId (sessions w sid)"; cases r; cases "s_unlocked (sessions w sid)")
      (auto simp: unlockedGuard_def run_loggedInGuard act_simps)
qed

lemma run_unlockedGuard:
  "unlockedGuard sid w =
     (if \<not> truthy (s_userId (sessions w sid)) then (Inl (UnauthorizedException LoginRequired), w)
      else case (s_unlocked (sessions w sid), keyLive sid w) of
         (True, Some k) \<Rightarrow>
           (Inr (the (s_userId (sessions w sid)), k),
            w\<lparr>keyStore := snd (storeTouch sid (clock w) (keyStore w))\<rparr>)
       | _ \<Rightarrow>
           (Inl (UnauthorizedException UnlockRequired),
            w\<lparr>keyStore := snd (storeTouch sid (clock w) (keyStore w)),
              sessions := (sessions w)(sid := (sessions w sid)\<lparr>s_unlocked := False\<rparr>)\<rparr>))"
proof -
  obtain r st where t: "storeTouch sid (clock w) (keyStore w) = (r, st)"
    by (cases "storeTouch sid (clock w) (keyStore w)")
  then have r: "keyLive sid w = r" using touch_keyLive [of sid w] by simp
  show ?thesis
    using t r by (cases r; cases "s_unlocked (sessions w sid)")
      (simp_all add: unlockedGuard_def run_loggedInGuard act_simps)
qed

section \<open>Preservation\<close>

lemma worldInv_keyTouch [preserves_intros]: "preserves worldInv (keyTouch sid)"
proof (rule preservesI)
  fix w r w' assume w: "worldInv w" and m: "keyTouch sid w = (r, w')"
  have "sessions w' = sessions w" "db w' = db w" "clock w' = clock w"
    "keyStore w' = snd (storeTouch sid (clock w) (keyStore w))"
    using m by (auto simp: run_keyTouch split_beta)
  moreover have "keyStoreOk (w\<lparr>keyStore := snd (storeTouch sid (clock w) (keyStore w))\<rparr>)"
    using w by (auto simp: worldInv_def keyStoreOk_def storeTouch_def Let_def split: option.splits if_splits)
  ultimately show "worldInv w'"
    using w by (simp add: worldInv_def sessionsOk_def keyStoreOk_def)
qed

lemma worldInv_keyDelete [preserves_intros]: "preserves worldInv (keyDelete sid)"
  by (auto simp: preserves_def run_keyDelete worldInv_def sessionsOk_def keyStoreOk_def storeDelete_def)

lemma worldInv_storeSet:
  assumes "worldInv w" and "s_userId (sessions w sid) \<noteq> None" and "1 \<le> m" and "m \<le> 240"
  shows "worldInv (w\<lparr>keyStore := storeSet sid key m (clock w) (keyStore w)\<rparr>)"
  using assms by (auto simp: worldInv_def sessionsOk_def keyStoreOk_def storeSet_def)

lemma worldInv_keyUpdateAutoLockMinutes:
  assumes "1 \<le> m" and "m \<le> 240"
  shows "preserves worldInv (keyUpdateAutoLockMinutes sid m)"
  using assms
  by (auto simp: preserves_def run_keyUpdateAutoLockMinutes worldInv_def sessionsOk_def keyStoreOk_def
      storeUpdateAutoLockMinutes_def split: option.split)

text \<open>Changes of a session that do not log it in or out.\<close>

lemma worldInv_setSession:
  assumes "\<And>s. s_userId (f s) = s_userId s" and "\<And>s. s_unlocked (f s) \<Longrightarrow> s_unlocked s"
  shows "preserves worldInv (setSession sid f)"
  using assms
  by (auto simp: preserves_def run_setSession worldInv_def sessionsOk_def keyStoreOk_def)

lemma worldInv_loggedInGuard [preserves_intros]: "preserves worldInv (loggedInGuard sid)"
  by (simp add: preserves_def run_loggedInGuard)

lemma worldInv_unlockedGuard [preserves_intros]: "preserves worldInv (unlockedGuard sid)"
  unfolding unlockedGuard_def
  by (intro preserves_intros worldInv_setSession) (auto split: bool.split option.split
      intro!: preserves_intros worldInv_setSession)

section \<open>Properties\<close>

text \<open>
  C10: a request passes the unlocked guard exactly when its session is logged in and flagged as
  unlocked and its key has been idle for no longer than the lock time. The handler gets the user
  and the key of that session, and passing starts a new idle period.
\<close>

theorem unlockedGuard_exact:
  "(\<exists>w'. unlockedGuard sid w = (Inr (userId, key), w') \<and>
      keyStore w' = (keyStore w)(sid := map_option (\<lambda>e. e\<lparr>ue_lastActivityAt := clock w\<rparr>) (keyStore w sid)) \<and>
      sessions w' = sessions w \<and> db w' = db w) \<longleftrightarrow>
   userId \<noteq> [] \<and> s_userId (sessions w sid) = Some userId \<and> s_unlocked (sessions w sid) \<and>
   (\<exists>e. keyStore w sid = Some e \<and> ue_key e = key \<and>
      clock w - ue_lastActivityAt e \<le> ue_autoLockMinutes e * 60000)"
  (is "?L \<longleftrightarrow> ?R")
proof
  assume ?L
  then have "fst (unlockedGuard sid w) = Inr (userId, key)" by auto
  then show ?R by (auto simp: unlockedGuard_pass keyLive_def split: option.splits if_splits)
next
  assume ?R
  then obtain e where e: "keyStore w sid = Some e" "ue_key e = key"
    and live: "clock w - ue_lastActivityAt e \<le> ue_autoLockMinutes e * 60000"
    and s: "userId \<noteq> []" "s_userId (sessions w sid) = Some userId" "s_unlocked (sessions w sid)" by blast
  have "keyLive sid w = Some key" using e live by (simp add: keyLive_def)
  then show ?L using e live s by (simp add: run_unlockedGuard storeTouch_def)
qed

text \<open>
  a request turned away for idleness or a missing key leaves its session locked: the flag is
  cleared, an overdue key is gone from memory, and from then on no request of the session passes,
  however the clock goes on, until a key is set again.
\<close>

theorem unlockedGuard_locks:
  assumes "unlockedGuard sid w = (Inl (UnauthorizedException UnlockRequired), w')"
  shows "\<not> s_unlocked (sessions w' sid) \<and>
    (\<forall>t userId key. fst (unlockedGuard sid (w'\<lparr>clock := t\<rparr>)) \<noteq> Inr (userId, key)) \<and>
    (\<forall>e. keyStore w sid = Some e \<longrightarrow> ue_lastActivityAt e + ue_autoLockMinutes e * 60000 < clock w \<longrightarrow>
       keyStore w' sid = None) \<and>
    (\<forall>t. t \<noteq> sid \<longrightarrow> sessions w' t = sessions w t \<and> keyStore w' t = keyStore w t)"
proof -
  obtain r st where t: "storeTouch sid (clock w) (keyStore w) = (r, st)"
    by (cases "storeTouch sid (clock w) (keyStore w)")
  have w': "w' = w\<lparr>keyStore := st, sessions := (sessions w)(sid := (sessions w sid)\<lparr>s_unlocked := False\<rparr>)\<rparr>"
    using assms t by (auto simp: run_unlockedGuard split: if_splits bool.splits option.splits)
  then have "\<not> s_unlocked (sessions w' sid)" by simp
  moreover from this have "fst (unlockedGuard sid (w'\<lparr>clock := t\<rparr>)) \<noteq> Inr (userId, key)" for t userId key
    by (simp add: unlockedGuard_pass)
  moreover have "keyStore w' sid = None"
    if "keyStore w sid = Some e" "ue_lastActivityAt e + ue_autoLockMinutes e * 60000 < clock w" for e
    using t w' that by (auto simp: storeTouch_def Let_def split: if_splits)
  moreover have "sessions w' u = sessions w u \<and> keyStore w' u = keyStore w u" if "u \<noteq> sid" for u
    using t w' that by (auto simp: storeTouch_def Let_def split: option.splits if_splits)
  ultimately show ?thesis by blast
qed

lemma unlockedGuard_locks_witness:
  "\<not> s_unlocked (sessions (snd (unlockedGuard (js ''s'')
     (initWorld\<lparr>sessions := (\<lambda>_. emptySession\<lparr>s_userId := Some (js ''u''), s_unlocked := True\<rparr>)\<rparr>))) (js ''s''))"
proof -
  let ?w = "initWorld\<lparr>sessions := (\<lambda>_. emptySession\<lparr>s_userId := Some (js ''u''), s_unlocked := True\<rparr>)\<rparr>"
  have "unlockedGuard (js ''s'') ?w =
      (Inl (UnauthorizedException UnlockRequired), snd (unlockedGuard (js ''s'') ?w))"
    by (simp add: run_unlockedGuard initWorld_def emptySession_def keyLive_def)
  then show ?thesis by (rule unlockedGuard_locks [THEN conjunct1])
qed



end
