(* ===== verification/Demo.thy ===== *)
theory Demo
  imports Crypto UnlockKeyStore
begin

text \<open>
  A small concrete server on the platform \<open>demoEnv\<close>, on which the witnesses of the theorems run:
  two users, a password entry of each, a trusted device, and a mail account of the first user with
  one rule and one pending candidate. The session \<open>s1\<close> of the first user is unlocked.
\<close>

definition demoSalt :: jsstring where
  "demoSalt = base64Encode (replicate 16 1)"

definition demoUserKey :: "byte list" where
  "demoUserKey = demoKey (replicate 16 1) 32 (js ''password'')"

text \<open>A payload under a key, as the server would store it.\<close>

definition demoSeal :: "jsstring \<Rightarrow> byte list \<Rightarrow> jsstring" where
  "demoSeal p key = base64Encode (randomBytes demoEnv 0 IV_LENGTH @ take 16 key @ utf8Encode p)"

definition demoUser :: "jsstring \<Rightarrow> jsstring \<Rightarrow> user_row" where
  "demoUser i sub =
     \<lparr>u_id = i, u_googleSubId = sub, u_googleEmail = js ''me'',
      u_masterPasswordHash = 104 # js ''password'', u_masterKdfSalt = demoSalt,
      u_autoLockMinutes = 15, u_createdAt = 0\<rparr>"

definition demoAccount :: "jsstring \<Rightarrow> jsstring \<Rightarrow> account_row" where
  "demoAccount i user =
     \<lparr>ac_id = i, ac_userId = user, ac_serviceName = js ''Shop'', ac_urlOrAppName = js ''shop.example'',
      ac_category = js ''etc'', ac_loginId = js ''me'', ac_encryptedPassword = demoSeal (js ''pw'') demoUserKey,
      ac_customFields = None, ac_memo = None, ac_createdAt = 0, ac_updatedAt = 0\<rparr>"

definition demoDevice :: device_row where
  "demoDevice =
     \<lparr>td_id = js ''d1'', td_userId = js ''u1'', td_deviceLabel = js ''laptop'',
      td_webauthnCredentialId = js ''c1'', td_webauthnPublicKey = base64Encode [1, 2, 3],
      td_counter = 4, td_createdAt = 0, td_lastUsedAt = None\<rparr>"

definition demoMailAccount :: email_account_row where
  "demoMailAccount =
     \<lparr>em_id = js ''e1'', em_userId = js ''u1'', em_providerType = js ''gmail'', em_displayName = js ''me'',
      em_encryptedAccessToken = demoSeal (js ''access'') (tokenKey demoEnv),
      em_encryptedRefreshToken = demoSeal (js ''refresh'') (tokenKey demoEnv),
      em_tokenExpiresAt = None, em_isActive = True, em_connectedAt = 0\<rparr>"

definition demoRule :: rule_row where
  "demoRule =
     \<lparr>ru_id = js ''r1'', ru_emailAccountId = js ''e1'', ru_logicalOperator = OpAND,
      ru_actionType = js ''delete_candidate'', ru_isActive = True, ru_createdAt = 0\<rparr>"

definition demoCondition :: condition_row where
  "demoCondition =
     \<lparr>co_id = js ''n1'', co_ruleId = js ''r1'', co_conditionType = js ''sender'',
      co_conditionValue = JObj [(js ''contains'', JStr (js ''shop''))]\<rparr>"

definition demoCandidate :: candidate_row where
  "demoCandidate =
     \<lparr>ca_id = js ''k1'', ca_ruleId = js ''r1'', ca_emailAccountId = js ''e1'',
      ca_externalMessageId = js ''m0'', ca_sender = js ''shop'', ca_subject = js ''sale'', ca_receivedAt = 1,
      ca_status = PENDING, ca_processedAt = None\<rparr>"

definition demoDb :: database where
  "demoDb =
     \<lparr>users = [demoUser (js ''u1'') (js ''g1''), demoUser (js ''u2'') (js ''g2'')],
      trustedDevices = [demoDevice],
      accounts = [demoAccount (js ''a1'') (js ''u1''), demoAccount (js ''a2'') (js ''u2'')],
      emailAccounts = [demoMailAccount], emailRules = [demoRule], ruleConditions = [demoCondition],
      emailCandidates = [demoCandidate]\<rparr>"

definition demoSession :: session_data where
  "demoSession = emptySession\<lparr>s_userId := Some (js ''u1''), s_unlocked := True\<rparr>"

definition demoWorld :: world where
  "demoWorld =
     \<lparr>db = demoDb,
      keyStore = [js ''s1'' \<mapsto> \<lparr>ue_key = demoUserKey, ue_autoLockMinutes = 15, ue_lastActivityAt = 0\<rparr>],
      sessions = (\<lambda>_. emptySession)(js ''s1'' := demoSession),
      clock = 60000, draws = 0, gmailLog = []\<rparr>"

lemmas demo_rows =
  demoUser_def demoAccount_def demoDevice_def demoMailAccount_def demoRule_def demoCondition_def
  demoCandidate_def

lemmas demo_defs = demo_rows demoDb_def demoSession_def demoWorld_def emptySession_def

lemma dbInv_demoDb: "dbInv demoDb"
  by (simp add: demoDb_def demo_rows inv_defs okTable_def user_clash_def account_clash_def)

lemma worldInv_demoWorld: "worldInv demoWorld"
  using dbInv_demoDb
  by (simp add: worldInv_def sessionsOk_def keyStoreOk_def demoWorld_def demoDb_def demo_rows
      demoSession_def emptySession_def)

lemma length_demoUserKey: "length demoUserKey = 32"
  by (simp add: demoUserKey_def length_demoKey)

lemma base64Encode_eq_Nil: "base64Encode bs = [] \<longleftrightarrow> bs = []"
  by (cases bs rule: base64Encode.cases) simp_all

lemma tokenKey_demo: "tokenKey demoEnv = replicate 32 7" "tokenKeyInit demoEnv = Inr (replicate 32 7)"
  by (simp_all add: tokenKey_def tokenKeyInit_def demoEnv_def base64Encode_eq_Nil)

lemma length_tokenKey_demo: "length (tokenKey demoEnv) = 32"
  by (simp add: tokenKey_demo)

lemma deriveKey_demo: "deriveKey demoEnv (js ''password'') demoSalt = Inr demoUserKey"
  by (simp add: deriveKey_def demoEnv_def demoSalt_def demoUserKey_def AES_256_KEY_LENGTH_def)

text \<open>A sealed payload opens under its key.\<close>

lemma demo_open:
  assumes "length key = 32" and "wellFormed p"
  shows "aesDecrypt demoEnv (demoSeal p key) key = Inr p"
proof -
  have "length (randomBytes demoEnv 0 IV_LENGTH) = IV_LENGTH"
    using randomLaw_demoEnv by (rule randomLaw_bytes)
  moreover have "length (take 16 key) = AUTH_TAG_LENGTH" using assms(1) by (simp add: AUTH_TAG_LENGTH_def)
  moreover have "gcmOpen demoEnv key iv (take 16 key) m = Some m" for iv m
    using assms(1) by (simp add: demoEnv_def)
  ultimately show ?thesis using assms(2) by (simp add: demoSeal_def aesDecrypt_layout)
qed

lemma goodPlatform_demo: "goodPlatform demoEnv"
  by (simp add: goodPlatform_def demo_laws)

end
