(* ===== verification/Auth.thy ===== *)
theory Auth
  imports Demo
begin

text \<open>
  Login and locking: \<open>auth/google-oauth.service.ts\<close>, \<open>auth/auth.service.ts\<close> and the routes of
  \<open>auth/auth.controller.ts\<close> that call them (those of WebAuthn are in the theory \<open>WebAuthn\<close>). Every
  operation is the whole handler over the state of the server, with the session it runs for as
  its first argument. The lemmas \<open>run_\<close>\<open>\<dots>\<close> give the outcome of an operation branch by branch; the
  last section shows that each of them keeps the invariant of the state.
\<close>

section \<open>Google login\<close>

definition generateState :: "env \<Rightarrow> jsstring action" where
  "generateState E = bindA nextDraw (\<lambda>n. ret (toHex (randomBytes E n 16)))"

definition buildAuthUrl :: "env \<Rightarrow> jsstring \<Rightarrow> jsstring" where
  "buildAuthUrl E state =
     generateAuthUrl E (envVar E (js ''GOOGLE_CALLBACK_URL''))
       \<lparr>ap_accessType = js ''online'', ap_prompt = None,
        ap_scope = [js ''openid'', js ''email'', js ''profile''], ap_state = state\<rparr>"

definition exchangeCodeForProfile :: "env \<Rightarrow> jsstring option \<Rightarrow> exn + google_profile" where
  "exchangeCodeForProfile E code =
     (case getToken E (envVar E (js ''GOOGLE_CALLBACK_URL'')) code of
        Inl e \<Rightarrow> Inl e
      | Inr tokens \<Rightarrow>
          if \<not> truthy (gt_idToken tokens) then Inl (Error NoIdToken)
          else
            (case verifyIdToken E (orElse (gt_idToken tokens) []) (envVar E (js ''GOOGLE_CLIENT_ID'')) of
               Inl e \<Rightarrow> Inl e
             | Inr None \<Rightarrow> Inl (Error NoGoogleProfile)
             | Inr (Some payload) \<Rightarrow>
                 if \<not> truthy (ip_sub payload) \<or> \<not> truthy (ip_email payload)
                 then Inl (Error NoGoogleProfile)
                 else Inr \<lparr>gp_sub = orElse (ip_sub payload) [], gp_email = orElse (ip_email payload) []\<rparr>))"

definition createGoogleAuthUrl :: "env \<Rightarrow> jsstring \<Rightarrow> jsstring action" where
  "createGoogleAuthUrl E sid =
     bindA (generateState E) (\<lambda>state.
     bindA (setSession sid (\<lambda>s. s\<lparr>s_oauthState := Some state\<rparr>)) (\<lambda>_.
     ret (buildAuthUrl E state)))"

datatype callback_result = LoggedIn | NeedsMasterPasswordSetup jsstring

definition handleGoogleCallback ::
  "env \<Rightarrow> jsstring \<Rightarrow> jsstring option \<Rightarrow> jsstring option \<Rightarrow> callback_result action" where
  "handleGoogleCallback E sid code state =
     bindA (session sid) (\<lambda>s.
     bindA (throwIf (\<not> truthy state \<or> state \<noteq> s_oauthState s) (BadRequestException OAuthStateMismatch)) (\<lambda>_.
     bindA (setSession sid (\<lambda>s. s\<lparr>s_oauthState := None\<rparr>)) (\<lambda>_.
     bindA (liftE (exchangeCodeForProfile E code)) (\<lambda>profile.
     bindA (dbQuery (\<lambda>d. find (\<lambda>u. u_googleSubId u = gp_sub profile) (users d))) (\<lambda>user.
       case user of
         Some u \<Rightarrow>
           bindA (setSession sid (\<lambda>s. s\<lparr>s_userId := Some (u_id u), s_unlocked := False\<rparr>)) (\<lambda>_.
           ret LoggedIn)
       | None \<Rightarrow>
           bindA (setSession sid (\<lambda>s. s\<lparr>s_pendingGoogle := Some profile\<rparr>)) (\<lambda>_.
           ret (NeedsMasterPasswordSetup (gp_email profile))))))))"

text \<open>Where the browser is sent: the step of the login page, or the page with an error.\<close>

datatype redirect = RedirectStep jsstring jsstring | RedirectError jsstring exn

definition frontendOrigin :: "env \<Rightarrow> jsstring" where
  "frontendOrigin E = orElse (envVar E (js ''FRONTEND_ORIGIN'')) (js ''http://localhost:3000'')"

definition googleStart :: "env \<Rightarrow> jsstring \<Rightarrow> jsstring action" where
  "googleStart E sid = createGoogleAuthUrl E sid"

definition googleCallback ::
  "env \<Rightarrow> jsstring \<Rightarrow> jsstring option \<Rightarrow> jsstring option \<Rightarrow> redirect action" where
  "googleCallback E sid code state =
     catchA
       (bindA (handleGoogleCallback E sid code state) (\<lambda>result.
          ret (RedirectStep (frontendOrigin E)
            (case result of NeedsMasterPasswordSetup _ \<Rightarrow> js ''setup'' | LoggedIn \<Rightarrow> js ''unlock''))))
       (\<lambda>e. ret (RedirectError (frontendOrigin E) e))"

section \<open>Master password\<close>

definition MIN_MASTER_PASSWORD_LENGTH :: nat where
  "MIN_MASTER_PASSWORD_LENGTH = 8"

definition tooShort :: "jsstring option \<Rightarrow> bool" where
  "tooShort password \<longleftrightarrow>
     \<not> truthy password \<or> length (orElse password []) < MIN_MASTER_PASSWORD_LENGTH"

text \<open>\<open>prisma.user.create\<close>: id, lock time and creation time are defaults of the schema.\<close>

definition insertUser :: "env \<Rightarrow> jsstring \<Rightarrow> jsstring \<Rightarrow> jsstring \<Rightarrow> jsstring \<Rightarrow> user_row action" where
  "insertUser E sub email hash salt =
     bindA (freshId E) (\<lambda>i.
     bindA dateNow (\<lambda>now.
       let row = \<lparr>u_id = i, u_googleSubId = sub, u_googleEmail = email, u_masterPasswordHash = hash,
                  u_masterKdfSalt = salt, u_autoLockMinutes = 15, u_createdAt = now\<rparr> in
       bindA (dbWrite (createUser row)) (\<lambda>_. ret row)))"

definition setupMasterPassword :: "env \<Rightarrow> jsstring \<Rightarrow> jsstring option \<Rightarrow> (jsstring \<times> jsstring) action" where
  "setupMasterPassword E sid password =
     bindA (session sid) (\<lambda>s.
     bindA (throwIf (truthy (s_userId s)) (ConflictException MasterPasswordAlreadySet)) (\<lambda>_.
     bindA (throwIf (s_pendingGoogle s = None) (UnauthorizedException GoogleLoginFirst)) (\<lambda>_.
     bindA (throwIf (tooShort password) (BadRequestException MasterPasswordTooShort)) (\<lambda>_.
       let pending = the (s_pendingGoogle s) in
       bindA (generateKdfSalt E) (\<lambda>salt.
       bindA (hashMasterPassword E (orElse password [])) (\<lambda>hash.
       bindA (deriveEncryptionKey E password salt) (\<lambda>key.
       bindA (insertUser E (gp_sub pending) (gp_email pending) hash salt) (\<lambda>user.
       bindA (setSession sid (\<lambda>s. s\<lparr>s_pendingGoogle := None, s_userId := Some (u_id user), s_unlocked := True\<rparr>)) (\<lambda>_.
       bindA (keySet sid key (u_autoLockMinutes user)) (\<lambda>_.
       ret (u_id user, u_googleEmail user)))))))))))"

definition findUser :: "jsstring \<Rightarrow> database \<Rightarrow> user_row option" where
  "findUser userId d = find (\<lambda>u. u_id u = userId) (users d)"

definition unlock :: "env \<Rightarrow> jsstring \<Rightarrow> jsstring \<Rightarrow> jsstring option \<Rightarrow> unit action" where
  "unlock E sid userId password =
     bindA (dbQuery (findUser userId)) (\<lambda>user.
       case user of
         None \<Rightarrow> throw (UnauthorizedException UserNotFound)
       | Some u \<Rightarrow>
           bindA (verifyMasterPassword E password (u_masterPasswordHash u)) (\<lambda>valid.
           bindA (throwIf (\<not> valid) (UnauthorizedException MasterPasswordWrong)) (\<lambda>_.
           bindA (deriveEncryptionKey E password (u_masterKdfSalt u)) (\<lambda>key.
           bindA (keySet sid key (u_autoLockMinutes u)) (\<lambda>_.
           setSession sid (\<lambda>s. s\<lparr>s_unlocked := True\<rparr>))))))"

definition lock :: "jsstring \<Rightarrow> unit action" where
  "lock sid = bindA (keyDelete sid) (\<lambda>_. setSession sid (\<lambda>s. s\<lparr>s_unlocked := False\<rparr>))"

definition logout :: "jsstring \<Rightarrow> unit action" where
  "logout sid = keyDelete sid"

definition checkStillUnlocked :: "jsstring \<Rightarrow> bool action" where
  "checkStillUnlocked sid =
     bindA (session sid) (\<lambda>s.
       if \<not> s_unlocked s then ret False
       else bindA (keyTouch sid) (\<lambda>key.
         case key of
           None \<Rightarrow> bindA (setSession sid (\<lambda>s. s\<lparr>s_unlocked := False\<rparr>)) (\<lambda>_. ret False)
         | Some _ \<Rightarrow> ret True))"

definition getSettings :: "jsstring \<Rightarrow> int action" where
  "getSettings userId =
     bindA (dbQuery (findUser userId)) (\<lambda>user.
       case user of None \<Rightarrow> throw (PrismaError P2025) | Some u \<Rightarrow> ret (u_autoLockMinutes u))"

text \<open>The minutes as the body holds them: whole numbers from 1 to 240 pass, everything else is rejected.\<close>

definition lockMinutesOf :: "json \<Rightarrow> int option" where
  "lockMinutesOf v =
     (case v of
        JNum (Fin r) \<Rightarrow>
          if \<not> isInteger (Fin r) \<or> r < 1 \<or> r > 240 then None else Some \<lfloor>r\<rfloor>
      | _ \<Rightarrow> None)"

definition updateAutoLockMinutes :: "jsstring \<Rightarrow> jsstring \<Rightarrow> json \<Rightarrow> unit action" where
  "updateAutoLockMinutes sid userId autoLockMinutes =
     (case lockMinutesOf autoLockMinutes of
        None \<Rightarrow> throw (BadRequestException AutoLockMinutesRange)
      | Some minutes \<Rightarrow>
          bindA (dbWriteR (updateUser userId (\<lambda>u. u\<lparr>u_autoLockMinutes := minutes\<rparr>))) (\<lambda>_.
          keyUpdateAutoLockMinutes sid minutes))"

section \<open>Changing the master password\<close>

text \<open>
  One round of the loop over the accounts: decrypt under the old key, encrypt under the new one,
  and write. The database stamps the time of every update of an account.
\<close>

definition reencryptAccount :: "env \<Rightarrow> byte list \<Rightarrow> byte list \<Rightarrow> account_row \<Rightarrow> unit \<Rightarrow> unit action" where
  "reencryptAccount E oldKey newKey account _ =
     bindA (decrypt E (ac_encryptedPassword account) oldKey) (\<lambda>plain.
     bindA (encrypt E plain newKey) (\<lambda>cipher.
     bindA dateNow (\<lambda>now.
     bindA (dbWriteR (updateAccount (ac_id account)
              (\<lambda>a. a\<lparr>ac_encryptedPassword := cipher, ac_updatedAt := now\<rparr>))) (\<lambda>_.
     ret ()))))"

definition deleteDevicesOf :: "jsstring \<Rightarrow> database \<Rightarrow> nat \<times> database" where
  "deleteDevicesOf userId d =
     (length (filter (\<lambda>x. td_userId x = userId) (trustedDevices d)),
      d\<lparr>trustedDevices := filter (\<lambda>x. td_userId x \<noteq> userId) (trustedDevices d)\<rparr>)"

definition changeMasterPassword ::
  "env \<Rightarrow> jsstring \<Rightarrow> jsstring \<Rightarrow> jsstring option \<Rightarrow> jsstring option \<Rightarrow> nat action" where
  "changeMasterPassword E sid userId currentPassword newPassword =
     bindA (dbQuery (findUser userId)) (\<lambda>user.
       case user of
         None \<Rightarrow> throw (UnauthorizedException UserNotFound)
       | Some u \<Rightarrow>
           bindA (verifyMasterPassword E currentPassword (u_masterPasswordHash u)) (\<lambda>valid.
           bindA (throwIf (\<not> valid) (UnauthorizedException CurrentMasterPasswordWrong)) (\<lambda>_.
           bindA (throwIf (tooShort newPassword) (BadRequestException MasterPasswordTooShort)) (\<lambda>_.
           bindA (deriveEncryptionKey E currentPassword (u_masterKdfSalt u)) (\<lambda>oldKey.
           bindA (generateKdfSalt E) (\<lambda>newKdfSalt.
           bindA (hashMasterPassword E (orElse newPassword [])) (\<lambda>newHash.
           bindA (deriveEncryptionKey E newPassword newKdfSalt) (\<lambda>newKey.
           bindA (dbQuery (\<lambda>d. filter (\<lambda>a. ac_userId a = userId) (accounts d))) (\<lambda>rows.
           bindA (transaction
             (bindA (foldA (reencryptAccount E oldKey newKey) rows ()) (\<lambda>_.
              bindA (dbWriteR (updateUser userId
                       (\<lambda>x. x\<lparr>u_masterPasswordHash := newHash, u_masterKdfSalt := newKdfSalt\<rparr>))) (\<lambda>_.
              dbWriteAll (deleteDevicesOf userId))))) (\<lambda>revokedDevices.
           bindA (keySet sid newKey (u_autoLockMinutes u)) (\<lambda>_.
           bindA (setSession sid (\<lambda>s. s\<lparr>s_unlocked := True\<rparr>)) (\<lambda>_.
           ret revokedDevices))))))))))))"

section \<open>Routes\<close>

definition setupRoute :: "env \<Rightarrow> jsstring \<Rightarrow> jsstring option \<Rightarrow> (jsstring \<times> jsstring) action" where
  "setupRoute E sid password = setupMasterPassword E sid password"

definition changeRoute :: "env \<Rightarrow> jsstring \<Rightarrow> jsstring option \<Rightarrow> jsstring option \<Rightarrow> nat action" where
  "changeRoute E sid currentPassword newPassword =
     bindA (unlockedGuard sid) (\<lambda>(userId, _). changeMasterPassword E sid userId currentPassword newPassword)"

definition unlockRoute :: "env \<Rightarrow> jsstring \<Rightarrow> jsstring option \<Rightarrow> unit action" where
  "unlockRoute E sid password = bindA (loggedInGuard sid) (\<lambda>userId. unlock E sid userId password)"

definition lockRoute :: "jsstring \<Rightarrow> unit action" where
  "lockRoute sid = bindA (loggedInGuard sid) (\<lambda>_. lock sid)"

text \<open>\<open>req.session.destroy\<close> drops all data of the session.\<close>

definition logoutRoute :: "jsstring \<Rightarrow> unit action" where
  "logoutRoute sid = bindA (logout sid) (\<lambda>_. setSession sid (\<lambda>_. emptySession))"

definition meRoute :: "jsstring \<Rightarrow> (jsstring option \<times> bool) action" where
  "meRoute sid =
     bindA (loggedInGuard sid) (\<lambda>_.
     bindA (checkStillUnlocked sid) (\<lambda>unlocked.
     bindA (session sid) (\<lambda>s. ret (s_userId s, unlocked))))"

definition settingsRoute :: "jsstring \<Rightarrow> int action" where
  "settingsRoute sid = bindA (loggedInGuard sid) getSettings"

definition updateAutoLockMinutesRoute :: "jsstring \<Rightarrow> json \<Rightarrow> json action" where
  "updateAutoLockMinutesRoute sid autoLockMinutes =
     bindA (unlockedGuard sid) (\<lambda>(userId, _).
     bindA (updateAutoLockMinutes sid userId autoLockMinutes) (\<lambda>_. ret autoLockMinutes))"

section \<open>Outcomes\<close>

lemma run_googleStart:
  "googleStart E sid w =
     (let state = toHex (randomBytes E (draws w) 16) in
      (Inr (buildAuthUrl E state),
       w\<lparr>draws := Suc (draws w), sessions := (sessions w)(sid := (sessions w sid)\<lparr>s_oauthState := Some state\<rparr>)\<rparr>))"
  by (simp add: googleStart_def createGoogleAuthUrl_def generateState_def act_simps Let_def)

lemma run_insertUser:
  "insertUser E sub email hash salt w =
     (let row = \<lparr>u_id = uuid E (draws w), u_googleSubId = sub, u_googleEmail = email,
                 u_masterPasswordHash = hash, u_masterKdfSalt = salt, u_autoLockMinutes = 15,
                 u_createdAt = clock w\<rparr>;
          w1 = w\<lparr>draws := Suc (draws w)\<rparr> in
      case createUser row (db w) of
        Inl c \<Rightarrow> (Inl (PrismaError c), w1) | Inr d \<Rightarrow> (Inr row, w1\<lparr>db := d\<rparr>))"
  by (simp add: insertUser_def act_simps Let_def split: sum.split)

text \<open>The four refusals of the set-up, in the order in which they are checked.\<close>

lemma setup_refused:
  assumes "truthy (s_userId (sessions w sid)) \<or> s_pendingGoogle (sessions w sid) = None \<or> tooShort password"
  shows "setupMasterPassword E sid password w =
    (Inl (if truthy (s_userId (sessions w sid)) then ConflictException MasterPasswordAlreadySet
          else if s_pendingGoogle (sessions w sid) = None then UnauthorizedException GoogleLoginFirst
          else BadRequestException MasterPasswordTooShort), w)"
  using assms by (auto simp: setupMasterPassword_def act_simps)

lemma tooShort_iff: "\<not> tooShort password \<longleftrightarrow> (\<exists>p. password = Some p \<and> 8 \<le> length p)"
  by (cases password) (auto simp: tooShort_def MIN_MASTER_PASSWORD_LENGTH_def)

lemma run_handleGoogleCallback:
  "handleGoogleCallback E sid code state w =
     (if \<not> truthy state \<or> state \<noteq> s_oauthState (sessions w sid)
      then (Inl (BadRequestException OAuthStateMismatch), w)
      else
        (let s0 = (sessions w sid)\<lparr>s_oauthState := None\<rparr>;
             leave = (\<lambda>s. w\<lparr>sessions := (sessions w)(sid := s)\<rparr>) in
         case exchangeCodeForProfile E code of
           Inl e \<Rightarrow> (Inl e, leave s0)
         | Inr profile \<Rightarrow>
             (case find (\<lambda>u. u_googleSubId u = gp_sub profile) (users (db w)) of
                Some u \<Rightarrow> (Inr LoggedIn, leave (s0\<lparr>s_userId := Some (u_id u), s_unlocked := False\<rparr>))
              | None \<Rightarrow>
                  (Inr (NeedsMasterPasswordSetup (gp_email profile)),
                   leave (s0\<lparr>s_pendingGoogle := Some profile\<rparr>)))))"
  by (auto simp: handleGoogleCallback_def act_simps Let_def split: sum.split option.split)

lemma run_setupMasterPassword:
  assumes "\<not> truthy (s_userId (sessions w sid))" and "s_pendingGoogle (sessions w sid) = Some g"
    and "8 \<le> length p"
  shows "setupMasterPassword E sid (Some p) w =
    (let row = \<lparr>u_id = uuid E (Suc (Suc (draws w))), u_googleSubId = gp_sub g, u_googleEmail = gp_email g,
                u_masterPasswordHash = argon2Hash E ARGON2ID_OPTIONS (Suc (draws w)) p,
                u_masterKdfSalt = base64Encode (randomBytes E (draws w) 16), u_autoLockMinutes = 15,
                u_createdAt = clock w\<rparr>;
         w1 = w\<lparr>draws := Suc (Suc (Suc (draws w)))\<rparr> in
     case deriveKey E p (base64Encode (randomBytes E (draws w) 16)) of
       Inl e \<Rightarrow> (Inl e, w\<lparr>draws := Suc (Suc (draws w))\<rparr>)
     | Inr key \<Rightarrow>
         (case createUser row (db w) of
            Inl c \<Rightarrow> (Inl (PrismaError c), w1)
          | Inr d \<Rightarrow>
              (Inr (u_id row, gp_email g),
               w1\<lparr>db := d,
                  sessions := (sessions w)(sid := (sessions w sid)\<lparr>s_pendingGoogle := None,
                    s_userId := Some (u_id row), s_unlocked := True\<rparr>),
                  keyStore := storeSet sid key 15 (clock w) (keyStore w)\<rparr>)))"
proof -
  have "\<not> tooShort (Some p)" using assms(3) tooShort_iff [of "Some p"] by simp
  then show ?thesis using assms
    by (simp add: setupMasterPassword_def run_insertUser act_simps Let_def split: sum.split)
qed

lemma run_unlock:
  "unlock E sid userId password w =
     (case findUser userId (db w) of
        None \<Rightarrow> (Inl (UnauthorizedException UserNotFound), w)
      | Some u \<Rightarrow>
          (case password of
             None \<Rightarrow> (Inl TypeError, w)
           | Some p \<Rightarrow>
               if \<not> argon2Verify E (u_masterPasswordHash u) p
               then (Inl (UnauthorizedException MasterPasswordWrong), w)
               else (case deriveKey E p (u_masterKdfSalt u) of
                   Inl e \<Rightarrow> (Inl e, w)
                 | Inr key \<Rightarrow>
                     (Inr (), w\<lparr>keyStore := storeSet sid key (u_autoLockMinutes u) (clock w) (keyStore w),
                                 sessions := (sessions w)(sid := (sessions w sid)\<lparr>s_unlocked := True\<rparr>)\<rparr>))))"
  by (cases "findUser userId (db w)"; cases password)
    (simp_all add: unlock_def act_simps split: sum.split)

lemma run_checkStillUnlocked:
  "checkStillUnlocked sid w =
     (if \<not> s_unlocked (sessions w sid) then (Inr False, w)
      else (let w1 = w\<lparr>keyStore := snd (storeTouch sid (clock w) (keyStore w))\<rparr> in
        case keyLive sid w of
          None \<Rightarrow> (Inr False, w1\<lparr>sessions := (sessions w)(sid := (sessions w sid)\<lparr>s_unlocked := False\<rparr>)\<rparr>)
        | Some _ \<Rightarrow> (Inr True, w1)))"
proof -
  obtain r st where t: "storeTouch sid (clock w) (keyStore w) = (r, st)"
    by (cases "storeTouch sid (clock w) (keyStore w)")
  then have "keyLive sid w = r" using touch_keyLive [of sid w] by simp
  then show ?thesis using t by (cases r) (simp_all add: checkStillUnlocked_def act_simps)
qed

lemma lockMinutesOf_iff:
  "lockMinutesOf v = Some m \<longleftrightarrow> v = JNum (Fin (of_int m)) \<and> 1 \<le> m \<and> m \<le> 240"
proof (cases "\<exists>r. v = JNum (Fin r)")
  case True
  then obtain r where v: "v = JNum (Fin r)" by blast
  show ?thesis
  proof (cases "isInteger (Fin r)")
    case True
    then obtain k where k: "r = of_int k" using isInteger.simps(1) by metis
    have "(of_int k :: rat) < 1 \<longleftrightarrow> k < 1" and "(of_int k :: rat) > 240 \<longleftrightarrow> k > 240"
      by (simp, metis of_int_less_iff of_int_numeral)
    then show ?thesis by (auto simp: lockMinutesOf_def v k)
  next
    case False
    then have "r \<noteq> of_int m" by auto
    then show ?thesis using False by (simp add: lockMinutesOf_def v)
  qed
next
  case False
  then show ?thesis
    by (auto simp: lockMinutesOf_def split: json.split jsnum.split)
qed

lemma findUser_D: "findUser userId d = Some u \<Longrightarrow> u \<in> set (users d) \<and> u_id u = userId"
  by (auto simp: findUser_def dest: find_Some_D)

section \<open>The change of the master password\<close>

text \<open>
  The row a round of the loop leaves, and the outcome of the whole loop: every row it visits
  carries the new ciphertext, all else is as before.
\<close>

definition rewritten :: "(jsstring \<Rightarrow> jsstring) \<Rightarrow> int \<Rightarrow> jsstring set \<Rightarrow> account_row \<Rightarrow> account_row" where
  "rewritten c now ids a =
     (if ac_id a \<in> ids then a\<lparr>ac_encryptedPassword := c (ac_id a), ac_updatedAt := now\<rparr> else a)"

lemma rewritten_simps [simp]:
  "ac_id (rewritten c now ids a) = ac_id a" "ac_userId (rewritten c now ids a) = ac_userId a"
  "ac_urlOrAppName (rewritten c now ids a) = ac_urlOrAppName a" "ac_loginId (rewritten c now ids a) = ac_loginId a"
  by (simp_all add: rewritten_def)

lemma find_id_map:
  assumes "k \<in> ac_id ` set t"
  obtains r where "find (\<lambda>a. ac_id a = k) t = Some r"
  using assms by (cases "find (\<lambda>a. ac_id a = k) t") (auto dest: find_None_D)

lemma run_reencryptAccount:
  assumes "okTable account_clash (accounts (db w))" and "ac_userId ` set (accounts (db w)) \<subseteq> u_id ` set (users (db w))"
    and "ac_id a \<in> ac_id ` set (accounts (db w))"
    and "aesDecrypt E (ac_encryptedPassword a) oldKey = Inr p" and "aesEncrypt E (draws w) p newKey = Inr c"
  shows "reencryptAccount E oldKey newKey a u w =
    (Inr (), w\<lparr>db := (db w)\<lparr>accounts := map (rewritten (\<lambda>_. c) (clock w) {ac_id a}) (accounts (db w))\<rparr>,
               draws := Suc (draws w)\<rparr>)"
proof -
  obtain r where r: "find (\<lambda>x. ac_id x = ac_id a) (accounts (db w)) = Some r"
    by (rule find_id_map [OF assms(3)])
  show ?thesis
    using assms(4,5)
    by (simp add: reencryptAccount_def act_simps updateAccount_ok [OF assms(1,2) r] rewritten_def cong: if_cong)
qed

lemma run_reencryptAll:
  assumes "goodPlatform E" and "length newKey = 32"
    and "okTable account_clash (accounts (db w))" and "ac_userId ` set (accounts (db w)) \<subseteq> u_id ` set (users (db w))"
    and "ac_id ` set rows \<subseteq> ac_id ` set (accounts (db w))" and "distinct (map ac_id rows)"
    and "\<forall>a \<in> set rows. \<exists>p. aesDecrypt E (ac_encryptedPassword a) oldKey = Inr p"
  shows "\<exists>c n. foldA (reencryptAccount E oldKey newKey) rows () w =
      (Inr (), w\<lparr>db := (db w)\<lparr>accounts := map (rewritten c (clock w) (ac_id ` set rows)) (accounts (db w))\<rparr>, draws := n\<rparr>) \<and>
    (\<forall>a \<in> set rows. \<exists>p m. aesDecrypt E (ac_encryptedPassword a) oldKey = Inr p \<and>
       aesEncrypt E m p newKey = Inr (c (ac_id a)))"
  using assms(3-)
proof (induction rows arbitrary: w)
  case Nil
  have "map (rewritten (\<lambda>_. []) (clock w) {}) (accounts (db w)) = accounts (db w)"
    by (rule map_idI) (simp add: rewritten_def)
  then show ?case
    by (intro exI [of _ "\<lambda>_. []"] exI [of _ "draws w"]) (simp add: act_simps)
next
  case (Cons a rows)
  obtain p where p: "aesDecrypt E (ac_encryptedPassword a) oldKey = Inr p" using Cons.prems(5) by auto
  obtain c where c: "aesEncrypt E (draws w) p newKey = Inr c" using aes.enc_total assms(1,2) by blast
  let ?t = "map (rewritten (\<lambda>_. c) (clock w) {ac_id a}) (accounts (db w))"
  let ?w = "w\<lparr>db := (db w)\<lparr>accounts := ?t\<rparr>, draws := Suc (draws w)\<rparr>"
  have step: "reencryptAccount E oldKey newKey a () w = (Inr (), ?w)"
    using Cons.prems p c by (intro run_reencryptAccount) auto
  have "okTable account_clash ?t"
    using Cons.prems(1) by (rule okTable_map) (simp add: account_clash_def)
  moreover have "ac_userId ` set ?t = ac_userId ` set (accounts (db w))" "ac_id ` set ?t = ac_id ` set (accounts (db w))"
    by (simp_all add: image_image)
  ultimately obtain c' n where
    loop: "foldA (reencryptAccount E oldKey newKey) rows () ?w =
      (Inr (), ?w\<lparr>db := (db ?w)\<lparr>accounts := map (rewritten c' (clock ?w) (ac_id ` set rows)) (accounts (db ?w))\<rparr>, draws := n\<rparr>)"
    and enc: "\<forall>a \<in> set rows. \<exists>p m. aesDecrypt E (ac_encryptedPassword a) oldKey = Inr p \<and>
       aesEncrypt E m p newKey = Inr (c' (ac_id a))"
    using Cons.IH [of ?w] Cons.prems by auto
  let ?c = "c'(ac_id a := c)"
  have new: "ac_id a \<notin> ac_id ` set rows" using Cons.prems(4) by simp
  then have "rewritten c' (clock w) (ac_id ` set rows) (rewritten (\<lambda>_. c) (clock w) {ac_id a} x) =
      rewritten ?c (clock w) (ac_id ` set (a # rows)) x" for x
    by (auto simp: rewritten_def)
  then have "foldA (reencryptAccount E oldKey newKey) (a # rows) () w =
      (Inr (), w\<lparr>db := (db w)\<lparr>accounts := map (rewritten ?c (clock w) (ac_id ` set (a # rows))) (accounts (db w))\<rparr>, draws := n\<rparr>)"
    using loop by (simp add: run_bindA step o_def)
  moreover have "\<forall>b \<in> set (a # rows). \<exists>p m. aesDecrypt E (ac_encryptedPassword b) oldKey = Inr p \<and>
       aesEncrypt E m p newKey = Inr (?c (ac_id b))"
  proof
    fix b assume "b \<in> set (a # rows)"
    then consider "b = a" | "b \<in> set rows" by auto
    then show "\<exists>p m. aesDecrypt E (ac_encryptedPassword b) oldKey = Inr p \<and>
       aesEncrypt E m p newKey = Inr (?c (ac_id b))"
    proof cases
      case 1
      then show ?thesis using p c by auto
    next
      case 2
      moreover have "ac_id b \<noteq> ac_id a" using 2 new by (metis imageI)
      ultimately show ?thesis using enc by auto
    qed
  qed
  ultimately show ?case by blast
qed

lemma dbInv_rewritten: "dbInv d \<Longrightarrow> dbInv (d\<lparr>accounts := map (rewritten c now ids) (accounts d)\<rparr>)"
  using dbInv_refs(2) [of d]
  by (intro dbInv_setAccounts okTable_map dbInv_tables) (auto simp: account_clash_def)

lemma run_changeMasterPassword:
  fixes E :: env and w :: world and u :: user_row and userId :: jsstring
  defines "salt \<equiv> base64Encode (randomBytes E (draws w) 16)"
    and "hash new \<equiv> argon2Hash E ARGON2ID_OPTIONS (Suc (draws w)) new"
    and "mine \<equiv> filter (\<lambda>a. ac_userId a = userId) (accounts (db w))"
  assumes "goodPlatform E" and "dbInv (db w)" and "findUser userId (db w) = Some u"
    and "argon2Verify E (u_masterPasswordHash u) cur" and "8 \<le> length new"
    and "deriveKey E cur (u_masterKdfSalt u) = Inr oldKey"
    and "deriveKey E new salt = Inr newKey" and "length newKey = 32"
    and "\<forall>a \<in> set mine. \<exists>p. aesDecrypt E (ac_encryptedPassword a) oldKey = Inr p"
  shows "\<exists>c n. changeMasterPassword E sid userId (Some cur) (Some new) w =
      (Inr (length (filter (\<lambda>x. td_userId x = userId) (trustedDevices (db w)))),
       w\<lparr>db := (db w)\<lparr>accounts := map (rewritten c (clock w) (ac_id ` set mine)) (accounts (db w)),
           users := map (\<lambda>x. if u_id x = userId then x\<lparr>u_masterPasswordHash := hash new, u_masterKdfSalt := salt\<rparr>
                             else x) (users (db w)),
           trustedDevices := filter (\<lambda>x. td_userId x \<noteq> userId) (trustedDevices (db w))\<rparr>,
         draws := n, keyStore := storeSet sid newKey (u_autoLockMinutes u) (clock w) (keyStore w),
         sessions := (sessions w)(sid := (sessions w sid)\<lparr>s_unlocked := True\<rparr>)\<rparr>) \<and>
    (\<forall>a \<in> set mine. \<exists>p m. aesDecrypt E (ac_encryptedPassword a) oldKey = Inr p \<and>
       aesEncrypt E m p newKey = Inr (c (ac_id a)))"
proof -
  let ?w = "w\<lparr>draws := Suc (Suc (draws w))\<rparr>"
  have "distinct (map ac_id mine)"
    unfolding mine_def using account_table.ok_distinct [OF dbInv_tables(3) [OF assms(5)]]
    by (simp add: distinct_map_filter)
  moreover have "ac_id ` set mine \<subseteq> ac_id ` set (accounts (db w))" by (auto simp: mine_def)
  ultimately have "\<exists>c n. foldA (reencryptAccount E oldKey newKey) mine () ?w =
      (Inr (), ?w\<lparr>db := (db ?w)\<lparr>accounts := map (rewritten c (clock ?w) (ac_id ` set mine)) (accounts (db ?w))\<rparr>, draws := n\<rparr>) \<and>
    (\<forall>a \<in> set mine. \<exists>p m. aesDecrypt E (ac_encryptedPassword a) oldKey = Inr p \<and>
       aesEncrypt E m p newKey = Inr (c (ac_id a)))"
    using assms(4,11,12) dbInv_tables(3) [OF assms(5)] dbInv_refs(2) [OF assms(5)]
    by (intro run_reencryptAll) simp_all
  then obtain c n where loop: "foldA (reencryptAccount E oldKey newKey) mine () ?w =
      (Inr (), ?w\<lparr>db := (db ?w)\<lparr>accounts := map (rewritten c (clock ?w) (ac_id ` set mine)) (accounts (db ?w))\<rparr>, draws := n\<rparr>)"
    and enc: "\<forall>a \<in> set mine. \<exists>p m. aesDecrypt E (ac_encryptedPassword a) oldKey = Inr p \<and>
       aesEncrypt E m p newKey = Inr (c (ac_id a))"
    by blast
  let ?d = "(db w)\<lparr>accounts := map (rewritten c (clock w) (ac_id ` set mine)) (accounts (db w))\<rparr>"
  have "find (\<lambda>u. u_id u = userId) (users ?d) = Some u" using assms(6) by (simp add: findUser_def)
  then have user: "updateUser userId (\<lambda>x. x\<lparr>u_masterPasswordHash := hash new, u_masterKdfSalt := salt\<rparr>) ?d =
      Inr (u\<lparr>u_masterPasswordHash := hash new, u_masterKdfSalt := salt\<rparr>,
        ?d\<lparr>users := map (\<lambda>x. if u_id x = userId then x\<lparr>u_masterPasswordHash := hash new, u_masterKdfSalt := salt\<rparr>
                             else x) (users ?d)\<rparr>)"
    by (intro updateUser_ok dbInv_rewritten assms(5)) simp_all
  have short: "\<not> tooShort (Some new)" using assms(8) tooShort_iff [of "Some new"] by simp
  show ?thesis
    using assms(6,7,9,10) loop user short enc unfolding salt_def hash_def
    by (intro exI [of _ c] exI [of _ n])
      (simp add: changeMasterPassword_def act_simps deleteDevicesOf_def flip: mine_def)
qed

lemma changeMasterPassword_fails:
  assumes "changeMasterPassword E sid userId cur new w = (Inl e, w')"
  shows "w' = w\<lparr>draws := draws w'\<rparr>"
proof -
  have tx: "preserves (onlyDb w0)
      (bindA (foldA (reencryptAccount E oldKey newKey) rows ()) (\<lambda>_.
       bindA (dbWriteR (updateUser userId f)) (\<lambda>_. dbWriteAll (deleteDevicesOf userId))))"
    for w0 oldKey newKey rows f
    unfolding reencryptAccount_def by (intro preserves_intros)
  note fails = transaction_fails [OF tx]
  show ?thesis using assms
    by (cases "findUser userId (db w)"; cases cur; cases new)
      (auto simp: changeMasterPassword_def act_simps(1-11) run_keySet run_setSession run_dbQuery
         run_verifyMasterPassword run_deriveEncryptionKey run_generateKdfSalt run_hashMasterPassword
       split: if_splits sum.splits prod.splits dest: fails)
qed

section \<open>The invariant\<close>

lemma worldInv_session:
  assumes "worldInv w"
    and "s_userId s = s_userId (sessions w sid) \<or> (\<exists>u \<in> set (users (db w)). s_userId s = Some (u_id u))"
    and "s_unlocked s \<Longrightarrow> s_unlocked (sessions w sid) \<or> s_userId s \<noteq> None"
  shows "worldInv (w\<lparr>sessions := (sessions w)(sid := s)\<rparr>)"
  using assms by (auto simp: worldInv_def sessionsOk_def keyStoreOk_def)

lemma worldInv_generateState [preserves_intros]: "preserves worldInv (generateState E)"
  unfolding generateState_def by (intro preserves_intros)

lemma worldInv_googleStart [preserves_intros]: "preserves worldInv (googleStart E sid)"
  unfolding googleStart_def createGoogleAuthUrl_def
  by (intro preserves_intros worldInv_setSession) simp_all

lemma worldInv_handleGoogleCallback [preserves_intros]: "preserves worldInv (handleGoogleCallback E sid code state)"
  unfolding preserves_def run_handleGoogleCallback
  by (auto simp: Let_def split: sum.split option.split intro!: worldInv_session dest: find_Some_D)

lemma worldInv_googleCallback [preserves_intros]: "preserves worldInv (googleCallback E sid code state)"
  unfolding googleCallback_def by (intro preserves_intros)

lemma worldInv_setupMasterPassword [preserves_intros]: "preserves worldInv (setupMasterPassword E sid password)"
proof (rule preservesI)
  fix w r w' assume w: "worldInv w" and m: "setupMasterPassword E sid password w = (r, w')"
  show "worldInv w'"
  proof (cases "truthy (s_userId (sessions w sid)) \<or> s_pendingGoogle (sessions w sid) = None \<or> tooShort password")
    case True
    then show ?thesis using w m by (simp add: setup_refused)
  next
    case False
    then obtain g p where g: "s_pendingGoogle (sessions w sid) = Some g" and p: "password = Some p" "8 \<le> length p"
      using tooShort_iff by auto
    note run = run_setupMasterPassword [OF _ g p(2), of E]
    show ?thesis
    proof (cases "w' = w\<lparr>draws := draws w'\<rparr>")
      case True
      then show ?thesis using w by (metis worldInv_draws)
    next
      case same: False
      define row where "row = \<lparr>u_id = uuid E (Suc (Suc (draws w))), u_googleSubId = gp_sub g, u_googleEmail = gp_email g,
                u_masterPasswordHash = argon2Hash E ARGON2ID_OPTIONS (Suc (draws w)) p,
                u_masterKdfSalt = base64Encode (randomBytes E (draws w) 16), u_autoLockMinutes = 15,
                u_createdAt = clock w\<rparr>"
      obtain key d where d: "createUser row (db w) = Inr d"
        and w': "w' = w\<lparr>draws := Suc (Suc (Suc (draws w))), db := d,
                  sessions := (sessions w)(sid := (sessions w sid)\<lparr>s_pendingGoogle := None,
                    s_userId := Some (u_id row), s_unlocked := True\<rparr>),
                  keyStore := storeSet sid key 15 (clock w) (keyStore w)\<rparr>"
        using m run False same unfolding p(1) row_def by (auto simp: Let_def split: sum.splits)
      have "users d = users (db w) @ [row]"
        using d by (auto simp: createUser_def dest!: createRow_Inr split: sum.splits)
      moreover have "dbInv d"
        using w by (intro dbInv_createUser [OF _ d]) (simp_all add: worldInv_def row_def)
      ultimately show ?thesis using w unfolding w'
        by (auto simp: worldInv_def sessionsOk_def keyStoreOk_def storeSet_def)
    qed
  qed
qed

text \<open>Unlocking is for a session that is logged in, which its two callers see to.\<close>

lemma worldInv_unlock:
  assumes "worldInv w" and "s_userId (sessions w sid) \<noteq> None"
  shows "worldInv (snd (unlock E sid userId password w))"
proof -
  have "worldInv (w\<lparr>keyStore := storeSet sid key (u_autoLockMinutes u) (clock w) (keyStore w),
      sessions := (sessions w)(sid := (sessions w sid)\<lparr>s_unlocked := True\<rparr>)\<rparr>)"
    if "findUser userId (db w) = Some u" for u key
  proof -
    have "1 \<le> u_autoLockMinutes u" and "u_autoLockMinutes u \<le> 240"
      using findUser_D [OF that] dbInv_lockMinutes [of "db w" u] assms(1) by (auto simp: worldInv_def)
    then have *: "worldInv (w\<lparr>keyStore := storeSet sid key (u_autoLockMinutes u) (clock w) (keyStore w)\<rparr>)"
      by (intro worldInv_storeSet assms)
    show ?thesis using worldInv_session [OF *, of "(sessions w sid)\<lparr>s_unlocked := True\<rparr>" sid] assms(2) by simp
  qed
  then show ?thesis using assms(1) by (auto simp: run_unlock split: option.split sum.split)
qed

lemma worldInv_unlockRoute [preserves_intros]: "preserves worldInv (unlockRoute E sid password)"
proof (rule preservesI)
  fix w r w' assume w: "worldInv w" and m: "unlockRoute E sid password w = (r, w')"
  show "worldInv w'"
  proof (cases "truthy (s_userId (sessions w sid))")
    case True
    then have "s_userId (sessions w sid) \<noteq> None" by (cases "s_userId (sessions w sid)") auto
    from worldInv_unlock [OF w this] show ?thesis
      using m True by (simp add: unlockRoute_def run_bindA run_loggedInGuard) (metis snd_conv)
  next
    case False
    then show ?thesis using m w by (simp add: unlockRoute_def run_bindA run_loggedInGuard)
  qed
qed

lemma worldInv_lock [preserves_intros]: "preserves worldInv (lock sid)"
  unfolding lock_def by (intro preserves_intros worldInv_setSession) simp_all

lemma worldInv_lockRoute [preserves_intros]: "preserves worldInv (lockRoute sid)"
  unfolding lockRoute_def by (intro preserves_intros)

lemma worldInv_logoutRoute [preserves_intros]: "preserves worldInv (logoutRoute sid)"
  by (auto simp: preserves_def logoutRoute_def logout_def act_simps worldInv_def sessionsOk_def keyStoreOk_def
      storeDelete_def emptySession_def)

lemma worldInv_checkStillUnlocked [preserves_intros]: "preserves worldInv (checkStillUnlocked sid)"
  unfolding checkStillUnlocked_def by (intro preserves_intros worldInv_setSession) simp_all

lemma worldInv_meRoute [preserves_intros]: "preserves worldInv (meRoute sid)"
  unfolding meRoute_def by (intro preserves_intros)

lemma worldInv_settingsRoute [preserves_intros]: "preserves worldInv (settingsRoute sid)"
  unfolding settingsRoute_def getSettings_def by (intro preserves_intros)

lemma users_updateUser:
  assumes "dbInv d" and "updateUser k f d = Inr (r, d')"
    and "\<And>x. u_id (f x) = u_id x" and "\<And>x. 1 \<le> u_autoLockMinutes (f x) \<and> u_autoLockMinutes (f x) \<le> 240 \<or>
      u_autoLockMinutes (f x) = u_autoLockMinutes x"
  shows "dbInv d' \<and> u_id ` set (users d) \<subseteq> u_id ` set (users d')"
proof -
  obtain t where t: "updateRow user_clash (\<lambda>u. u_id u = k) f (users d) = Inr (r, t)" and d': "d' = d\<lparr>users := t\<rparr>"
    using assms(2) by (auto simp: updateUser_def split: sum.splits)
  have m: "t = map (\<lambda>u. if u_id u = k then f u else u) (users d)" using t by (auto elim: updateRow_Inr)
  have ids: "u_id ` set t = u_id ` set (users d)" unfolding m by (rule image_update_key) (rule assms(3))
  have "\<forall>u \<in> set t. 1 \<le> u_autoLockMinutes u \<and> u_autoLockMinutes u \<le> 240"
    using assms(4) dbInv_lockMinutes [OF assms(1)] by (fastforce simp: m)
  then have "dbInv d'" unfolding d'
    by (intro dbInv_setUsers assms(1) user_table.ok_update [OF dbInv_tables(1) t]) (simp_all add: ids assms(1))
  then show ?thesis using ids by (simp add: d')
qed

lemma worldInv_updateAutoLockMinutes [preserves_intros]:
  "preserves worldInv (updateAutoLockMinutes sid userId v)"
proof (cases "lockMinutesOf v")
  case None
  then show ?thesis by (simp add: updateAutoLockMinutes_def preserves_intros)
next
  case (Some m)
  then have m: "1 \<le> m" "m \<le> 240" by (simp_all add: lockMinutesOf_iff)
  then have "preserves worldInv (dbWriteR (updateUser userId (\<lambda>u. u\<lparr>u_autoLockMinutes := m\<rparr>)))"
    by (intro worldInv_dbWriteR) (rule users_updateUser, assumption+, simp_all)
  then show ?thesis using m Some
    by (simp add: updateAutoLockMinutes_def) (intro preserves_intros worldInv_keyUpdateAutoLockMinutes)
qed

lemma worldInv_updateAutoLockMinutesRoute [preserves_intros]:
  "preserves worldInv (updateAutoLockMinutesRoute sid v)"
  unfolding updateAutoLockMinutesRoute_def by (intro preserves_intros)

lemma worldInv_reencryptAccount [preserves_intros]:
  "preserves worldInv (reencryptAccount E oldKey newKey a u)"
proof -
  have "users d' = users d" if "updateAccount k f d = Inr (r, d')" for k f d r d'
    using that by (auto simp: updateAccount_def split: sum.splits if_splits)
  then have "preserves worldInv (dbWriteR (updateAccount k f))" for k f
    by (intro worldInv_dbWriteR) (auto dest: dbInv_updateAccount)
  then show ?thesis unfolding reencryptAccount_def by (intro preserves_intros)
qed

lemma worldInv_deleteDevicesOf [preserves_intros]: "preserves worldInv (dbWriteAll (deleteDevicesOf k))"
  by (rule worldInv_dbWriteAll) (auto simp: deleteDevicesOf_def dbInv_deleteDevicesOf)

text \<open>The transaction of the change as an action of its own.\<close>

definition changeBody :: "env \<Rightarrow> byte list \<Rightarrow> byte list \<Rightarrow> account_row list \<Rightarrow> jsstring \<Rightarrow> jsstring \<Rightarrow> jsstring \<Rightarrow> nat action" where
  "changeBody E oldKey newKey rows userId hash salt =
     bindA (foldA (reencryptAccount E oldKey newKey) rows ()) (\<lambda>_.
     bindA (dbWriteR (updateUser userId (\<lambda>x. x\<lparr>u_masterPasswordHash := hash, u_masterKdfSalt := salt\<rparr>))) (\<lambda>_.
     dbWriteAll (deleteDevicesOf userId)))"

lemma changeBody_inv: "preserves worldInv (changeBody E oldKey newKey rows userId hash salt)"
proof -
  have "preserves worldInv (dbWriteR (updateUser userId
      (\<lambda>x. x\<lparr>u_masterPasswordHash := hash, u_masterKdfSalt := salt\<rparr>)))"
    by (intro worldInv_dbWriteR) (rule users_updateUser, assumption+, simp_all)
  then show ?thesis unfolding changeBody_def by (intro preserves_intros)
qed

lemma changeBody_onlyDb: "preserves (onlyDb w0) (changeBody E oldKey newKey rows userId hash salt)"
  unfolding changeBody_def reencryptAccount_def by (intro preserves_intros)

lemma changeMasterPassword_succeeds:
  assumes "changeMasterPassword E sid userId cur new w = (Inr n, w')"
  obtains u p oldKey newKey rows salt w2 where "findUser userId (db w) = Some u" and "new = Some p"
    and "deriveKey E p salt = Inr newKey"
    and "changeBody E oldKey newKey rows userId (argon2Hash E ARGON2ID_OPTIONS (Suc (draws w)) p) salt
           (w\<lparr>draws := Suc (Suc (draws w))\<rparr>) = (Inr n, w2)"
    and "w' = w2\<lparr>keyStore := storeSet sid newKey (u_autoLockMinutes u) (clock w2) (keyStore w2),
                 sessions := (sessions w2)(sid := (sessions w2 sid)\<lparr>s_unlocked := True\<rparr>)\<rparr>"
  using assms
  by (cases "findUser userId (db w)"; cases cur; cases new)
    (auto simp: changeMasterPassword_def act_simps(1-11) run_keySet run_setSession run_dbQuery
         run_verifyMasterPassword run_deriveEncryptionKey run_generateKdfSalt run_hashMasterPassword
         run_transaction simp flip: changeBody_def split: if_splits sum.splits prod.splits)

lemma worldInv_changeMasterPassword:
  assumes w: "worldInv w" and "s_userId (sessions w sid) \<noteq> None"
    and m: "changeMasterPassword E sid userId cur new w = (r, w')"
  shows "worldInv w'"
proof (cases r)
  case (Inl e)
  then have "w' = w\<lparr>draws := draws w'\<rparr>" using m by (intro changeMasterPassword_fails) simp
  then show ?thesis using w by (metis worldInv_draws)
next
  case (Inr n)
  let ?w = "w\<lparr>draws := Suc (Suc (draws w))\<rparr>"
  obtain u p oldKey newKey rows salt w2 where u: "findUser userId (db w) = Some u"
    and "new = Some p" and "deriveKey E p salt = Inr newKey"
    and b: "changeBody E oldKey newKey rows userId (argon2Hash E ARGON2ID_OPTIONS (Suc (draws w)) p) salt ?w = (Inr n, w2)"
    and w': "w' = w2\<lparr>keyStore := storeSet sid newKey (u_autoLockMinutes u) (clock w2) (keyStore w2),
                 sessions := (sessions w2)(sid := (sessions w2 sid)\<lparr>s_unlocked := True\<rparr>)\<rparr>"
    by (rule changeMasterPassword_succeeds [OF m [unfolded Inr]])
  have w2: "worldInv w2" using w by (intro preservesD [OF changeBody_inv _ b]) simp
  have "onlyDb ?w w2" by (rule preservesD [OF changeBody_onlyDb onlyDb_refl b])
  then have login: "s_userId (sessions w2 sid) \<noteq> None" using assms(2) by (simp add: onlyDb_def)
  have "1 \<le> u_autoLockMinutes u" and "u_autoLockMinutes u \<le> 240"
    using findUser_D [OF u] dbInv_lockMinutes [of "db w" u] w by (auto simp: worldInv_def)
  then have "worldInv (w2\<lparr>keyStore := storeSet sid newKey (u_autoLockMinutes u) (clock w2) (keyStore w2)\<rparr>)"
    by (intro worldInv_storeSet w2 login)
  from worldInv_session [OF this, of "(sessions w2 sid)\<lparr>s_unlocked := True\<rparr>" sid] show ?thesis
    using login by (simp add: w')
qed

lemma guard_login:
  assumes "unlockedGuard sid w = (Inr x, w')"
  shows "s_userId (sessions w' sid) \<noteq> None"
  using assms
  by (cases "s_userId (sessions w sid)")
    (auto simp: run_unlockedGuard split: if_splits bool.splits option.splits)

lemma worldInv_changeRoute [preserves_intros]: "preserves worldInv (changeRoute E sid cur new)"
proof (rule preservesI)
  fix w r w' assume w: "worldInv w" and m: "changeRoute E sid cur new w = (r, w')"
  obtain g w1 where g: "unlockedGuard sid w = (g, w1)" by (cases "unlockedGuard sid w")
  have w1: "worldInv w1" by (rule preservesD [OF worldInv_unlockedGuard w g])
  show "worldInv w'"
  proof (cases g)
    case (Inl e)
    then show ?thesis using m g w1 by (simp add: changeRoute_def run_bindA)
  next
    case (Inr x)
    obtain userId key where x: "x = (userId, key)" by (cases x)
    have "s_userId (sessions w1 sid) \<noteq> None" using g Inr by (intro guard_login) simp
    moreover have "changeMasterPassword E sid userId cur new w1 = (r, w')"
      using m g by (simp add: changeRoute_def run_bindA Inr x)
    ultimately show ?thesis by (rule worldInv_changeMasterPassword [OF w1])
  qed
qed

end
