(* ===== verification/WebAuthn.thy ===== *)
theory WebAuthn
  imports Auth
begin

text \<open>
  Trusted devices: \<open>auth/webauthn.service.ts\<close> and the WebAuthn routes of
  \<open>auth/auth.controller.ts\<close>. The signature checks belong to the library and are parameters of the
  platform; modelled is what the server does around them: the challenge kept in the session and
  used up by the next attempt, the stored key and counter, and the unlock that follows.
\<close>

section \<open>The service\<close>

definition RP_NAME :: "env \<Rightarrow> jsstring" where
  "RP_NAME E = orElse (envVar E (js ''WEBAUTHN_RP_NAME''))
     [53685, 54633, 32, 44228, 51221, 44288, 47532, 32, 54532, 47196, 44536, 47016]"

definition RP_ID :: "env \<Rightarrow> jsstring" where
  "RP_ID E = orElse (envVar E (js ''WEBAUTHN_RP_ID'')) (js ''localhost'')"

definition RP_ORIGIN :: "env \<Rightarrow> jsstring" where
  "RP_ORIGIN E = orElse (envVar E (js ''WEBAUTHN_RP_ORIGIN'')) (js ''http://localhost:3000'')"

definition createRegistrationOptions :: "env \<Rightarrow> jsstring \<Rightarrow> webauthn_options action" where
  "createRegistrationOptions E userId =
     bindA (dbQuery (findUser userId)) (\<lambda>user.
       case user of
         None \<Rightarrow> throw (PrismaError P2025)
       | Some u \<Rightarrow>
           bindA (dbQuery (\<lambda>d. filter (\<lambda>x. td_userId x = userId) (trustedDevices d))) (\<lambda>existingDevices.
           bindA nextDraw (\<lambda>n.
           ret (generateRegistrationOptions E n
             \<lparr>rp_rpName = RP_NAME E, rp_rpID = RP_ID E, rp_userName = u_googleEmail u,
              rp_userID = utf8Encode (u_id u), rp_attestationType = js ''none'',
              rp_excludeCredentials = map td_webauthnCredentialId existingDevices,
              rp_authenticatorAttachment = js ''platform'', rp_residentKey = js ''required'',
              rp_userVerification = js ''required'', rp_extensions = [js ''prf'']\<rparr>))))"

text \<open>The columns of a device that the list shows: id, label, credential id and the two times.\<close>

type_synonym device_view = "jsstring \<times> jsstring \<times> jsstring \<times> int \<times> int option"

definition listDevices :: "jsstring \<Rightarrow> device_view list action" where
  "listDevices userId =
     dbQuery (\<lambda>d. map (\<lambda>x. (td_id x, td_deviceLabel x, td_webauthnCredentialId x, td_createdAt x, td_lastUsedAt x))
       (newestFirst td_createdAt (filter (\<lambda>x. td_userId x = userId) (trustedDevices d))))"

text \<open>A missing label is an argument the database client rejects.\<close>

definition verifyRegistration ::
  "env \<Rightarrow> jsstring \<Rightarrow> jsstring option \<Rightarrow> jsstring \<Rightarrow> json \<Rightarrow> device_row action" where
  "verifyRegistration E userId deviceLabel expectedChallenge response =
     bindA (catchA (liftE (verifyRegistrationResponse E response expectedChallenge (RP_ORIGIN E) (RP_ID E)))
              (\<lambda>_. throw (UnauthorizedException RegistrationVerificationFailed))) (\<lambda>verification.
       case verification of
         None \<Rightarrow> throw (UnauthorizedException RegistrationNotVerified)
       | Some credential \<Rightarrow>
           catchA
             (case deviceLabel of
                None \<Rightarrow> throw (PrismaError PValidation)
              | Some label \<Rightarrow>
                  bindA (freshId E) (\<lambda>i.
                  bindA dateNow (\<lambda>now.
                    let row = \<lparr>td_id = i, td_userId = userId, td_deviceLabel = label,
                               td_webauthnCredentialId = wc_id credential,
                               td_webauthnPublicKey = base64Encode (wc_publicKey credential),
                               td_counter = wc_counter credential, td_createdAt = now, td_lastUsedAt = None\<rparr> in
                    bindA (dbWrite (createDevice row)) (\<lambda>_. ret row))))
             (\<lambda>e. if e = PrismaError P2002 then throw (ConflictException DeviceAlreadyRegistered) else throw e))"

definition createAuthenticationOptions :: "env \<Rightarrow> webauthn_options action" where
  "createAuthenticationOptions E =
     bindA nextDraw (\<lambda>n.
     ret (generateAuthenticationOptions E n \<lparr>au_rpID = RP_ID E, au_userVerification = js ''required''\<rparr>))"

text \<open>A body without a response makes reading its id throw.\<close>

definition verifyAuthentication :: "env \<Rightarrow> jsstring \<Rightarrow> auth_response option \<Rightarrow> device_row action" where
  "verifyAuthentication E expectedChallenge response =
     (case response of
        None \<Rightarrow> throw TypeError
      | Some r \<Rightarrow>
          bindA (dbQuery (\<lambda>d. find (\<lambda>x. td_webauthnCredentialId x = ar_id r) (trustedDevices d))) (\<lambda>found.
            case found of
              None \<Rightarrow> throw (UnauthorizedException DeviceNotRegistered)
            | Some device \<Rightarrow>
                let credential = \<lparr>wc_id = td_webauthnCredentialId device,
                                  wc_publicKey = base64Decode (td_webauthnPublicKey device),
                                  wc_counter = td_counter device\<rparr> in
                bindA (catchA (liftE (verifyAuthenticationResponse E r expectedChallenge (RP_ORIGIN E) (RP_ID E) credential))
                         (\<lambda>_. throw (UnauthorizedException AuthenticationVerificationFailed))) (\<lambda>(verified, newCounter).
                bindA (throwIf (\<not> verified) (UnauthorizedException AuthenticationNotVerified)) (\<lambda>_.
                bindA dateNow (\<lambda>now.
                bindA (dbWriteR (updateDevice (td_id device)
                         (\<lambda>x. x\<lparr>td_counter := newCounter, td_lastUsedAt := Some now\<rparr>))) (\<lambda>_.
                ret device))))))"

definition removeDevice :: "jsstring \<Rightarrow> jsstring \<Rightarrow> unit action" where
  "removeDevice userId deviceId =
     bindA (dbQuery (\<lambda>d. find (\<lambda>x. td_id x = deviceId \<and> td_userId x = userId) (trustedDevices d))) (\<lambda>device.
     bindA (throwIf (device = None) (NotFoundException TrustedDeviceNotFound)) (\<lambda>_.
     dbWrite (deleteDevice deviceId)))"

section \<open>Routes\<close>

definition webauthnDevices :: "jsstring \<Rightarrow> device_view list action" where
  "webauthnDevices sid = bindA (unlockedGuard sid) (\<lambda>(userId, _). listDevices userId)"

definition webauthnRegisterOptions :: "env \<Rightarrow> jsstring \<Rightarrow> webauthn_options action" where
  "webauthnRegisterOptions E sid =
     bindA (unlockedGuard sid) (\<lambda>(userId, _).
     bindA (createRegistrationOptions E userId) (\<lambda>options.
     bindA (setSession sid (\<lambda>s. s\<lparr>s_currentWebauthnChallenge := Some (wo_challenge options)\<rparr>)) (\<lambda>_.
     ret options)))"

text \<open>The challenge of the session, taken out of it; both verifying routes start with this.\<close>

definition takeChallenge :: "jsstring \<Rightarrow> message \<Rightarrow> jsstring action" where
  "takeChallenge sid callFirst =
     bindA (session sid) (\<lambda>s.
     bindA (throwIf (\<not> truthy (s_currentWebauthnChallenge s)) (UnauthorizedException callFirst)) (\<lambda>_.
     bindA (setSession sid (\<lambda>s. s\<lparr>s_currentWebauthnChallenge := None\<rparr>)) (\<lambda>_.
     ret (orElse (s_currentWebauthnChallenge s) []))))"

definition webauthnRegister ::
  "env \<Rightarrow> jsstring \<Rightarrow> jsstring option \<Rightarrow> json \<Rightarrow> (jsstring \<times> jsstring) action" where
  "webauthnRegister E sid deviceLabel response =
     bindA (unlockedGuard sid) (\<lambda>(userId, _).
     bindA (takeChallenge sid CallRegisterOptionsFirst) (\<lambda>expectedChallenge.
     bindA (verifyRegistration E userId deviceLabel expectedChallenge response) (\<lambda>device.
     ret (td_id device, td_deviceLabel device))))"

definition webauthnAuthenticateOptions :: "env \<Rightarrow> jsstring \<Rightarrow> webauthn_options action" where
  "webauthnAuthenticateOptions E sid =
     bindA (createAuthenticationOptions E) (\<lambda>options.
     bindA (setSession sid (\<lambda>s. s\<lparr>s_currentWebauthnChallenge := Some (wo_challenge options)\<rparr>)) (\<lambda>_.
     ret options))"

definition webauthnAuthenticate ::
  "env \<Rightarrow> jsstring \<Rightarrow> auth_response option \<Rightarrow> jsstring option \<Rightarrow> unit action" where
  "webauthnAuthenticate E sid response password =
     bindA (takeChallenge sid CallAuthenticateOptionsFirst) (\<lambda>expectedChallenge.
     bindA (verifyAuthentication E expectedChallenge response) (\<lambda>device.
     bindA (setSession sid (\<lambda>s. s\<lparr>s_userId := Some (td_userId device)\<rparr>)) (\<lambda>_.
     unlock E sid (td_userId device) password)))"

definition webauthnRemove :: "jsstring \<Rightarrow> jsstring \<Rightarrow> unit action" where
  "webauthnRemove sid deviceId =
     bindA (unlockedGuard sid) (\<lambda>(userId, _). removeDevice userId deviceId)"

section \<open>Outcomes\<close>

lemma run_takeChallenge [act_simps]:
  "takeChallenge sid m w =
     (if truthy (s_currentWebauthnChallenge (sessions w sid))
      then (Inr (the (s_currentWebauthnChallenge (sessions w sid))),
            w\<lparr>sessions := (sessions w)(sid := (sessions w sid)\<lparr>s_currentWebauthnChallenge := None\<rparr>)\<rparr>)
      else (Inl (UnauthorizedException m), w))"
  by (cases "s_currentWebauthnChallenge (sessions w sid)") (simp_all add: takeChallenge_def act_simps)

text \<open>A successful verification: the stored key and counter were used, the new counter is stored.\<close>

lemma verifyAuthentication_ok:
  assumes "dbInv (db w)" and "verifyAuthentication E ch (Some r) w = (Inr device, w')"
  shows "\<exists>n. device \<in> set (trustedDevices (db w)) \<and> td_webauthnCredentialId device = ar_id r \<and>
    verifyAuthenticationResponse E r ch (RP_ORIGIN E) (RP_ID E)
      \<lparr>wc_id = td_webauthnCredentialId device, wc_publicKey = base64Decode (td_webauthnPublicKey device),
       wc_counter = td_counter device\<rparr> = Inr (True, n) \<and>
    w' = w\<lparr>db := (db w)\<lparr>trustedDevices := map (\<lambda>x. if td_id x = td_id device
        then x\<lparr>td_counter := n, td_lastUsedAt := Some (clock w)\<rparr> else x) (trustedDevices (db w))\<rparr>\<rparr>"
proof -
  obtain d where d: "find (\<lambda>x. td_webauthnCredentialId x = ar_id r) (trustedDevices (db w)) = Some d"
    using assms(2) by (cases "find (\<lambda>x. td_webauthnCredentialId x = ar_id r) (trustedDevices (db w))")
      (simp_all add: verifyAuthentication_def act_simps)
  let ?c = "\<lparr>wc_id = td_webauthnCredentialId d, wc_publicKey = base64Decode (td_webauthnPublicKey d),
       wc_counter = td_counter d\<rparr>"
  obtain n where v: "verifyAuthenticationResponse E r ch (RP_ORIGIN E) (RP_ID E) ?c = Inr (True, n)"
    using assms(2) d
    by (cases "verifyAuthenticationResponse E r ch (RP_ORIGIN E) (RP_ID E) ?c")
      (auto simp: verifyAuthentication_def act_simps Let_def split: if_splits)
  have in_set: "d \<in> set (trustedDevices (db w))" "td_webauthnCredentialId d = ar_id r"
    using find_Some_D [OF d] by auto
  let ?f = "\<lambda>x. x\<lparr>td_counter := n, td_lastUsedAt := Some (clock w)\<rparr>"
  have "find (\<lambda>x. td_id x = td_id d) (trustedDevices (db w)) = Some d"
    by (rule device_table.ok_find [OF dbInv_tables(2) [OF assms(1)] in_set(1)])
  then have "updateDevice (td_id d) ?f (db w) = Inr (?f d,
      (db w)\<lparr>trustedDevices := map (\<lambda>x. if td_id x = td_id d then ?f x else x) (trustedDevices (db w))\<rparr>)"
    by (intro updateDevice_ok assms(1)) simp_all
  then have "device = d \<and> w' = w\<lparr>db := (db w)\<lparr>trustedDevices := map (\<lambda>x. if td_id x = td_id d then ?f x else x)
      (trustedDevices (db w))\<rparr>\<rparr>"
    using assms(2) d v by (auto simp: verifyAuthentication_def act_simps Let_def)
  then show ?thesis using v in_set by auto
qed

section \<open>The invariant\<close>

lemma worldInv_createRegistrationOptions [preserves_intros]: "preserves worldInv (createRegistrationOptions E userId)"
  unfolding createRegistrationOptions_def by (intro preserves_intros)

lemma worldInv_takeChallenge [preserves_intros]: "preserves worldInv (takeChallenge sid m)"
  unfolding takeChallenge_def by (intro preserves_intros worldInv_setSession) simp_all

lemma worldInv_createDevice [preserves_intros]: "preserves worldInv (dbWrite (createDevice r))"
proof (rule worldInv_dbWrite)
  fix d d' assume "dbInv d" and c: "createDevice r d = Inr d'"
  then show "dbInv d' \<and> u_id ` set (users d) \<subseteq> u_id ` set (users d')"
    using dbInv_createDevice by (auto simp: createDevice_def split: sum.splits if_splits)
qed

lemma worldInv_verifyRegistration [preserves_intros]:
  "preserves worldInv (verifyRegistration E userId label ch response)"
  unfolding verifyRegistration_def Let_def by (intro preserves_intros)

lemma worldInv_updateDevice:
  assumes "\<And>d. td_userId (f d) = td_userId d"
  shows "preserves worldInv (dbWriteR (updateDevice k f))"
proof (rule worldInv_dbWriteR)
  fix d d' r assume d: "dbInv d" and u: "updateDevice k f d = Inr (r, d')"
  have "dbInv d'" by (rule dbInv_updateDevice [OF d u assms])
  then show "dbInv d' \<and> u_id ` set (users d) \<subseteq> u_id ` set (users d')"
    using u by (auto simp: updateDevice_def split: sum.splits)
qed

lemma worldInv_verifyAuthentication [preserves_intros]: "preserves worldInv (verifyAuthentication E ch r)"
  unfolding verifyAuthentication_def Let_def by (intro preserves_intros worldInv_updateDevice) simp

lemma worldInv_webauthnDevices [preserves_intros]: "preserves worldInv (webauthnDevices sid)"
  unfolding webauthnDevices_def listDevices_def by (intro preserves_intros)

lemma worldInv_webauthnRegisterOptions [preserves_intros]: "preserves worldInv (webauthnRegisterOptions E sid)"
  unfolding webauthnRegisterOptions_def by (intro preserves_intros worldInv_setSession) simp_all

lemma worldInv_webauthnRegister [preserves_intros]: "preserves worldInv (webauthnRegister E sid l r)"
  unfolding webauthnRegister_def by (intro preserves_intros)

lemma worldInv_webauthnAuthenticateOptions [preserves_intros]:
  "preserves worldInv (webauthnAuthenticateOptions E sid)"
  unfolding webauthnAuthenticateOptions_def createAuthenticationOptions_def
  by (intro preserves_intros worldInv_setSession) simp_all

lemma worldInv_webauthnRemove [preserves_intros]: "preserves worldInv (webauthnRemove sid i)"
proof -
  have "preserves worldInv (dbWrite (deleteDevice k))" for k
  proof (rule worldInv_dbWrite)
    fix d d' assume "dbInv d" and "deleteDevice k d = Inr d'"
    then show "dbInv d' \<and> u_id ` set (users d) \<subseteq> u_id ` set (users d')"
      using dbInv_deleteDevice by (auto simp: deleteDevice_def split: sum.splits)
  qed
  then show ?thesis unfolding webauthnRemove_def removeDevice_def by (intro preserves_intros)
qed

text \<open>Authentication logs the session in as the owner of a device that is in the database.\<close>

lemma worldInv_webauthnAuthenticate [preserves_intros]:
  "preserves worldInv (webauthnAuthenticate E sid response password)"
proof (rule preservesI)
  fix w x w' assume w: "worldInv w" and m: "webauthnAuthenticate E sid response password w = (x, w')"
  obtain c w1 where c: "takeChallenge sid CallAuthenticateOptionsFirst w = (c, w1)"
    by (cases "takeChallenge sid CallAuthenticateOptionsFirst w")
  have w1: "worldInv w1" by (rule preservesD [OF worldInv_takeChallenge w c])
  show "worldInv w'"
  proof (cases c)
    case (Inl e)
    then show ?thesis using m c w1 by (simp add: webauthnAuthenticate_def run_bindA)
  next
    case (Inr ch)
    obtain v w2 where v: "verifyAuthentication E ch response w1 = (v, w2)"
      by (cases "verifyAuthentication E ch response w1")
    have w2: "worldInv w2" by (rule preservesD [OF worldInv_verifyAuthentication w1 v])
    show ?thesis
    proof (cases v)
      case (Inl e)
      then show ?thesis using m c v w2 Inr by (simp add: webauthnAuthenticate_def run_bindA)
    next
      case device: (Inr device)
      obtain r where r: "response = Some r"
        using v device by (cases response) (simp_all add: verifyAuthentication_def run_throw)
      have inv: "dbInv (db w1)" using w1 by (simp add: worldInv_def)
      obtain n where "device \<in> set (trustedDevices (db w1))"
        and w2': "w2 = w1\<lparr>db := (db w1)\<lparr>trustedDevices := map (\<lambda>x. if td_id x = td_id device
          then x\<lparr>td_counter := n, td_lastUsedAt := Some (clock w1)\<rparr> else x) (trustedDevices (db w1))\<rparr>\<rparr>"
        using verifyAuthentication_ok [OF inv] v unfolding r device by blast
      then have "td_userId device \<in> u_id ` set (users (db w2))"
        using dbInv_refs(1) [OF inv] by auto
      then have "worldInv (w2\<lparr>sessions := (sessions w2)(sid := (sessions w2 sid)\<lparr>s_userId := Some (td_userId device)\<rparr>)\<rparr>)"
        by (intro worldInv_login w2) simp_all
      from worldInv_unlock [OF this, of sid] show ?thesis
        using m c v Inr device by (simp add: webauthnAuthenticate_def run_bindA run_setSession) (metis snd_conv)
    qed
  qed
qed

section \<open>Properties\<close>

text \<open>
  a challenge serves for one attempt. Without a challenge in the session the route
  refuses; an attempt to authenticate uses the challenge up whatever its outcome, so that the same
  response sent again is refused.
\<close>

theorem challenge_single_use:
  "if truthy (s_currentWebauthnChallenge (sessions w sid))
   then s_currentWebauthnChallenge (sessions (snd (webauthnAuthenticate E sid response password w)) sid) = None \<and>
     (\<forall>response2 password2. fst (webauthnAuthenticate E sid response2 password2
        (snd (webauthnAuthenticate E sid response password w))) =
          Inl (UnauthorizedException CallAuthenticateOptionsFirst))
   else webauthnAuthenticate E sid response password w =
     (Inl (UnauthorizedException CallAuthenticateOptionsFirst), w)"
proof (cases "truthy (s_currentWebauthnChallenge (sessions w sid))")
  case False
  then show ?thesis by (simp add: webauthnAuthenticate_def act_simps)
next
  case True
  define I where "I v \<longleftrightarrow> s_currentWebauthnChallenge (sessions v sid) = None" for v :: world
  have db: "preserves I (dbWriteR f)" for f :: "database \<Rightarrow> prisma_code + device_row \<times> database"
    by (auto simp: preserves_def I_def run_dbWriteR split: sum.split)
  have ss: "preserves I (setSession sid (\<lambda>s. s\<lparr>s_userId := u\<rparr>))" "preserves I (setSession sid (\<lambda>s. s\<lparr>s_unlocked := b\<rparr>))" for u b
    by (simp_all add: preserves_def I_def run_setSession)
  have ks: "preserves I (keySet sid k m)" for k m
    by (simp add: preserves_def I_def run_keySet)
  have rest: "preserves I (bindA (verifyAuthentication E ch response) (\<lambda>device.
      bindA (setSession sid (\<lambda>s. s\<lparr>s_userId := Some (td_userId device)\<rparr>)) (\<lambda>_. unlock E sid (td_userId device) password)))" for ch
    unfolding verifyAuthentication_def unlock_def Let_def
    by (intro preserves_intros db ss ks)
  let ?w = "w\<lparr>sessions := (sessions w)(sid := (sessions w sid)\<lparr>s_currentWebauthnChallenge := None\<rparr>)\<rparr>"
  have "I ?w" by (simp add: I_def)
  then have "I (snd (webauthnAuthenticate E sid response password w))"
    using rest True unfolding preserves_def by (simp add: webauthnAuthenticate_def run_bindA [of "takeChallenge sid m" for m] run_takeChallenge)
  then have none: "s_currentWebauthnChallenge (sessions (snd (webauthnAuthenticate E sid response password w)) sid) = None"
    by (simp add: I_def)
  have "fst (webauthnAuthenticate E sid r2 p2 v) = Inl (UnauthorizedException CallAuthenticateOptionsFirst)"
    if "s_currentWebauthnChallenge (sessions v sid) = None" for r2 p2 v
    using that by (simp add: webauthnAuthenticate_def run_bindA run_takeChallenge)
  then show ?thesis using none True by simp
qed


definition demoResponse :: auth_response where
  "demoResponse = \<lparr>ar_id = js ''c1'', ar_body = JNull\<rparr>"

text \<open>The concrete server with a challenge in every session.\<close>

definition demoChallenged :: world where
  "demoChallenged = demoWorld\<lparr>sessions := (\<lambda>sid. (sessions demoWorld sid)\<lparr>s_currentWebauthnChallenge := Some (js ''ch'')\<rparr>)\<rparr>"

lemma worldInv_demoChallenged: "worldInv demoChallenged"
  using worldInv_demoWorld by (simp add: demoChallenged_def worldInv_def sessionsOk_def keyStoreOk_def)

lemma demo_find_device:
  "find (\<lambda>x. td_webauthnCredentialId x = js ''c1'') (trustedDevices demoDb) = Some demoDevice"
  by (simp add: demoDb_def demoDevice_def)

lemma run_verify_demo:
  assumes "trustedDevices (db w) = [demoDevice]"
  shows "verifyAuthentication demoEnv ch (Some demoResponse) w =
    (Inr demoDevice, w\<lparr>db := (db w)\<lparr>trustedDevices := [demoDevice\<lparr>td_counter := 5, td_lastUsedAt := Some (clock w)\<rparr>]\<rparr>\<rparr>)"
proof -
  have v: "verifyAuthenticationResponse demoEnv r c x y \<lparr>wc_id = i, wc_publicKey = k, wc_counter = n\<rparr> = Inr (True, n + 1)"
    for r c x y i k n by (simp add: demoEnv_def)
  have d: "td_webauthnCredentialId demoDevice = js ''c1''" "td_counter demoDevice = 4" "ar_id demoResponse = js ''c1''"
    by (simp_all add: demoDevice_def demoResponse_def)
  show ?thesis
    by (simp add: verifyAuthentication_def act_simps assms v d updateDevice_def updateRow_def)
qed


text \<open>
  C37: a device authentication with a wrong password is refused, but not before the session has been
  turned over to the owner of the device. A session that was unlocked for another user keeps its
  flag and its key, so it then passes the unlocked guard as the owner of the device.
\<close>

theorem authenticate_wrong_password_switches_user:
  assumes "worldInv w" and "fst (unlockedGuard sid w) = Inr (userA, keyA)"
    and "s_currentWebauthnChallenge (sessions w sid) = Some ch" and "ch \<noteq> []"
    and "find (\<lambda>x. td_webauthnCredentialId x = ar_id r) (trustedDevices (db w)) = Some device"
    and "verifyAuthenticationResponse E r ch (RP_ORIGIN E) (RP_ID E)
      \<lparr>wc_id = td_webauthnCredentialId device, wc_publicKey = base64Decode (td_webauthnPublicKey device),
       wc_counter = td_counter device\<rparr> = Inr (True, n)"
    and "td_userId device \<noteq> []" and "findUser (td_userId device) (db w) = Some u"
    and "\<not> argon2Verify E (u_masterPasswordHash u) q"
  shows "\<exists>w'. webauthnAuthenticate E sid (Some r) (Some q) w = (Inl (UnauthorizedException MasterPasswordWrong), w') \<and>
    fst (unlockedGuard sid w') = Inr (td_userId device, keyA)"
proof -
  let ?w1 = "w\<lparr>sessions := (sessions w)(sid := (sessions w sid)\<lparr>s_currentWebauthnChallenge := None\<rparr>)\<rparr>"
  let ?f = "\<lambda>x. x\<lparr>td_counter := n, td_lastUsedAt := Some (clock w)\<rparr>"
  let ?t = "map (\<lambda>x. if td_id x = td_id device then ?f x else x) (trustedDevices (db w))"
  let ?w3 = "?w1\<lparr>db := (db w)\<lparr>trustedDevices := ?t\<rparr>,
      sessions := (sessions ?w1)(sid := (sessions ?w1 sid)\<lparr>s_userId := Some (td_userId device)\<rparr>)\<rparr>"
  have inv: "dbInv (db w)" using assms(1) by (simp add: worldInv_def)
  have "device \<in> set (trustedDevices (db w))" using find_Some_D [OF assms(5)] by simp
  then have "find (\<lambda>x. td_id x = td_id device) (trustedDevices (db w)) = Some device"
    by (rule device_table.ok_find [OF dbInv_tables(2) [OF inv]])
  then have up: "updateDevice (td_id device) ?f (db w) = Inr (?f device, (db w)\<lparr>trustedDevices := ?t\<rparr>)"
    by (intro updateDevice_ok inv) simp_all
  have v: "verifyAuthentication E ch (Some r) ?w1 = (Inr device, ?w1\<lparr>db := (db w)\<lparr>trustedDevices := ?t\<rparr>\<rparr>)"
    using assms(5,6) up by (simp add: verifyAuthentication_def act_simps)
  have "findUser (td_userId device) (db ?w3) = Some u" using assms(8) by (simp add: findUser_def)
  then have "unlock E sid (td_userId device) (Some q) ?w3 = (Inl (UnauthorizedException MasterPasswordWrong), ?w3)"
    using assms(9) by (simp add: run_unlock)
  then have run: "webauthnAuthenticate E sid (Some r) (Some q) w = (Inl (UnauthorizedException MasterPasswordWrong), ?w3)"
    using assms(3,4) v by (simp add: webauthnAuthenticate_def run_bindA run_takeChallenge run_setSession)
  have "keyLive sid ?w3 = keyLive sid w" by (simp add: keyLive_def cong: option.case_cong)
  then have "fst (unlockedGuard sid ?w3) = Inr (td_userId device, keyA)"
    using assms(2,7) by (simp add: unlockedGuard_pass)
  then show ?thesis using run by blast
qed

text \<open>A device of the second user, in the hands of whoever holds the first user's open session.\<close>

definition demoShared :: world where
  "demoShared = demoChallenged\<lparr>db := demoDb\<lparr>trustedDevices := [demoDevice\<lparr>td_userId := js ''u2''\<rparr>]\<rparr>\<rparr>"

lemma authenticate_wrong_password_switches_user_witness:
  "\<exists>w'. webauthnAuthenticate demoEnv (js ''s1'') (Some demoResponse) (Some (js ''wrong'')) demoShared =
      (Inl (UnauthorizedException MasterPasswordWrong), w') \<and>
    fst (unlockedGuard (js ''s1'') w') = Inr (js ''u2'', demoUserKey)"
proof -
  let ?d = "demoDevice\<lparr>td_userId := js ''u2''\<rparr>"
  have "dbInv (demoDb\<lparr>trustedDevices := [?d]\<rparr>)"
    by (intro dbInv_setDevices dbInv_demoDb) (simp_all add: okTable_def demoDb_def demoUser_def)
  then have inv: "worldInv demoShared"
    using worldInv_demoChallenged
    by (simp add: demoShared_def demoChallenged_def worldInv_def sessionsOk_def keyStoreOk_def demoWorld_def)
  have g: "fst (unlockedGuard (js ''s1'') demoShared) = Inr (js ''u1'', demoUserKey)"
    by (simp add: unlockedGuard_pass keyLive_def demoShared_def demoChallenged_def demo_defs)
  have d: "find (\<lambda>x. td_webauthnCredentialId x = ar_id demoResponse) (trustedDevices (db demoShared)) = Some ?d"
    by (simp add: demoShared_def demoResponse_def demoDevice_def)
  have ch: "s_currentWebauthnChallenge (sessions demoShared (js ''s1'')) = Some (js ''ch'')"
    by (simp add: demoShared_def demoChallenged_def)
  have v: "verifyAuthenticationResponse demoEnv demoResponse (js ''ch'') x y
      \<lparr>wc_id = i, wc_publicKey = k, wc_counter = n\<rparr> = Inr (True, n + 1)" for x y i k n
    by (simp add: demoEnv_def)
  have u: "findUser (td_userId ?d) (db demoShared) = Some (demoUser (js ''u2'') (js ''g2''))"
    by (simp add: demoShared_def findUser_def demo_defs)
  have wrong: "\<not> argon2Verify demoEnv (u_masterPasswordHash (demoUser (js ''u2'') (js ''g2''))) (js ''wrong'')"
    by (simp add: demoUser_def demoEnv_def)
  have ne: "js ''ch'' \<noteq> []" "td_userId ?d \<noteq> []" "td_userId ?d = js ''u2''" by simp_all
  show ?thesis
    using authenticate_wrong_password_switches_user [OF inv g ch ne(1) d v ne(2) u wrong] unfolding ne(3) .
qed

text \<open>
  a user can remove their own devices and no others: the request succeeds exactly when the
  device exists and belongs to the user of the session, and then only that device is gone.
\<close>

theorem removeDevice_exact:
  assumes "dbInv (db w)"
  shows "(\<exists>device \<in> set (trustedDevices (db w)). td_id device = deviceId \<and> td_userId device = userId \<and>
      removeDevice userId deviceId w =
        (Inr (), w\<lparr>db := (db w)\<lparr>trustedDevices := removeAll device (trustedDevices (db w))\<rparr>\<rparr>)) \<or>
    ((\<forall>device \<in> set (trustedDevices (db w)). td_id device = deviceId \<longrightarrow> td_userId device \<noteq> userId) \<and>
      removeDevice userId deviceId w = (Inl (NotFoundException TrustedDeviceNotFound), w))"
proof (cases "find (\<lambda>x. td_id x = deviceId \<and> td_userId x = userId) (trustedDevices (db w))")
  case None
  then show ?thesis by (auto simp: removeDevice_def act_simps dest: find_None_D)
next
  case (Some d)
  then have d: "d \<in> set (trustedDevices (db w))" "td_id d = deviceId" "td_userId d = userId"
    by (auto dest: find_Some_D)
  note ok = dbInv_tables(2) [OF assms]
  have "find (\<lambda>x. td_id x = deviceId) (trustedDevices (db w)) = Some d"
    using device_table.ok_find [OF ok d(1)] d(2) by simp
  moreover have "filter (\<lambda>x. td_id x \<noteq> deviceId) (trustedDevices (db w)) = removeAll d (trustedDevices (db w))"
    unfolding removeAll_filter_not_eq
    using device_table.ok_same_key [OF ok _ d(1)] d(2) by (intro filter_cong) auto
  ultimately show ?thesis using Some d
    by (intro disjI1 bexI [of _ d]) (simp_all add: removeDevice_def act_simps deleteDevice_def deleteRow_def)
qed

lemma removeDevice_exact_witness:
  "removeDevice (js ''u2'') (js ''d1'') demoWorld = (Inl (NotFoundException TrustedDeviceNotFound), demoWorld)"
proof -
  have "dbInv (db demoWorld)" using dbInv_demoDb by (simp add: demoWorld_def)
  from removeDevice_exact [OF this, of "js ''d1''" "js ''u2''"] show ?thesis
    by (auto simp: demo_defs)
qed

end
