(* ===== verification/PasswordGenerator.thy ===== *)
theory PasswordGenerator
  imports World
begin

text \<open>
  \<open>AccountsService.generatePassword\<close>: the clamped length, the selected character classes, one
  character of each class, the random rest and the Fisher--Yates shuffle. The result is stated
  against \<open>wantedLength\<close>, an independent reading of the length option, for every source of
  randomness that respects the bound of \<open>randomInt\<close>.
\<close>

section \<open>The generator\<close>

text \<open>
  The options of the request. The length is the number \<open>Math.max\<close> makes of what the body holds, so
  that a text which is no number arrives as NaN; an absent or null option is \<open>None\<close>.
\<close>

record password_options =
  po_length :: "jsnum option"
  po_includeUppercase :: "bool option"
  po_includeLowercase :: "bool option"
  po_includeNumbers :: "bool option"
  po_includeSymbols :: "bool option"

definition upperSet :: jsstring where
  "upperSet = js ''ABCDEFGHJKLMNPQRSTUVWXYZ''"

definition lowerSet :: jsstring where
  "lowerSet = js ''abcdefghijkmnpqrstuvwxyz''"

definition numberSet :: jsstring where
  "numberSet = js ''23456789''"

definition symbolSet :: jsstring where
  "symbolSet = js ''!@#$%^&*()-_=+[]{}''"

definition activeCharsets :: "password_options \<Rightarrow> jsstring list" where
  "activeCharsets options =
     (let charsets =
        (if orElse (po_includeUppercase options) True then [upperSet] else []) @
        (if orElse (po_includeLowercase options) True then [lowerSet] else []) @
        (if orElse (po_includeNumbers options) True then [numberSet] else []) @
        (if orElse (po_includeSymbols options) True then [symbolSet] else []) in
      if 0 < length charsets then charsets else [upperSet, lowerSet, numberSet, symbolSet])"

definition clampedLength :: "password_options \<Rightarrow> jsnum" where
  "clampedLength options = jsMin (jsMax (orElse (po_length options) (Fin 16)) (Fin 8)) (Fin 64)"

definition drawInt :: "env \<Rightarrow> nat \<Rightarrow> nat action" where
  "drawInt E bound = bindA nextDraw (\<lambda>n. ret (randomInt E n bound))"

definition pick :: "env \<Rightarrow> 'a list \<Rightarrow> 'a action" where
  "pick E charset = bindA (drawInt E (length charset)) (\<lambda>j. ret (charset ! j))"

text \<open>The loop from the last index down to 1; each round swaps position \<open>i\<close> with one at most \<open>i\<close>.\<close>

fun shuffle :: "env \<Rightarrow> nat \<Rightarrow> 'a list \<Rightarrow> 'a list action" where
  "shuffle E 0 chars = ret chars"
| "shuffle E (Suc i) chars =
     bindA (drawInt E (Suc i + 1)) (\<lambda>j. shuffle E i (chars[Suc i := chars ! j, j := chars ! Suc i]))"

definition generatePassword :: "env \<Rightarrow> password_options \<Rightarrow> jsstring action" where
  "generatePassword E options =
     (let charsets = activeCharsets options;
          allChars = concat charsets in
      bindA (mapA (pick E) charsets) (\<lambda>required.
      bindA (mapA (\<lambda>_. pick E allChars)
               [0..<toLength (jsMax (jsMinus (clampedLength options) (of_nat (length required))) (Fin 0))])
        (\<lambda>remaining.
           let chars = required @ remaining in shuffle E (length chars - 1) chars)))"

section \<open>Actions that only draw\<close>

text \<open>The action returns a value that satisfies \<open>P\<close> and changes nothing but the count of draws.\<close>

definition yields :: "('a \<Rightarrow> bool) \<Rightarrow> 'a action \<Rightarrow> bool" where
  "yields P m \<longleftrightarrow> (\<forall>w. \<exists>x n. m w = (Inr x, w\<lparr>draws := n\<rparr>) \<and> P x)"

lemma yieldsE:
  assumes "yields P m"
  obtains x n where "m w = (Inr x, w\<lparr>draws := n\<rparr>)" and "P x"
  using assms unfolding yields_def by blast

lemma yields_ret: "P x \<Longrightarrow> yields P (ret x)"
  unfolding yields_def
proof
  fix w :: world assume "P x"
  then have "ret x w = (Inr x, w\<lparr>draws := draws w\<rparr>) \<and> P x" by (simp add: run_ret)
  then show "\<exists>y n. ret x w = (Inr y, w\<lparr>draws := n\<rparr>) \<and> P y" by blast
qed

lemma yields_bindA:
  assumes "yields P m" and "\<And>x. P x \<Longrightarrow> yields Q (f x)"
  shows "yields Q (bindA m f)"
  unfolding yields_def
proof
  fix w
  obtain x n where m: "m w = (Inr x, w\<lparr>draws := n\<rparr>)" and P: "P x" by (rule yieldsE [OF assms(1)])
  obtain y k where "f x (w\<lparr>draws := n\<rparr>) = (Inr y, (w\<lparr>draws := n\<rparr>)\<lparr>draws := k\<rparr>)" and "Q y"
    by (rule yieldsE [OF assms(2) [OF P]])
  then have "bindA m f w = (Inr y, w\<lparr>draws := k\<rparr>) \<and> Q y" using m by (simp add: run_bindA)
  then show "\<exists>y k. bindA m f w = (Inr y, w\<lparr>draws := k\<rparr>) \<and> Q y" by blast
qed

lemma yields_mono: "yields P m \<Longrightarrow> (\<And>x. P x \<Longrightarrow> Q x) \<Longrightarrow> yields Q m"
  unfolding yields_def by blast

lemma yields_mapA:
  assumes "\<And>x. x \<in> set xs \<Longrightarrow> yields (P x) (f x)"
  shows "yields (\<lambda>ys. list_all2 P xs ys) (mapA f xs)"
  using assms
proof (induction xs)
  case Nil
  then show ?case by (simp add: yields_ret)
next
  case (Cons x xs)
  have "yields (P x) (f x)" using Cons.prems by simp
  moreover have "yields (\<lambda>ys. list_all2 P xs ys) (mapA f xs)" using Cons by simp
  ultimately show ?case
    by (auto intro!: yields_bindA [of "P x"] yields_bindA [of "list_all2 P xs"] yields_ret)
qed

lemma yields_drawInt: "randomLaw E \<Longrightarrow> 0 < b \<Longrightarrow> yields (\<lambda>j. j < b) (drawInt E b)"
  unfolding yields_def
proof
  fix w assume "randomLaw E" and "0 < b"
  then have "drawInt E b w = (Inr (randomInt E (draws w) b), w\<lparr>draws := Suc (draws w)\<rparr>) \<and>
      randomInt E (draws w) b < b"
    by (simp add: drawInt_def act_simps randomLaw_int)
  then show "\<exists>j n. drawInt E b w = (Inr j, w\<lparr>draws := n\<rparr>) \<and> j < b" by blast
qed

lemma yields_pick: "randomLaw E \<Longrightarrow> cs \<noteq> [] \<Longrightarrow> yields (\<lambda>c. c \<in> set cs) (pick E cs)"
  unfolding pick_def
  by (rule yields_bindA [OF yields_drawInt]) (auto intro: yields_ret)

lemma yields_shuffle:
  "randomLaw E \<Longrightarrow> i < length xs \<or> i = 0 \<Longrightarrow> yields (\<lambda>ys. mset ys = mset xs) (shuffle E i xs)"
proof (induction i arbitrary: xs)
  case 0
  then show ?case by (simp add: yields_ret)
next
  case (Suc i)
  have "yields (\<lambda>ys. mset ys = mset xs) (shuffle E i (xs[Suc i := xs ! j, j := xs ! Suc i]))"
    if "j < Suc i + 1" for j
  proof -
    have "mset (xs[Suc i := xs ! j, j := xs ! Suc i]) = mset xs"
      using that Suc.prems by (intro mset_swap) auto
    moreover have "yields (\<lambda>ys. mset ys = mset (xs[Suc i := xs ! j, j := xs ! Suc i]))
        (shuffle E i (xs[Suc i := xs ! j, j := xs ! Suc i]))"
      using Suc.prems by (intro Suc.IH) auto
    ultimately show ?thesis by (simp only:)
  qed
  moreover have "yields (\<lambda>j. j < Suc i + 1) (drawInt E (Suc i + 1))"
    using Suc.prems by (intro yields_drawInt) auto
  ultimately show ?case unfolding shuffle.simps by (intro yields_bindA [of "\<lambda>j. j < Suc i + 1"])
qed

section \<open>What is generated\<close>

lemma activeCharsets_nonempty: "activeCharsets options \<noteq> []" "[] \<notin> set (activeCharsets options)"
  by (auto simp: activeCharsets_def Let_def upperSet_def lowerSet_def numberSet_def symbolSet_def)

lemma activeCharsets_at_most: "length (activeCharsets options) \<le> 4"
  by (simp add: activeCharsets_def Let_def)

text \<open>The length the options ask for: whole characters between 8 and 64, 16 when nothing is said.\<close>

fun wantedLength :: "jsnum option \<Rightarrow> nat \<Rightarrow> nat" where
  "wantedLength None _ = 16"
| "wantedLength (Some NaN) classes = classes"
| "wantedLength (Some NegInf) _ = 8"
| "wantedLength (Some PosInf) _ = 64"
| "wantedLength (Some (Fin r)) _ = nat (max 8 (min 64 \<lfloor>r\<rfloor>))"

lemma floor_rest:
  fixes r :: rat
  assumes "k \<le> 4" and "8 \<le> r"
  shows "k + nat \<lfloor>max (r - of_nat k) 0\<rfloor> = nat \<lfloor>r\<rfloor>"
proof -
  have "(of_nat k :: rat) \<le> 4" using assms(1) of_nat_mono [of k 4, where 'a = rat] by simp
  then have "max (r - of_nat k) 0 = r - of_int (int k)" using assms(2) by simp
  moreover have "\<lfloor>r - of_int (int k)\<rfloor> = \<lfloor>r\<rfloor> - int k" by (rule floor_diff_of_int)
  moreover have "8 \<le> \<lfloor>r\<rfloor>" using assms(2) by (simp add: le_floor_iff)
  moreover have "k + nat (m - int k) = nat m" if "8 \<le> m" for m
    using that assms(1) by linarith
  ultimately show ?thesis by (simp only:)
qed

lemma clamp_wanted:
  assumes "k \<le> 4"
  shows "k + toLength (jsMax (jsMinus (jsMin (jsMax (orElse l (Fin 16)) (Fin 8)) (Fin 64)) (of_nat k)) (Fin 0)) =
    wantedLength l k"
proof -
  have clamp: "k + nat \<lfloor>max (min (max r 8) 64 - of_nat k) 0\<rfloor> = nat \<lfloor>min (max r 8) 64\<rfloor>" for r :: rat
    using assms by (intro floor_rest) auto
  have num: "nat \<lfloor>min (max r 8) 64\<rfloor> = nat (max 8 (min 64 \<lfloor>r\<rfloor>))" for r :: rat
  proof -
    consider "r < 8" | "8 \<le> r" "r < 64" | "64 \<le> r" by linarith
    then show ?thesis
    proof cases
      case 1
      then have "\<lfloor>r\<rfloor> < 8" by (simp add: floor_less_iff)
      then show ?thesis using 1 by simp
    next
      case 2
      then have "8 \<le> \<lfloor>r\<rfloor>" and "\<lfloor>r\<rfloor> < 64" by (simp_all add: le_floor_iff floor_less_iff)
      then show ?thesis using 2 by simp
    next
      case 3
      then have "64 \<le> \<lfloor>r\<rfloor>" by (simp add: le_floor_iff)
      then show ?thesis using 3 by simp
    qed
  qed
  show ?thesis
    using of_nat_mono [OF assms, where 'a = rat] clamp [of 16] clamp [of 8] clamp [of 64] clamp num
    by (cases "(l, k)" rule: wantedLength.cases) simp_all
qed

text \<open>The three guarantees at once: length, character classes, and that nothing else changes.\<close>

definition goodPassword :: "password_options \<Rightarrow> jsstring \<Rightarrow> bool" where
  "goodPassword options pw \<longleftrightarrow>
     length pw = wantedLength (po_length options) (length (activeCharsets options)) \<and>
     set pw \<subseteq> set (concat (activeCharsets options)) \<and>
     (\<forall>cs \<in> set (activeCharsets options). set cs \<inter> set pw \<noteq> {})"

lemma picked_required:
  assumes "list_all2 (\<lambda>cs c. c \<in> set cs) css req"
  shows "set req \<subseteq> set (concat css)" and "\<forall>cs \<in> set css. set cs \<inter> set req \<noteq> {}"
  using assms by (induction rule: list_all2_induct) auto

lemma generatePassword_yields:
  assumes "randomLaw E"
  shows "yields (goodPassword options) (generatePassword E options)"
proof -
  let ?cs = "activeCharsets options"
  let ?rest = "\<lambda>k. toLength (jsMax (jsMinus (clampedLength options) (of_nat k)) (Fin 0))"
  have one: "yields (\<lambda>req. list_all2 (\<lambda>cs c. c \<in> set cs) ?cs req) (mapA (pick E) ?cs)"
    using activeCharsets_nonempty(2) by (intro yields_mapA yields_pick assms) auto
  have all: "concat ?cs \<noteq> []"
    using activeCharsets_nonempty by (metis concat_eq_Nil_conv list.set_sel(1))
  have two: "yields (\<lambda>rem. list_all2 (\<lambda>_ c. c \<in> set (concat ?cs)) [0..<k] rem)
      (mapA (\<lambda>_. pick E (concat ?cs)) [0..<k])" for k
    by (intro yields_mapA yields_pick assms all)
  have good: "goodPassword options pw"
    if req: "list_all2 (\<lambda>cs c. c \<in> set cs) ?cs req"
      and rem: "list_all2 (\<lambda>_ c. c \<in> set (concat ?cs)) [0..<?rest (length req)] rem"
      and pw: "mset pw = mset (req @ rem)" for req rem pw
  proof -
    have len: "length req = length ?cs" "length rem = ?rest (length req)"
      using req rem by (auto dest: list_all2_lengthD)
    have "set pw = set (req @ rem)" using pw by (rule mset_eq_setD)
    moreover note picked_required [OF req]
    moreover have "set rem \<subseteq> set (concat ?cs)"
      using rem by (auto simp: in_set_conv_nth list_all2_conv_all_nth)
    moreover have "\<exists>c. c \<in> set cs \<and> c \<in> set req" if "cs \<in> set ?cs" for cs
      using req that by (metis in_set_conv_nth list_all2_conv_all_nth)
    moreover have "length pw = length req + ?rest (length req)"
      using pw len by (metis length_append size_mset)
    then have "length pw = wantedLength (po_length options) (length ?cs)"
      using clamp_wanted [OF activeCharsets_at_most] len by (simp add: clampedLength_def)
    ultimately show ?thesis by (auto simp: goodPassword_def)
  qed
  show ?thesis unfolding generatePassword_def Let_def
  proof (rule yields_bindA [OF one], rule yields_bindA [OF two])
    fix req rem
    assume *: "list_all2 (\<lambda>cs c. c \<in> set cs) ?cs req"
      "list_all2 (\<lambda>_ c. c \<in> set (concat ?cs)) [0..<?rest (length req)] rem"
    have "length req \<noteq> 0" using *(1) activeCharsets_nonempty(1) by (auto dest: list_all2_lengthD)
    then have "yields (\<lambda>pw. mset pw = mset (req @ rem)) (shuffle E (length (req @ rem) - 1) (req @ rem))"
      by (intro yields_shuffle assms) auto
    then show "yields (goodPassword options) (shuffle E (length (req @ rem) - 1) (req @ rem))"
      using good [OF *] by (rule yields_mono)
  qed
qed

text \<open>The generator only draws.\<close>

lemma preserves_generatePassword:
  assumes "preserves I nextDraw"
  shows "preserves I (generatePassword E options)"
proof -
  have "preserves I (drawInt E b)" for b
    unfolding drawInt_def by (intro preserves_intros assms)
  moreover from this have "preserves I (pick E cs)" for cs :: jsstring
    unfolding pick_def by (intro preserves_intros)
  moreover have "preserves I (shuffle E i xs)" for i and xs :: jsstring
    by (induction i arbitrary: xs) (auto intro!: preserves_intros assms simp: drawInt_def)
  ultimately show ?thesis unfolding generatePassword_def Let_def by (intro preserves_intros)
qed

lemmas worldInv_generatePassword [preserves_intros] = preserves_generatePassword [OF worldInv_nextDraw]

section \<open>Properties\<close>

text \<open>
  C26: for every source of randomness within bounds and every combination of options, a password is
  returned that has the wanted length, uses the selected character classes only and has a
  character of each of them; nothing but the count of random draws changes.
\<close>

theorem generatePassword_good:
  assumes "randomLaw E"
  shows "\<exists>pw n. generatePassword E options w = (Inr pw, w\<lparr>draws := n\<rparr>) \<and>
    length pw = wantedLength (po_length options) (length (activeCharsets options)) \<and>
    set pw \<subseteq> set (concat (activeCharsets options)) \<and>
    (\<forall>cs \<in> set (activeCharsets options). set cs \<inter> set pw \<noteq> {})"
proof -
  obtain pw n where "generatePassword E options w = (Inr pw, w\<lparr>draws := n\<rparr>)" and "goodPassword options pw"
    by (rule yieldsE [OF generatePassword_yields [OF assms]])
  then show ?thesis unfolding goodPassword_def by blast
qed

definition demoOptions :: password_options where
  "demoOptions =
     \<lparr>po_length = Some (Fin 3), po_includeUppercase = None, po_includeLowercase = Some True,
      po_includeNumbers = None, po_includeSymbols = Some False\<rparr>"

lemma generatePassword_good_witness:
  "\<exists>pw n. generatePassword demoEnv demoOptions initWorld = (Inr pw, initWorld\<lparr>draws := n\<rparr>) \<and>
    length pw = 8 \<and> set pw \<subseteq> set (upperSet @ lowerSet @ numberSet) \<and> set numberSet \<inter> set pw \<noteq> {}"
proof -
  have *: "activeCharsets demoOptions = [upperSet, lowerSet, numberSet]"
    by (simp add: activeCharsets_def demoOptions_def)
  have "\<lfloor>3 :: rat\<rfloor> = 3" by simp
  then have "wantedLength (po_length demoOptions) (length (activeCharsets demoOptions)) = 8"
    by (simp add: demoOptions_def)
  then show ?thesis
    using generatePassword_good [OF randomLaw_demoEnv, of demoOptions initWorld] by (auto simp: *)
qed

text \<open>
  a length that is not a number slips through both bounds: the password then has one
  character per selected class, so at most four, although 8 is the least length the generator
  means to produce.
\<close>

theorem generatePassword_nan:
  assumes "randomLaw E" and "po_length options = Some NaN"
  shows "\<exists>pw n. generatePassword E options w = (Inr pw, w\<lparr>draws := n\<rparr>) \<and>
    length pw = length (activeCharsets options) \<and> length pw \<le> 4"
proof -
  obtain pw n where "generatePassword E options w = (Inr pw, w\<lparr>draws := n\<rparr>)" and "goodPassword options pw"
    by (rule yieldsE [OF generatePassword_yields [OF assms(1)]])
  then show ?thesis using assms(2) activeCharsets_at_most [of options] by (auto simp: goodPassword_def)
qed

lemma generatePassword_nan_witness:
  "\<exists>pw n. generatePassword demoEnv (demoOptions\<lparr>po_length := Some NaN\<rparr>) initWorld = (Inr pw, initWorld\<lparr>draws := n\<rparr>) \<and>
    length pw = length (activeCharsets (demoOptions\<lparr>po_length := Some NaN\<rparr>)) \<and> length pw \<le> 4"
  by (rule generatePassword_nan) (simp_all add: randomLaw_demoEnv)

end
