(* ===== verification/Accounts.thy ===== *)
theory Accounts
  imports Demo PasswordGenerator
begin

text \<open>
  The password entries: \<open>accounts/accounts.service.ts\<close> and \<open>accounts/accounts.controller.ts\<close> (the
  generator is in the theory \<open>PasswordGenerator\<close>). The controller hands the request body to the
  service as it is, so the model keeps it as a JSON value: \<open>readBody\<close> is what the database client
  makes of its properties, the id and the owner included, which the service spreads over the row.
\<close>

section \<open>Request bodies\<close>

text \<open>
  The properties of a body by column. \<open>bd_memo\<close> is \<open>None\<close> when absent and \<open>Some None\<close> when null.
  \<open>bd_invalid\<close> holds when the database client rejects the body: a property that is no column, or a
  value of the wrong type. The password is not a column and is kept as it was sent.
\<close>

record account_body =
  bd_id :: "jsstring option"
  bd_userId :: "jsstring option"
  bd_serviceName :: "jsstring option"
  bd_urlOrAppName :: "jsstring option"
  bd_category :: "jsstring option"
  bd_loginId :: "jsstring option"
  bd_encryptedPassword :: "jsstring option"
  bd_customFields :: "json option"
  bd_memo :: "jsstring option option"
  bd_createdAt :: "int option"
  bd_updatedAt :: "int option"
  bd_password :: "json option"
  bd_invalid :: bool

definition accountColumns :: "jsstring list" where
  "accountColumns = map js
     [''id'', ''userId'', ''serviceName'', ''urlOrAppName'', ''category'', ''loginId'', ''encryptedPassword'',
      ''customFields'', ''memo'', ''createdAt'', ''updatedAt'', ''password'']"

fun textColumn :: "json option \<Rightarrow> jsstring option" where
  "textColumn (Some (JStr s)) = Some s"
| "textColumn _ = None"

definition dateColumn :: "env \<Rightarrow> json option \<Rightarrow> int option" where
  "dateColumn E v = (case textColumn v of None \<Rightarrow> None | Some s \<Rightarrow> isoDate E s)"

text \<open>Only objects and arrays have properties here; the properties of an array are its indices.\<close>

definition readBody :: "env \<Rightarrow> json \<Rightarrow> exn + account_body" where
  "readBody E v =
     (let kvs = (case v of JObj kvs \<Rightarrow> kvs | _ \<Rightarrow> []);
          extra = (case v of JArr vs \<Rightarrow> vs \<noteq> [] | JStr s \<Rightarrow> s \<noteq> [] | _ \<Rightarrow> False);
          f = (\<lambda>k. map_of kvs (js k));
          badText = (\<lambda>k. f k \<noteq> None \<and> textColumn (f k) = None);
          badDate = (\<lambda>k. f k \<noteq> None \<and> dateColumn E (f k) = None) in
      if v = JNull then Inl TypeError
      else Inr
        \<lparr>bd_id = textColumn (f ''id''), bd_userId = textColumn (f ''userId''),
         bd_serviceName = textColumn (f ''serviceName''), bd_urlOrAppName = textColumn (f ''urlOrAppName''),
         bd_category = textColumn (f ''category''), bd_loginId = textColumn (f ''loginId''),
         bd_encryptedPassword = textColumn (f ''encryptedPassword''),
         bd_customFields = f ''customFields'',
         bd_memo = (case f ''memo'' of None \<Rightarrow> None | Some m \<Rightarrow> Some (textColumn (Some m))),
         bd_createdAt = dateColumn E (f ''createdAt''), bd_updatedAt = dateColumn E (f ''updatedAt''),
         bd_password = f ''password'',
         bd_invalid =
           (extra \<or> (\<exists>k \<in> set (map fst kvs). k \<notin> set accountColumns) \<or>
            list_ex badText [''id'', ''userId'', ''serviceName'', ''urlOrAppName'', ''category'', ''loginId'', ''encryptedPassword''] \<or>
            (f ''memo'' \<noteq> None \<and> f ''memo'' \<noteq> Some JNull \<and> textColumn (f ''memo'') = None) \<or>
            badDate ''createdAt'' \<or> badDate ''updatedAt'')\<rparr>)"

text \<open>A plain null for a JSON column is accepted or rejected by the version of the client.\<close>

definition rejected :: "env \<Rightarrow> account_body \<Rightarrow> bool" where
  "rejected E data \<longleftrightarrow> bd_invalid data \<or> (bd_customFields data = Some JNull \<and> \<not> acceptsJsonNull E)"

definition storedJson :: "json option \<Rightarrow> json option" where
  "storedJson v = (if v = Some JNull then None else v)"

section \<open>The service\<close>

text \<open>The columns of the list: everything but the password and the owner.\<close>

record account_view =
  av_id :: jsstring
  av_serviceName :: jsstring
  av_urlOrAppName :: jsstring
  av_category :: jsstring
  av_loginId :: jsstring
  av_memo :: "jsstring option"
  av_createdAt :: int
  av_updatedAt :: int

definition accountView :: "account_row \<Rightarrow> account_view" where
  "accountView a =
     \<lparr>av_id = ac_id a, av_serviceName = ac_serviceName a, av_urlOrAppName = ac_urlOrAppName a,
      av_category = ac_category a, av_loginId = ac_loginId a, av_memo = ac_memo a,
      av_createdAt = ac_createdAt a, av_updatedAt = ac_updatedAt a\<rparr>"

definition accountWhere :: "env \<Rightarrow> jsstring \<Rightarrow> jsstring option \<Rightarrow> jsstring option \<Rightarrow> account_row \<Rightarrow> bool" where
  "accountWhere E userId category q a \<longleftrightarrow>
     ac_userId a = userId \<and>
     (if truthy category then ac_category a = orElse category [] else True) \<and>
     (if truthy q then containsInsensitive E (ac_serviceName a) (orElse q []) \<or>
                       containsInsensitive E (ac_urlOrAppName a) (orElse q []) else True)"

definition accountsFindAll ::
  "env \<Rightarrow> jsstring \<Rightarrow> jsstring option \<Rightarrow> jsstring option \<Rightarrow> account_view list action" where
  "accountsFindAll E userId category q =
     dbQuery (\<lambda>d. map accountView (newestFirst ac_createdAt (filter (accountWhere E userId category q) (accounts d))))"

definition findOwnAccount :: "jsstring \<Rightarrow> jsstring \<Rightarrow> database \<Rightarrow> account_row option" where
  "findOwnAccount userId i d = find (\<lambda>a. ac_id a = i \<and> ac_userId a = userId) (accounts d)"

text \<open>The row without the ciphertext, and the password in its place.\<close>

record account_detail =
  at_id :: jsstring
  at_userId :: jsstring
  at_serviceName :: jsstring
  at_urlOrAppName :: jsstring
  at_category :: jsstring
  at_loginId :: jsstring
  at_customFields :: "json option"
  at_memo :: "jsstring option"
  at_createdAt :: int
  at_updatedAt :: int
  at_password :: jsstring

definition accountDetail :: "account_row \<Rightarrow> jsstring \<Rightarrow> account_detail" where
  "accountDetail a password =
     \<lparr>at_id = ac_id a, at_userId = ac_userId a, at_serviceName = ac_serviceName a,
      at_urlOrAppName = ac_urlOrAppName a, at_category = ac_category a, at_loginId = ac_loginId a,
      at_customFields = ac_customFields a, at_memo = ac_memo a, at_createdAt = ac_createdAt a,
      at_updatedAt = ac_updatedAt a, at_password = password\<rparr>"

definition accountsFindOne :: "env \<Rightarrow> jsstring \<Rightarrow> jsstring \<Rightarrow> byte list \<Rightarrow> account_detail action" where
  "accountsFindOne E userId i encryptionKey =
     bindA (dbQuery (findOwnAccount userId i)) (\<lambda>account.
       case account of
         None \<Rightarrow> throw (NotFoundException AccountNotFound)
       | Some a \<Rightarrow>
           bindA (decrypt E (ac_encryptedPassword a) encryptionKey) (\<lambda>password.
           ret (accountDetail a password)))"

text \<open>Encrypting a value that is no string throws after the vector has been drawn.\<close>

definition encryptValue :: "env \<Rightarrow> json option \<Rightarrow> byte list \<Rightarrow> jsstring action" where
  "encryptValue E password key =
     (case password of
        Some (JStr s) \<Rightarrow> encrypt E s key
      | _ \<Rightarrow> bindA nextDraw (\<lambda>_. throw TypeError))"

text \<open>
  \<open>prisma.account.create\<close> on the spread body: its properties come after \<open>userId\<close> and before
  \<open>encryptedPassword\<close>, so they override the one and not the other.
\<close>

definition newAccountRow ::
  "jsstring \<Rightarrow> account_body \<Rightarrow> jsstring \<Rightarrow> jsstring \<Rightarrow> int \<Rightarrow> account_row option" where
  "newAccountRow userId data i encrypted now =
     (case (bd_serviceName data, bd_urlOrAppName data, bd_category data, bd_loginId data) of
        (Some service, Some url, Some category, Some login) \<Rightarrow>
          Some \<lparr>ac_id = i, ac_userId = orElse (bd_userId data) userId, ac_serviceName = service,
                ac_urlOrAppName = url, ac_category = category, ac_loginId = login,
                ac_encryptedPassword = encrypted, ac_customFields = storedJson (bd_customFields data),
                ac_memo = orElse (bd_memo data) None, ac_createdAt = orElse (bd_createdAt data) now,
                ac_updatedAt = orElse (bd_updatedAt data) now\<rparr>
      | _ \<Rightarrow> None)"

definition insertAccount :: "env \<Rightarrow> jsstring \<Rightarrow> account_body \<Rightarrow> jsstring \<Rightarrow> account_row action" where
  "insertAccount E userId data encrypted =
     bindA (throwIf (rejected E data) (PrismaError PValidation)) (\<lambda>_.
     bindA (case bd_id data of Some i \<Rightarrow> ret i | None \<Rightarrow> freshId E) (\<lambda>i.
     bindA dateNow (\<lambda>now.
       case newAccountRow userId data i encrypted now of
         None \<Rightarrow> throw (PrismaError PValidation)
       | Some row \<Rightarrow> bindA (dbWrite (createAccount row)) (\<lambda>_. ret row))))"

definition conflictOr :: "exn \<Rightarrow> exn" where
  "conflictOr e = (if e = PrismaError P2002 then ConflictException AccountAlreadyExists else e)"

definition accountsCreate :: "env \<Rightarrow> jsstring \<Rightarrow> byte list \<Rightarrow> account_body \<Rightarrow> account_row action" where
  "accountsCreate E userId encryptionKey data =
     catchA
       (bindA (encryptValue E (bd_password data) encryptionKey) (insertAccount E userId data))
       (\<lambda>e. throw (conflictOr e))"

definition changedRow :: "account_body \<Rightarrow> jsstring option \<Rightarrow> int \<Rightarrow> account_row \<Rightarrow> account_row" where
  "changedRow data encrypted now a =
     \<lparr>ac_id = orElse (bd_id data) (ac_id a), ac_userId = orElse (bd_userId data) (ac_userId a),
      ac_serviceName = orElse (bd_serviceName data) (ac_serviceName a),
      ac_urlOrAppName = orElse (bd_urlOrAppName data) (ac_urlOrAppName a),
      ac_category = orElse (bd_category data) (ac_category a),
      ac_loginId = orElse (bd_loginId data) (ac_loginId a),
      ac_encryptedPassword =
        orElse encrypted (orElse (bd_encryptedPassword data) (ac_encryptedPassword a)),
      ac_customFields = (if bd_customFields data = None then ac_customFields a else storedJson (bd_customFields data)),
      ac_memo = orElse (bd_memo data) (ac_memo a),
      ac_createdAt = orElse (bd_createdAt data) (ac_createdAt a),
      ac_updatedAt = orElse (bd_updatedAt data) now\<rparr>"

fun truthyJson :: "json \<Rightarrow> bool" where
  "truthyJson JNull = False"
| "truthyJson (JBool b) = b"
| "truthyJson (JNum n) = (n \<noteq> NaN \<and> n \<noteq> Fin 0)"
| "truthyJson (JStr s) = (s \<noteq> [])"
| "truthyJson _ = True"

definition accountsUpdate ::
  "env \<Rightarrow> jsstring \<Rightarrow> jsstring \<Rightarrow> byte list \<Rightarrow> account_body \<Rightarrow> account_row action" where
  "accountsUpdate E userId i encryptionKey data =
     bindA (dbQuery (findOwnAccount userId i)) (\<lambda>existing.
     bindA (throwIf (existing = None) (NotFoundException AccountNotFound)) (\<lambda>_.
     catchA
       (bindA
          (if bd_password data \<noteq> None \<and> truthyJson (the (bd_password data))
           then bindA (encryptValue E (bd_password data) encryptionKey) (\<lambda>c. ret (Some c))
           else ret None) (\<lambda>encrypted.
        bindA (throwIf (rejected E data) (PrismaError PValidation)) (\<lambda>_.
        bindA dateNow (\<lambda>now.
        dbWriteR (updateAccount i (changedRow data encrypted now))))))
       (\<lambda>e. throw (conflictOr e))))"

definition accountsRemove :: "jsstring \<Rightarrow> jsstring \<Rightarrow> unit action" where
  "accountsRemove userId i =
     bindA (dbQuery (findOwnAccount userId i)) (\<lambda>existing.
     bindA (throwIf (existing = None) (NotFoundException AccountNotFound)) (\<lambda>_.
     dbWrite (deleteAccount i)))"

section \<open>Backup\<close>

record backup_file =
  bf_version :: jsnum
  bf_exportedAt :: jsstring
  bf_salt :: jsstring
  bf_payload :: jsstring

text \<open>The exported entry: the row without ciphertext, ids and times, and with the password.\<close>

definition exportEntry :: "account_row \<Rightarrow> jsstring \<Rightarrow> json" where
  "exportEntry a password =
     JObj [(js ''serviceName'', JStr (ac_serviceName a)), (js ''urlOrAppName'', JStr (ac_urlOrAppName a)),
           (js ''category'', JStr (ac_category a)), (js ''loginId'', JStr (ac_loginId a)),
           (js ''customFields'', orElse (ac_customFields a) JNull),
           (js ''memo'', case ac_memo a of None \<Rightarrow> JNull | Some m \<Rightarrow> JStr m),
           (js ''password'', JStr password)]"

definition decryptEntry :: "env \<Rightarrow> byte list \<Rightarrow> account_row \<Rightarrow> exn + json" where
  "decryptEntry E encryptionKey a =
     (case aesDecrypt E (ac_encryptedPassword a) encryptionKey of
        Inl e \<Rightarrow> Inl e | Inr password \<Rightarrow> Inr (exportEntry a password))"

definition exportAccounts :: "env \<Rightarrow> jsstring \<Rightarrow> byte list \<Rightarrow> jsstring option \<Rightarrow> backup_file action" where
  "exportAccounts E userId encryptionKey exportPassword =
     bindA (dbQuery (\<lambda>d. oldestFirst ac_createdAt (filter (\<lambda>a. ac_userId a = userId) (accounts d)))) (\<lambda>rows.
     bindA (liftE (mapE (decryptEntry E encryptionKey) rows)) (\<lambda>plain.
     bindA (generateKdfSalt E) (\<lambda>salt.
     bindA (deriveEncryptionKey E exportPassword salt) (\<lambda>exportKey.
     bindA (encrypt E (jsonStringify E (JArr plain)) exportKey) (\<lambda>payload.
     bindA dateNow (\<lambda>now.
     ret \<lparr>bf_version = Fin 1, bf_exportedAt = toISOString E now, bf_salt = salt, bf_payload = payload\<rparr>))))))"

text \<open>What a \<open>for \<dots> of\<close> loop visits.\<close>

definition iterate :: "json \<Rightarrow> exn + json list" where
  "iterate v =
     (case v of
        JArr vs \<Rightarrow> Inr vs
      | JStr s \<Rightarrow> Inr (map (\<lambda>c. JStr (utf16_of c)) (codePoints s))
      | _ \<Rightarrow> Inl TypeError)"

text \<open>\<open>{ ...entry, memo: entry.memo ?? undefined }\<close>: a null memo counts as absent.\<close>

definition entryBody :: "env \<Rightarrow> json \<Rightarrow> exn + account_body" where
  "entryBody E entry =
     (case readBody E entry of
        Inl e \<Rightarrow> Inl e
      | Inr data \<Rightarrow> Inr (if bd_memo data = Some None then data\<lparr>bd_memo := None\<rparr> else data))"

definition importEntry :: "env \<Rightarrow> jsstring \<Rightarrow> byte list \<Rightarrow> json \<Rightarrow> nat \<times> nat \<Rightarrow> (nat \<times> nat) action" where
  "importEntry E userId encryptionKey entry counts =
     (case counts of (imported, skipped) \<Rightarrow>
        catchA
          (bindA (liftE (entryBody E entry)) (\<lambda>data.
           bindA (accountsCreate E userId encryptionKey data) (\<lambda>_.
           ret (imported + 1, skipped))))
          (\<lambda>e. case e of ConflictException _ \<Rightarrow> ret (imported, skipped + 1) | _ \<Rightarrow> throw e))"

definition importAccounts ::
  "env \<Rightarrow> jsstring \<Rightarrow> byte list \<Rightarrow> jsstring option \<Rightarrow> backup_file \<Rightarrow> (nat \<times> nat) action" where
  "importAccounts E userId encryptionKey exportPassword file =
     bindA (throwIf (bf_version file \<noteq> Fin 1) (BadRequestException BackupVersionUnsupported)) (\<lambda>_.
     bindA (deriveEncryptionKey E exportPassword (bf_salt file)) (\<lambda>exportKey.
     bindA (catchA (decrypt E (bf_payload file) exportKey)
              (\<lambda>_. throw (BadRequestException BackupPasswordWrongOrDamaged))) (\<lambda>text.
       case jsonParse E text of
         None \<Rightarrow> throw SyntaxError
       | Some v \<Rightarrow>
           bindA (liftE (iterate v)) (\<lambda>entries.
           foldA (importEntry E userId encryptionKey) entries (0, 0)))))"

section \<open>Routes\<close>

definition accountsFindAllRoute ::
  "env \<Rightarrow> jsstring \<Rightarrow> jsstring option \<Rightarrow> jsstring option \<Rightarrow> account_view list action" where
  "accountsFindAllRoute E sid category q =
     bindA (unlockedGuard sid) (\<lambda>(userId, _). accountsFindAll E userId category q)"

definition accountsFindOneRoute :: "env \<Rightarrow> jsstring \<Rightarrow> jsstring \<Rightarrow> account_detail action" where
  "accountsFindOneRoute E sid i =
     bindA (unlockedGuard sid) (\<lambda>(userId, key). accountsFindOne E userId i key)"

definition accountsCreateRoute :: "env \<Rightarrow> jsstring \<Rightarrow> json \<Rightarrow> account_row action" where
  "accountsCreateRoute E sid body =
     bindA (unlockedGuard sid) (\<lambda>(userId, key).
     bindA (liftE (readBody E body)) (accountsCreate E userId key))"

definition generatePasswordRoute :: "env \<Rightarrow> jsstring \<Rightarrow> password_options \<Rightarrow> jsstring action" where
  "generatePasswordRoute E sid options = bindA (unlockedGuard sid) (\<lambda>_. generatePassword E options)"

definition exportRoute :: "env \<Rightarrow> jsstring \<Rightarrow> jsstring option \<Rightarrow> backup_file action" where
  "exportRoute E sid exportPassword =
     bindA (unlockedGuard sid) (\<lambda>(userId, key). exportAccounts E userId key exportPassword)"

definition importRoute :: "env \<Rightarrow> jsstring \<Rightarrow> jsstring option \<Rightarrow> backup_file \<Rightarrow> (nat \<times> nat) action" where
  "importRoute E sid exportPassword file =
     bindA (unlockedGuard sid) (\<lambda>(userId, key). importAccounts E userId key exportPassword file)"

text \<open>The service destructures the body after it has looked for the entry.\<close>

definition accountsUpdateRoute :: "env \<Rightarrow> jsstring \<Rightarrow> jsstring \<Rightarrow> json \<Rightarrow> account_row action" where
  "accountsUpdateRoute E sid i body =
     bindA (unlockedGuard sid) (\<lambda>(userId, key).
       case readBody E body of
         Inl e \<Rightarrow>
           bindA (dbQuery (findOwnAccount userId i)) (\<lambda>existing.
           bindA (throwIf (existing = None) (NotFoundException AccountNotFound)) (\<lambda>_. throw e))
       | Inr data \<Rightarrow> accountsUpdate E userId i key data)"

definition accountsRemoveRoute :: "jsstring \<Rightarrow> jsstring \<Rightarrow> unit action" where
  "accountsRemoveRoute sid i = bindA (unlockedGuard sid) (\<lambda>(userId, _). accountsRemove userId i)"

section \<open>Outcomes\<close>

text \<open>The columns every entry needs are there.\<close>

definition completeBody :: "account_body \<Rightarrow> bool" where
  "completeBody data \<longleftrightarrow>
     bd_serviceName data \<noteq> None \<and> bd_urlOrAppName data \<noteq> None \<and> bd_category data \<noteq> None \<and> bd_loginId data \<noteq> None"

lemma newAccountRow_fields:
  assumes "newAccountRow userId data i c now = Some row"
  shows "ac_id row = i" and "ac_userId row = orElse (bd_userId data) userId" and "ac_encryptedPassword row = c"
    and "bd_urlOrAppName data = Some (ac_urlOrAppName row)" and "bd_loginId data = Some (ac_loginId row)"
    and "bd_serviceName data = Some (ac_serviceName row)" and "bd_category data = Some (ac_category row)"
    and "ac_customFields row = storedJson (bd_customFields data)" and "ac_memo row = orElse (bd_memo data) None"
  using assms by (auto simp: newAccountRow_def split: option.splits)

lemma newAccountRow_complete:
  assumes "completeBody data"
  obtains row where "newAccountRow userId data i c now = Some row"
  using assms by (auto simp: completeBody_def newAccountRow_def)

lemma run_create:
  assumes "goodPlatform E" and "length key = 32" and "\<not> rejected E data"
    and "bd_password data = Some (JStr p)" and "completeBody data"
  shows "\<exists>c row. aesEncrypt E (draws w) p key = Inr c \<and>
    newAccountRow userId data (orElse (bd_id data) (uuid E (Suc (draws w)))) c (clock w) = Some row \<and>
    accountsCreate E userId key data w =
      (let w1 = w\<lparr>draws := Suc (draws w) + (if bd_id data = None then 1 else 0)\<rparr> in
       case createAccount row (db w) of
         Inl e \<Rightarrow> (Inl (conflictOr (PrismaError e)), w1) | Inr d \<Rightarrow> (Inr row, w1\<lparr>db := d\<rparr>))"
proof -
  obtain c where c: "aesEncrypt E (draws w) p key = Inr c" using aes.enc_total assms(1,2) by blast
  obtain row where row: "newAccountRow userId data (orElse (bd_id data) (uuid E (Suc (draws w)))) c (clock w) = Some row"
    by (rule newAccountRow_complete [OF assms(5)])
  have "accountsCreate E userId key data w =
      (let w1 = w\<lparr>draws := Suc (draws w) + (if bd_id data = None then 1 else 0)\<rparr> in
       case createAccount row (db w) of
         Inl e \<Rightarrow> (Inl (conflictOr (PrismaError e)), w1) | Inr d \<Rightarrow> (Inr row, w1\<lparr>db := d\<rparr>))"
    using assms(3,4) c row
    by (cases "bd_id data"; cases "createAccount row (db w)")
      (simp_all add: accountsCreate_def encryptValue_def insertAccount_def act_simps)
  then show ?thesis using c row by blast
qed

lemma createAccount_cases:
  "createAccount row d =
     (if \<exists>a \<in> set (accounts d). account_clash a row then Inl P2002
      else if ac_userId row \<in> u_id ` set (users d) then Inr (d\<lparr>accounts := accounts d @ [row]\<rparr>) else Inl P2003)"
  by (simp add: createAccount_def createRow_def)

lemma findOwn_created:
  assumes "\<forall>a \<in> set (accounts d). \<not> account_clash a row"
  shows "findOwnAccount (ac_userId row) (ac_id row) (d\<lparr>accounts := accounts d @ [row]\<rparr>) = Some row"
proof -
  have "find (\<lambda>a. ac_id a = ac_id row \<and> ac_userId a = ac_userId row) t = None"
    if "\<forall>a \<in> set t. \<not> account_clash a row" for t
    using that by (auto simp: find_None_iff account_clash_def)
  then have "find (\<lambda>a. ac_id a = ac_id row \<and> ac_userId a = ac_userId row) (accounts d) = None"
    using assms by blast
  moreover have "find P (xs @ [x]) = Some x" if "find P xs = None" "P x" for P and xs :: "account_row list" and x
    using that by (induction xs) (auto split: if_splits)
  ultimately show ?thesis by (simp add: findOwnAccount_def)
qed

lemma findOwn_other:
  assumes "dbInv d" and "a \<in> set (accounts d)" and "ac_userId a \<noteq> userId"
  shows "findOwnAccount userId (ac_id a) d = None"
proof (rule ccontr)
  assume "findOwnAccount userId (ac_id a) d \<noteq> None"
  then obtain b where "findOwnAccount userId (ac_id a) d = Some b" by auto
  then have b: "b \<in> set (accounts d)" "ac_id b = ac_id a" "ac_userId b = userId"
    by (auto simp: findOwnAccount_def dest: find_Some_D)
  then have "b = a" using account_table.ok_same_key [OF dbInv_tables(3) [OF assms(1)]] assms(2) by blast
  then show False using b(3) assms(3) by simp
qed

lemma findOwn_D: "findOwnAccount userId i d = Some a \<Longrightarrow> a \<in> set (accounts d) \<and> ac_id a = i \<and> ac_userId a = userId"
  by (auto simp: findOwnAccount_def dest: find_Some_D)

section \<open>The invariant\<close>

lemma worldInv_createAccount [preserves_intros]: "preserves worldInv (dbWrite (createAccount r))"
proof (rule worldInv_dbWrite)
  fix d d' assume "dbInv d" and c: "createAccount r d = Inr d'"
  then show "dbInv d' \<and> u_id ` set (users d) \<subseteq> u_id ` set (users d')"
    using dbInv_createAccount by (auto simp: createAccount_def split: sum.splits if_splits)
qed

lemma worldInv_updateAccount [preserves_intros]: "preserves worldInv (dbWriteR (updateAccount k f))"
proof (rule worldInv_dbWriteR)
  fix d d' r assume "dbInv d" and u: "updateAccount k f d = Inr (r, d')"
  then show "dbInv d' \<and> u_id ` set (users d) \<subseteq> u_id ` set (users d')"
    using dbInv_updateAccount by (auto simp: updateAccount_def split: sum.splits if_splits)
qed

lemma worldInv_deleteAccount [preserves_intros]: "preserves worldInv (dbWrite (deleteAccount k))"
proof (rule worldInv_dbWrite)
  fix d d' assume "dbInv d" and "deleteAccount k d = Inr d'"
  then show "dbInv d' \<and> u_id ` set (users d) \<subseteq> u_id ` set (users d')"
    using dbInv_deleteAccount by (auto simp: deleteAccount_def split: sum.splits)
qed

lemma preserves_case_json [preserves_intros]:
  assumes "\<And>s. v = JStr s \<Longrightarrow> preserves I (f s)" and "preserves I m"
  shows "preserves I (case v of JStr s \<Rightarrow> f s | _ \<Rightarrow> m)"
  using assms by (cases v) simp_all

lemma worldInv_encryptValue [preserves_intros]: "preserves worldInv (encryptValue E v k)"
  unfolding encryptValue_def by (intro preserves_intros)

lemma onlyDb_encryptValue [preserves_intros]: "preserves (onlyDb w0) (encryptValue E v k)"
  unfolding encryptValue_def by (intro preserves_intros)

lemma worldInv_insertAccount [preserves_intros]: "preserves worldInv (insertAccount E userId data c)"
  unfolding insertAccount_def by (intro preserves_intros)

lemma onlyDb_insertAccount [preserves_intros]: "preserves (onlyDb w0) (insertAccount E userId data c)"
  unfolding insertAccount_def by (intro preserves_intros)

lemma worldInv_accountsCreate [preserves_intros]: "preserves worldInv (accountsCreate E userId k data)"
  unfolding accountsCreate_def by (intro preserves_intros)

lemma onlyDb_accountsCreate [preserves_intros]: "preserves (onlyDb w0) (accountsCreate E userId k data)"
  unfolding accountsCreate_def by (intro preserves_intros)

lemma worldInv_accountsUpdate [preserves_intros]: "preserves worldInv (accountsUpdate E userId i k data)"
  unfolding accountsUpdate_def by (intro preserves_intros)

lemma preserves_exn [preserves_intros]:
  assumes "\<And>m. e = ConflictException m \<Longrightarrow> preserves I f" and "preserves I g"
  shows "preserves I (case e of ConflictException _ \<Rightarrow> f | _ \<Rightarrow> g)"
  using assms by (cases e) simp_all

lemma worldInv_importAccounts [preserves_intros]: "preserves worldInv (importAccounts E userId k pw file)"
  unfolding importAccounts_def importEntry_def by (intro preserves_intros)

lemma worldInv_exportAccounts [preserves_intros]: "preserves worldInv (exportAccounts E userId k pw)"
  unfolding exportAccounts_def by (intro preserves_intros)

lemma worldInv_accountRoutes [preserves_intros]:
  "preserves worldInv (accountsFindAllRoute E sid category q)"
  "preserves worldInv (accountsFindOneRoute E sid i)"
  "preserves worldInv (accountsCreateRoute E sid body)"
  "preserves worldInv (generatePasswordRoute E sid options)"
  "preserves worldInv (exportRoute E sid pw)"
  "preserves worldInv (importRoute E sid pw file)"
  "preserves worldInv (accountsUpdateRoute E sid i body)"
  "preserves worldInv (accountsRemoveRoute sid i)"
  unfolding accountsFindAllRoute_def accountsFindOneRoute_def accountsCreateRoute_def generatePasswordRoute_def
    exportRoute_def importRoute_def accountsUpdateRoute_def accountsRemoveRoute_def
    accountsFindAll_def accountsFindOne_def accountsRemove_def
  by (intro preserves_intros)+

end
