(* ===== verification/Backup.thy ===== *)
theory Backup
  imports Accounts
begin

text \<open>
  Export and import of the password entries as a round trip: what one vault exports, another one
  imports with the same fields and passwords, and importing into the vault it came from changes
  nothing. The lemmas follow the import entry by entry.
\<close>

section \<open>One entry\<close>

lemma readBody_export:
  "\<exists>data. readBody E (exportEntry a p) = Inr data \<and> bd_id data = None \<and> bd_userId data = None \<and>
     bd_serviceName data = Some (ac_serviceName a) \<and> bd_urlOrAppName data = Some (ac_urlOrAppName a) \<and>
     bd_category data = Some (ac_category a) \<and> bd_loginId data = Some (ac_loginId a) \<and>
     bd_customFields data = Some (orElse (ac_customFields a) JNull) \<and> bd_memo data = Some (ac_memo a) \<and>
     bd_password data = Some (JStr p) \<and> bd_createdAt data = None \<and> bd_updatedAt data = None \<and> \<not> bd_invalid data"
  by (cases "ac_memo a")
    (simp_all add: readBody_def exportEntry_def dateColumn_def accountColumns_def)

text \<open>
  The import of an entry: skipped when the user has an entry for the same site and login, and
  otherwise stored under the key of the importing session.
\<close>

definition taken :: "jsstring \<Rightarrow> account_row \<Rightarrow> account_row \<Rightarrow> bool" where
  "taken userId a b \<longleftrightarrow>
     ac_userId b = userId \<and> ac_urlOrAppName b = ac_urlOrAppName a \<and> ac_loginId b = ac_loginId a"

text \<open>What a restored row shares with the row it came from.\<close>

definition restores :: "env \<Rightarrow> jsstring \<Rightarrow> byte list \<Rightarrow> (account_row \<Rightarrow> jsstring) \<Rightarrow> account_row \<Rightarrow> account_row \<Rightarrow> bool" where
  "restores E userId key pt a b \<longleftrightarrow>
     ac_userId b = userId \<and> ac_serviceName b = ac_serviceName a \<and> ac_urlOrAppName b = ac_urlOrAppName a \<and>
     ac_category b = ac_category a \<and> ac_loginId b = ac_loginId a \<and>
     ac_customFields b = ac_customFields a \<and> ac_memo b = ac_memo a \<and>
     aesDecrypt E (ac_encryptedPassword b) key = Inr (pt a)"

text \<open>
  A row that can be exported and imported: its custom fields have one text form, and where they are
  missing the database client accepts the null of the backup file.
\<close>

definition portable :: "env \<Rightarrow> account_row \<Rightarrow> bool" where
  "portable E a \<longleftrightarrow>
     ac_customFields a \<noteq> Some JNull \<and> (ac_customFields a = None \<longrightarrow> acceptsJsonNull E) \<and>
     plainJson (orElse (ac_customFields a) JNull)"

lemma run_importEntry:
  assumes "goodPlatform E" and "length key = 32" and "userId \<in> u_id ` set (users (db w))"
    and "portable E a" and "wellFormed (pt a)"
    and "\<forall>b \<in> set (accounts (db w)). ac_id b \<noteq> uuid E (Suc (draws w))"
  shows "if \<exists>b \<in> set (accounts (db w)). taken userId a b
    then importEntry E userId key (exportEntry a (pt a)) (i, s) w =
      (Inr (i, s + 1), w\<lparr>draws := Suc (Suc (draws w))\<rparr>)
    else \<exists>row. importEntry E userId key (exportEntry a (pt a)) (i, s) w =
        (Inr (i + 1, s), w\<lparr>db := (db w)\<lparr>accounts := accounts (db w) @ [row]\<rparr>, draws := Suc (Suc (draws w))\<rparr>) \<and>
      restores E userId key pt a row \<and> ac_id row = uuid E (Suc (draws w))"
proof -
  obtain data0 where data0: "readBody E (exportEntry a (pt a)) = Inr data0" "bd_id data0 = None" "bd_userId data0 = None"
     "bd_serviceName data0 = Some (ac_serviceName a)" "bd_urlOrAppName data0 = Some (ac_urlOrAppName a)"
     "bd_category data0 = Some (ac_category a)" "bd_loginId data0 = Some (ac_loginId a)"
     "bd_customFields data0 = Some (orElse (ac_customFields a) JNull)" "bd_memo data0 = Some (ac_memo a)"
     "bd_password data0 = Some (JStr (pt a))" "\<not> bd_invalid data0"
    using readBody_export [of E a "pt a"] by blast
  define data where "data = (if bd_memo data0 = Some None then data0\<lparr>bd_memo := None\<rparr> else data0)"
  have entry: "entryBody E (exportEntry a (pt a)) = Inr data" by (simp add: entryBody_def data0(1) data_def)
  have data: "bd_id data = None" "bd_userId data = None" "bd_password data = Some (JStr (pt a))"
     "bd_urlOrAppName data = Some (ac_urlOrAppName a)" "bd_loginId data = Some (ac_loginId a)"
     "bd_serviceName data = Some (ac_serviceName a)" "bd_category data = Some (ac_category a)"
     "bd_customFields data = Some (orElse (ac_customFields a) JNull)" "orElse (bd_memo data) None = ac_memo a"
     "completeBody data"
    using data0 by (auto simp: data_def completeBody_def)
  have "\<not> rejected E data"
    using assms(4) data0(8,11) by (cases "ac_customFields a") (auto simp: rejected_def data_def portable_def)
  then obtain c row where c: "aesEncrypt E (draws w) (pt a) key = Inr c"
    and row: "newAccountRow userId data (uuid E (Suc (draws w))) c (clock w) = Some row"
    and run: "accountsCreate E userId key data w =
      (let w1 = w\<lparr>draws := Suc (draws w) + 1\<rparr> in
       case createAccount row (db w) of
         Inl e \<Rightarrow> (Inl (conflictOr (PrismaError e)), w1) | Inr d \<Rightarrow> (Inr row, w1\<lparr>db := d\<rparr>))"
    using run_create [OF assms(1,2) _ data(3,10), of w userId] data(1) by auto
  note fields = newAccountRow_fields [OF row]
  have clash: "(\<exists>b \<in> set (accounts (db w)). account_clash b row) \<longleftrightarrow> (\<exists>b \<in> set (accounts (db w)). taken userId a b)"
    using fields(1,2,4,5) data(2,4,5) assms(6) by (auto simp: account_clash_def taken_def)
  have create: "createAccount row (db w) =
      (if \<exists>b \<in> set (accounts (db w)). taken userId a b then Inl P2002
       else Inr ((db w)\<lparr>accounts := accounts (db w) @ [row]\<rparr>))"
    using fields(2) data(2) assms(3) clash by (simp add: createAccount_cases)
  have "aesDecrypt E c key = Inr (pt a)" using aes.dec_enc [OF _ assms(5) c] assms(1,2) by simp
  then have "restores E userId key pt a row"
    using fields data assms(4) by (cases "ac_customFields a") (auto simp: restores_def storedJson_def portable_def)
  then show ?thesis
    using create fields(1) exI [of _ row]
    by (cases "\<exists>b \<in> set (accounts (db w)). taken userId a b")
      (auto simp add: importEntry_def run_bindA run_catchA run_liftE run_ret run_throw entry run conflictOr_def)
qed

section \<open>All entries\<close>

text \<open>The ids drawn from here on are new.\<close>

definition freshIds :: "env \<Rightarrow> world \<Rightarrow> bool" where
  "freshIds E w \<longleftrightarrow> inj (uuid E) \<and> (\<forall>n \<ge> draws w. \<forall>b \<in> set (accounts (db w)). ac_id b \<noteq> uuid E n)"

lemma run_importAll:
  assumes "goodPlatform E" and "length key = 32" and "userId \<in> u_id ` set (users (db w))"
    and "\<forall>a \<in> set rows. portable E a \<and> wellFormed (pt a)" and "freshIds E w"
    and "\<forall>a \<in> set rows. \<forall>b \<in> set (accounts (db w)). \<not> taken userId a b"
    and "sorted_wrt (\<lambda>a b. ac_urlOrAppName a \<noteq> ac_urlOrAppName b \<or> ac_loginId a \<noteq> ac_loginId b) rows"
  shows "\<exists>new n. foldA (importEntry E userId key) (map (\<lambda>a. exportEntry a (pt a)) rows) (i, s) w =
      (Inr (i + length rows, s), w\<lparr>db := (db w)\<lparr>accounts := accounts (db w) @ new\<rparr>, draws := n\<rparr>) \<and>
    list_all2 (restores E userId key pt) rows new"
  using assms(3-)
proof (induction rows arbitrary: i w)
  case Nil
  show ?case by (intro exI [of _ "[]"] exI [of _ "draws w"]) (simp add: run_ret)
next
  case (Cons a rows)
  have "\<not> (\<exists>b \<in> set (accounts (db w)). taken userId a b)" using Cons.prems(4) by simp
  moreover have "\<forall>b \<in> set (accounts (db w)). ac_id b \<noteq> uuid E (Suc (draws w))"
    using Cons.prems(3) by (simp add: freshIds_def)
  ultimately obtain row where
    step: "importEntry E userId key (exportEntry a (pt a)) (i, s) w =
        (Inr (i + 1, s), w\<lparr>db := (db w)\<lparr>accounts := accounts (db w) @ [row]\<rparr>, draws := Suc (Suc (draws w))\<rparr>)"
    and row: "restores E userId key pt a row" "ac_id row = uuid E (Suc (draws w))"
    using run_importEntry [OF assms(1,2) Cons.prems(1), of a pt i s] Cons.prems(2) by auto
  let ?w = "w\<lparr>db := (db w)\<lparr>accounts := accounts (db w) @ [row]\<rparr>, draws := Suc (Suc (draws w))\<rparr>"
  have "freshIds E ?w"
    using Cons.prems(3) row(2) by (auto simp: freshIds_def dest: injD)
  moreover have "\<forall>a \<in> set rows. \<forall>b \<in> set (accounts (db ?w)). \<not> taken userId a b"
    using Cons.prems(4,5) row(1) by (auto simp: taken_def restores_def)
  ultimately obtain new n where
    loop: "foldA (importEntry E userId key) (map (\<lambda>a. exportEntry a (pt a)) rows) (i + 1, s) ?w =
      (Inr (i + 1 + length rows, s), ?w\<lparr>db := (db ?w)\<lparr>accounts := accounts (db ?w) @ new\<rparr>, draws := n\<rparr>)"
    and new: "list_all2 (restores E userId key pt) rows new"
    using Cons.IH [of ?w "i + 1"] Cons.prems(1,2,5) by auto
  show ?case
    using step loop new row(1)
    by (intro exI [of _ "row # new"] exI [of _ n]) (simp add: run_bindA)
qed

lemma run_importTaken:
  assumes "goodPlatform E" and "length key = 32" and "userId \<in> u_id ` set (users (db w))"
    and "\<forall>a \<in> set rows. portable E a \<and> wellFormed (pt a)" and "freshIds E w"
    and "\<forall>a \<in> set rows. \<exists>b \<in> set (accounts (db w)). taken userId a b"
  shows "\<exists>n. foldA (importEntry E userId key) (map (\<lambda>a. exportEntry a (pt a)) rows) (i, s) w =
      (Inr (i, s + length rows), w\<lparr>draws := n\<rparr>)"
  using assms(3-)
proof (induction rows arbitrary: s w)
  case Nil
  show ?case by (intro exI [of _ "draws w"]) (simp add: run_ret)
next
  case (Cons a rows)
  have "\<forall>b \<in> set (accounts (db w)). ac_id b \<noteq> uuid E (Suc (draws w))"
    using Cons.prems(3) by (simp add: freshIds_def)
  then have step: "importEntry E userId key (exportEntry a (pt a)) (i, s) w =
      (Inr (i, s + 1), w\<lparr>draws := Suc (Suc (draws w))\<rparr>)"
    using run_importEntry [OF assms(1,2) Cons.prems(1), of a pt i s] Cons.prems(2,4) by auto
  let ?w = "w\<lparr>draws := Suc (Suc (draws w))\<rparr>"
  have "freshIds E ?w" using Cons.prems(3) by (simp add: freshIds_def)
  then obtain n where "foldA (importEntry E userId key) (map (\<lambda>a. exportEntry a (pt a)) rows) (i, s + 1) ?w =
      (Inr (i, s + 1 + length rows), ?w\<lparr>draws := n\<rparr>)"
    using Cons.IH [of ?w "s + 1"] Cons.prems by auto
  then show ?case using step by (intro exI [of _ n]) (simp add: run_bindA)
qed

section \<open>The file\<close>

definition vault :: "jsstring \<Rightarrow> database \<Rightarrow> account_row list" where
  "vault userId d = oldestFirst ac_createdAt (filter (\<lambda>a. ac_userId a = userId) (accounts d))"

lemma set_vault: "set (vault userId d) = {a \<in> set (accounts d). ac_userId a = userId}"
  by (simp add: vault_def oldestFirst_def)

lemma vault_distinct:
  assumes "dbInv d"
  shows "sorted_wrt (\<lambda>a b. ac_urlOrAppName a \<noteq> ac_urlOrAppName b \<or> ac_loginId a \<noteq> ac_loginId b) (vault userId d)"
proof -
  note ok = dbInv_tables(3) [OF assms]
  have "distinct (map ac_id (accounts d))" by (rule account_table.ok_distinct [OF ok])
  then have "distinct (accounts d)" by (simp add: distinct_map)
  then have dist: "distinct (vault userId d)" by (simp add: vault_def oldestFirst_def)
  have "a = b" if "a \<in> set (vault userId d)" "b \<in> set (vault userId d)"
    "ac_urlOrAppName a = ac_urlOrAppName b" "ac_loginId a = ac_loginId b" for a b
  proof -
    have "account_clash a b" using that by (auto simp: set_vault account_clash_def)
    then show ?thesis using account_table.ok_clash_eq [OF ok] that(1,2) by (auto simp: set_vault)
  qed
  note same = this
  show ?thesis unfolding sorted_wrt_iff_nth_less
  proof (intro allI impI, rule ccontr)
    fix i j assume ij: "i < j" "j < length (vault userId d)"
      and "\<not> (ac_urlOrAppName (vault userId d ! i) \<noteq> ac_urlOrAppName (vault userId d ! j) \<or>
              ac_loginId (vault userId d ! i) \<noteq> ac_loginId (vault userId d ! j))"
    then have "vault userId d ! i = vault userId d ! j" by (intro same nth_mem) simp_all
    then show False using ij nth_eq_iff_index_eq [OF dist, of i j] by simp
  qed
qed

lemma run_export:
  assumes "goodPlatform E" and "argon2Law E" and "jsonLaw E"
    and "\<forall>a \<in> set (vault userId (db w)). portable E a \<and> aesDecrypt E (ac_encryptedPassword a) key = Inr (pt a)"
  shows "\<exists>file exportKey text. exportAccounts E userId key (Some pw) w = (Inr file, w\<lparr>draws := Suc (Suc (draws w))\<rparr>) \<and>
    bf_version file = Fin 1 \<and> deriveKey E pw (bf_salt file) = Inr exportKey \<and>
    aesDecrypt E (bf_payload file) exportKey = Inr text \<and>
    jsonParse E text = Some (JArr (map (\<lambda>a. exportEntry a (pt a)) (vault userId (db w))))"
proof -
  let ?v = "JArr (map (\<lambda>a. exportEntry a (pt a)) (vault userId (db w)))"
  have "plainJson (exportEntry a (pt a))" if "a \<in> set (vault userId (db w))" for a
    using assms(4) that by (cases "ac_memo a") (auto simp: exportEntry_def portable_def digitFirst_def js_def)
  then have "plainJson ?v" by simp
  then have json: "jsonParse E (jsonStringify E ?v) = Some ?v" "wellFormed (jsonStringify E ?v)"
    using assms(3) unfolding jsonLaw_def by blast+
  have dec: "mapE (decryptEntry E key) (vault userId (db w)) = Inr (map (\<lambda>a. exportEntry a (pt a)) (vault userId (db w)))"
    using assms(4) by (intro mapE_all_Inr) (simp add: decryptEntry_def)
  let ?salt = "base64Encode (randomBytes E (draws w) 16)"
  obtain k where k: "deriveKey E pw ?salt = Inr k" "length k = 32"
    using deriveKey_fresh assms(1,2) unfolding goodPlatform_def by blast
  obtain c where c: "aesEncrypt E (Suc (draws w)) (jsonStringify E ?v) k = Inr c"
    using aes.enc_total assms(1) k(2) by blast
  have "aesDecrypt E c k = Inr (jsonStringify E ?v)"
    using aes.dec_enc [OF _ json(2) c] assms(1) k(2) by simp
  moreover have "exportAccounts E userId key (Some pw) w =
      (Inr \<lparr>bf_version = Fin 1, bf_exportedAt = toISOString E (clock w), bf_salt = ?salt, bf_payload = c\<rparr>,
       w\<lparr>draws := Suc (Suc (draws w))\<rparr>)"
    using dec k(1) c by (simp add: exportAccounts_def act_simps flip: vault_def)
  ultimately show ?thesis using k(1) json(1)
    by (intro exI [of _ "\<lparr>bf_version = Fin 1, bf_exportedAt = toISOString E (clock w), bf_salt = ?salt, bf_payload = c\<rparr>"]
        exI [of _ k] exI [of _ "jsonStringify E ?v"]) simp
qed

lemma run_import:
  assumes "bf_version file = Fin 1" and "deriveKey E pw (bf_salt file) = Inr exportKey"
    and "aesDecrypt E (bf_payload file) exportKey = Inr text" and "jsonParse E text = Some (JArr entries)"
  shows "importAccounts E userId key (Some pw) file w = foldA (importEntry E userId key) entries (0, 0) w"
  using assms by (simp add: importAccounts_def act_simps iterate_def)

section \<open>Properties\<close>

definition restoredFrom :: "env \<Rightarrow> byte list \<Rightarrow> jsstring \<Rightarrow> byte list \<Rightarrow> account_row \<Rightarrow> account_row \<Rightarrow> bool" where
  "restoredFrom E keyA userB keyB a b \<longleftrightarrow>
     ac_userId b = userB \<and> ac_serviceName b = ac_serviceName a \<and>
     ac_urlOrAppName b = ac_urlOrAppName a \<and> ac_category b = ac_category a \<and> ac_loginId b = ac_loginId a \<and>
     ac_customFields b = ac_customFields a \<and> ac_memo b = ac_memo a \<and>
     aesDecrypt E (ac_encryptedPassword b) keyB = aesDecrypt E (ac_encryptedPassword a) keyA"

text \<open>The round trip, which the pages use too.\<close>

lemma backup_trip:
  assumes "goodPlatform E" and "argon2Law E" and "jsonLaw E" and "dbInv (db w)" and "length keyB = 32"
    and "\<forall>a \<in> set (vault userA (db w)). portable E a \<and>
      (\<exists>p. wellFormed p \<and> aesDecrypt E (ac_encryptedPassword a) keyA = Inr p)"
  shows "\<exists>file n. exportAccounts E userA keyA (Some pw) w = (Inr file, w\<lparr>draws := n\<rparr>) \<and>
    (\<forall>v. userB \<in> u_id ` set (users (db v)) \<longrightarrow> freshIds E v \<longrightarrow>
       (\<forall>a \<in> set (vault userA (db w)). \<forall>b \<in> set (accounts (db v)). \<not> taken userB a b) \<longrightarrow>
       (\<exists>new k. importAccounts E userB keyB (Some pw) file v =
          (Inr (length (vault userA (db w)), 0), v\<lparr>db := (db v)\<lparr>accounts := accounts (db v) @ new\<rparr>, draws := k\<rparr>) \<and>
        list_all2 (restoredFrom E keyA userB keyB) (vault userA (db w)) new))"
proof -
  obtain pt where pt: "\<forall>a \<in> set (vault userA (db w)). wellFormed (pt a) \<and>
      aesDecrypt E (ac_encryptedPassword a) keyA = Inr (pt a)"
    using assms(6) bchoice [of "set (vault userA (db w))"
        "\<lambda>a p. wellFormed p \<and> aesDecrypt E (ac_encryptedPassword a) keyA = Inr p"] by auto
  then have ok: "\<forall>a \<in> set (vault userA (db w)). portable E a \<and> wellFormed (pt a)"
    and ok': "\<forall>a \<in> set (vault userA (db w)). portable E a \<and> aesDecrypt E (ac_encryptedPassword a) keyA = Inr (pt a)"
    using assms(6) by blast+
  obtain bk k tx where export: "exportAccounts E userA keyA (Some pw) w = (Inr bk, w\<lparr>draws := Suc (Suc (draws w))\<rparr>)"
    and backup: "bf_version bk = Fin 1" "deriveKey E pw (bf_salt bk) = Inr k"
      "aesDecrypt E (bf_payload bk) k = Inr tx"
      "jsonParse E tx = Some (JArr (map (\<lambda>a. exportEntry a (pt a)) (vault userA (db w))))"
    using run_export [OF assms(1-3) ok', of pw] by blast
  have same: "list_all2 (restoredFrom E keyA userB keyB) (vault userA (db w)) new" if "list_all2 (restores E userB keyB pt) (vault userA (db w)) new" for new
    using that by (rule list.rel_mono_strong) (use pt in \<open>auto simp: restores_def restoredFrom_def\<close>)
  show ?thesis
  proof (rule exI [of _ bk], rule exI [of _ "Suc (Suc (draws w))"], rule conjI [OF export], intro allI impI)
    fix v
    assume v: "userB \<in> u_id ` set (users (db v))" "freshIds E v"
      "\<forall>a \<in> set (vault userA (db w)). \<forall>b \<in> set (accounts (db v)). \<not> taken userB a b"
    show "\<exists>new k. importAccounts E userB keyB (Some pw) bk v =
          (Inr (length (vault userA (db w)), 0), v\<lparr>db := (db v)\<lparr>accounts := accounts (db v) @ new\<rparr>, draws := k\<rparr>) \<and>
        list_all2 (restoredFrom E keyA userB keyB) (vault userA (db w)) new"
      using run_importAll [OF assms(1,5) v(1) ok v(2,3) vault_distinct [OF assms(4)], of 0 0]
      unfolding run_import [OF backup] add_0
      by (elim exE conjE) (intro exI conjI, assumption, erule same)
  qed
qed

text \<open>
  a backup restores the vault. Exporting succeeds when every password of the vault can be read,
  and the file, imported with the same export password into a vault that has none of the entries
  yet, yields one new entry for each exported one, in order, with the same fields and the same
  password under the key of the importing session; nothing is skipped and no other row changes.
\<close>

theorem backup_roundtrip:
  assumes "goodPlatform E" and "argon2Law E" and "jsonLaw E" and "dbInv (db w)" and "length keyB = 32"
    and "\<forall>a \<in> set (vault userA (db w)). portable E a \<and>
      (\<exists>p. wellFormed p \<and> aesDecrypt E (ac_encryptedPassword a) keyA = Inr p)"
  shows "\<exists>file n. exportAccounts E userA keyA (Some pw) w = (Inr file, w\<lparr>draws := n\<rparr>) \<and>
    (\<forall>v. userB \<in> u_id ` set (users (db v)) \<longrightarrow> freshIds E v \<longrightarrow>
       (\<forall>a \<in> set (vault userA (db w)). \<forall>b \<in> set (accounts (db v)). \<not> taken userB a b) \<longrightarrow>
       (\<exists>new k. importAccounts E userB keyB (Some pw) file v =
          (Inr (length (vault userA (db w)), 0), v\<lparr>db := (db v)\<lparr>accounts := accounts (db v) @ new\<rparr>, draws := k\<rparr>) \<and>
        list_all2 (restoredFrom E keyA userB keyB) (vault userA (db w)) new))"
  using assms by (rule backup_trip)

text \<open>
  importing a backup into the vault it was taken from skips every entry and leaves the database
  as it is, so a restore can safely be repeated.
\<close>

theorem import_twice:
  assumes "goodPlatform E" and "argon2Law E" and "jsonLaw E" and "worldInv w" and "length key = 32"
    and "freshIds E w"
    and "\<forall>a \<in> set (vault userA (db w)). portable E a \<and>
      (\<exists>p. wellFormed p \<and> aesDecrypt E (ac_encryptedPassword a) key = Inr p)"
    and "userA \<in> u_id ` set (users (db w))"
  shows "\<exists>file w1 n. exportAccounts E userA key (Some pw) w = (Inr file, w1) \<and>
    importAccounts E userA key (Some pw) file w1 = (Inr (0, length (vault userA (db w))), w\<lparr>draws := n\<rparr>)"
proof -
  obtain pt where pt: "\<forall>a \<in> set (vault userA (db w)). wellFormed (pt a) \<and>
      aesDecrypt E (ac_encryptedPassword a) key = Inr (pt a)"
    using assms(7) bchoice [of "set (vault userA (db w))"
        "\<lambda>a p. wellFormed p \<and> aesDecrypt E (ac_encryptedPassword a) key = Inr p"] by auto
  then have ok: "\<forall>a \<in> set (vault userA (db w)). portable E a \<and> wellFormed (pt a)"
    and ok': "\<forall>a \<in> set (vault userA (db w)). portable E a \<and> aesDecrypt E (ac_encryptedPassword a) key = Inr (pt a)"
    using assms(7) by blast+
  let ?w = "w\<lparr>draws := Suc (Suc (draws w))\<rparr>"
  obtain bk k tx where export: "exportAccounts E userA key (Some pw) w = (Inr bk, ?w)"
    and backup: "bf_version bk = Fin 1" "deriveKey E pw (bf_salt bk) = Inr k"
      "aesDecrypt E (bf_payload bk) k = Inr tx"
      "jsonParse E tx = Some (JArr (map (\<lambda>a. exportEntry a (pt a)) (vault userA (db w))))"
    using run_export [OF assms(1-3) ok', of pw] by blast
  have "freshIds E ?w" using assms(6) by (simp add: freshIds_def)
  moreover have "\<forall>a \<in> set (vault userA (db w)). \<exists>b \<in> set (accounts (db ?w)). taken userA a b"
    by (auto simp: set_vault taken_def)
  ultimately obtain n where "importAccounts E userA key (Some pw) bk ?w =
      (Inr (0, length (vault userA (db w))), ?w\<lparr>draws := n\<rparr>)"
    unfolding run_import [OF backup]
    using run_importTaken [OF assms(1,5) _ ok, of userA ?w 0 0] assms(8) by auto
  then show ?thesis using export by auto
qed

lemma demo_freshIds: "accounts (db w) = accounts demoDb \<Longrightarrow> freshIds demoEnv w"
  by (auto simp: freshIds_def demoEnv_def demoDb_def demoAccount_def js_def inj_def)

lemma demo_vault:
  "\<forall>a \<in> set (vault userId (db demoWorld)). portable demoEnv a \<and>
     (\<exists>p. wellFormed p \<and> aesDecrypt demoEnv (ac_encryptedPassword a) demoUserKey = Inr p)"
proof -
  have "aesDecrypt demoEnv (demoSeal (js ''pw'') demoUserKey) demoUserKey = Inr (js ''pw'')"
    by (rule demo_open) (simp_all add: length_demoUserKey)
  then show ?thesis
    by (auto simp: set_vault demoWorld_def demoDb_def demoAccount_def portable_def demoEnv_def
        intro!: exI [of _ "js ''pw''"])
qed

lemma length_demo_vault: "length (vault (js ''u1'') (db demoWorld)) = 1"
  by (simp add: vault_def oldestFirst_def demoWorld_def demoDb_def demoAccount_def)

lemma backup_roundtrip_witness:
  "\<exists>bk n v new k. exportAccounts demoEnv (js ''u1'') demoUserKey (Some (js ''export'')) demoWorld =
      (Inr bk, demoWorld\<lparr>draws := n\<rparr>) \<and>
    importAccounts demoEnv (js ''u1'') (replicate 32 9) (Some (js ''export'')) bk
      (demoWorld\<lparr>db := demoDb\<lparr>accounts := []\<rparr>\<rparr>) = (Inr (1, 0), v) \<and>
    accounts (db v) = [new] \<and> aesDecrypt demoEnv (ac_encryptedPassword new) (replicate 32 9) = Inr k"
proof -
  let ?v = "demoWorld\<lparr>db := demoDb\<lparr>accounts := []\<rparr>\<rparr>"
  have inv: "dbInv (db demoWorld)" using dbInv_demoDb by (simp add: demoWorld_def)
  have user: "js ''u1'' \<in> u_id ` set (users (db ?v))" by (simp add: demoDb_def demoUser_def)
  have fresh: "freshIds demoEnv ?v" by (simp add: freshIds_def demoEnv_def inj_def)
  have key: "length (replicate 32 9 :: byte list) = 32" by simp
  obtain bk n where export: "exportAccounts demoEnv (js ''u1'') demoUserKey (Some (js ''export'')) demoWorld =
      (Inr bk, demoWorld\<lparr>draws := n\<rparr>)"
    and trip: "\<forall>v. js ''u1'' \<in> u_id ` set (users (db v)) \<longrightarrow> freshIds demoEnv v \<longrightarrow>
       (\<forall>a \<in> set (vault (js ''u1'') (db demoWorld)). \<forall>b \<in> set (accounts (db v)). \<not> taken (js ''u1'') a b) \<longrightarrow>
       (\<exists>new k. importAccounts demoEnv (js ''u1'') (replicate 32 9) (Some (js ''export'')) bk v =
          (Inr (length (vault (js ''u1'') (db demoWorld)), 0), v\<lparr>db := (db v)\<lparr>accounts := accounts (db v) @ new\<rparr>, draws := k\<rparr>) \<and>
        list_all2 (restoredFrom demoEnv demoUserKey (js ''u1'') (replicate 32 9)) (vault (js ''u1'') (db demoWorld)) new)"
    using backup_roundtrip [OF goodPlatform_demo argon2Law_demoEnv jsonLaw_demoEnv inv key demo_vault [of "js ''u1''"],
        of "js ''export''" "js ''u1''"]
    by (elim exE conjE) (rule that)
  obtain new k where imp: "importAccounts demoEnv (js ''u1'') (replicate 32 9) (Some (js ''export'')) bk ?v =
      (Inr (length (vault (js ''u1'') (db demoWorld)), 0), ?v\<lparr>db := (db ?v)\<lparr>accounts := accounts (db ?v) @ new\<rparr>, draws := k\<rparr>)"
    and new: "list_all2 (restoredFrom demoEnv demoUserKey (js ''u1'') (replicate 32 9)) (vault (js ''u1'') (db demoWorld)) new"
    using spec [OF trip, of ?v, THEN mp, OF user, THEN mp, OF fresh] by auto
  obtain a where a: "vault (js ''u1'') (db demoWorld) = [a]"
    using length_demo_vault by (auto simp: length_Suc_conv)
  then obtain b where "new = [b]" and
    "aesDecrypt demoEnv (ac_encryptedPassword b) (replicate 32 9) = aesDecrypt demoEnv (ac_encryptedPassword a) demoUserKey"
    using new by (auto simp: list_all2_Cons1 restoredFrom_def)
  moreover obtain p where "aesDecrypt demoEnv (ac_encryptedPassword a) demoUserKey = Inr p"
    using demo_vault [of "js ''u1''"] a by auto
  ultimately show ?thesis using export imp a by auto
qed

lemma import_twice_witness:
  "\<exists>bk w1 n. exportAccounts demoEnv (js ''u1'') demoUserKey (Some (js ''export'')) demoWorld = (Inr bk, w1) \<and>
    importAccounts demoEnv (js ''u1'') demoUserKey (Some (js ''export'')) bk w1 =
      (Inr (0, 1), demoWorld\<lparr>draws := n\<rparr>)"
proof -
  have "js ''u1'' \<in> u_id ` set (users (db demoWorld))" by (simp add: demoWorld_def demoDb_def demoUser_def)
  moreover have "freshIds demoEnv demoWorld" by (rule demo_freshIds) (simp add: demoWorld_def)
  ultimately show ?thesis
    using import_twice [OF goodPlatform_demo argon2Law_demoEnv jsonLaw_demoEnv worldInv_demoWorld length_demoUserKey
        _ demo_vault [of "js ''u1''"], of "js ''export''"] length_demo_vault by simp
qed

end
