(* ===== verification/RuleMatcher.thy ===== *)
theory RuleMatcher
  imports Database Platform
begin

text \<open>
  \<open>mail/rules/rule-matcher.util.ts\<close> and the message type of \<open>mail-provider.interface.ts\<close>. The
  matcher follows the source: it reads the condition value property by property (a JSON null makes
  that throw), dispatches on the type of the condition and joins the results. The specification
  reads a condition as a \<open>clause\<close>, whose meaning is stated by substrings and code points.
\<close>

section \<open>Messages and rules\<close>

text \<open>\<open>RawMailMessage\<close>; \<open>None\<close> is the invalid date.\<close>

record raw_mail_message =
  rm_externalMessageId :: jsstring
  rm_sender :: jsstring
  rm_subject :: jsstring
  rm_bodyPreview :: jsstring
  rm_receivedAt :: "int option"
  rm_hasAttachment :: bool

record rule_with_conditions =
  rc_rule :: rule_row
  rc_conditions :: "condition_row list"

section \<open>The matcher\<close>

text \<open>Reading a property of a JSON value: null has none and throws, only objects have any.\<close>

fun getField :: "json \<Rightarrow> jsstring \<Rightarrow> exn + json option" where
  "getField JNull _ = Inl TypeError"
| "getField (JObj kvs) k = Inr (map_of kvs k)"
| "getField _ _ = Inr None"

definition stringField :: "json \<Rightarrow> jsstring \<Rightarrow> exn + jsstring option" where
  "stringField v k =
     (case getField v k of
        Inl e \<Rightarrow> Inl e
      | Inr (Some (JStr s)) \<Rightarrow> Inr (Some s)
      | Inr _ \<Rightarrow> Inr None)"

text \<open>The test \<open>value.equals !== false\<close>.\<close>

definition expectedField :: "json \<Rightarrow> exn + bool" where
  "expectedField v =
     (case getField v (js ''equals'') of Inl e \<Rightarrow> Inl e | Inr f \<Rightarrow> Inr (f \<noteq> Some (JBool False)))"

definition testEmoji :: "env \<Rightarrow> jsstring \<Rightarrow> bool" where
  "testEmoji E s = list_ex (extendedPictographic E) (codePoints s)"

text \<open>\<open>!!needle && text.toLowerCase().includes(needle.toLowerCase())\<close>.\<close>

definition needleIn :: "env \<Rightarrow> jsstring option \<Rightarrow> jsstring \<Rightarrow> bool" where
  "needleIn E needle t \<longleftrightarrow>
     truthy needle \<and> includesStr (toLowerCase E t) (toLowerCase E (orElse needle []))"

definition evaluateCondition :: "env \<Rightarrow> raw_mail_message \<Rightarrow> condition_row \<Rightarrow> exn + bool" where
  "evaluateCondition E m condition =
     (let value = co_conditionValue condition; type = co_conditionType condition in
      if type = js ''sender'' then
        (case stringField value (js ''domain'') of
           Inl e \<Rightarrow> Inl e
         | Inr domain \<Rightarrow>
             (case stringField value (js ''contains'') of
                Inl e \<Rightarrow> Inl e
              | Inr contains \<Rightarrow>
                  (let needle = (case domain of Some d \<Rightarrow> Some d | None \<Rightarrow> contains) in
                   Inr (needleIn E needle (rm_sender m)))))
      else if type = js ''subject_keyword'' then
        (case stringField value (js ''contains'') of
           Inl e \<Rightarrow> Inl e | Inr contains \<Rightarrow> Inr (needleIn E contains (rm_subject m)))
      else if type = js ''body_keyword'' then
        (case stringField value (js ''contains'') of
           Inl e \<Rightarrow> Inl e | Inr contains \<Rightarrow> Inr (needleIn E contains (rm_bodyPreview m)))
      else if type = js ''has_emoji'' then
        (case expectedField value of
           Inl e \<Rightarrow> Inl e
         | Inr expected \<Rightarrow>
             Inr ((testEmoji E (rm_subject m) \<or> testEmoji E (rm_bodyPreview m)) = expected))
      else if type = js ''has_attachment'' then
        (case expectedField value of
           Inl e \<Rightarrow> Inl e | Inr expected \<Rightarrow> Inr (rm_hasAttachment m = expected))
      else Inr False)"

text \<open>All conditions are evaluated before the results are joined.\<close>

definition messageMatchesRule :: "env \<Rightarrow> raw_mail_message \<Rightarrow> rule_with_conditions \<Rightarrow> exn + bool" where
  "messageMatchesRule E m rule =
     (if length (rc_conditions rule) = 0 then Inr False
      else case mapE (evaluateCondition E m) (rc_conditions rule) of
          Inl e \<Rightarrow> Inl e
        | Inr results \<Rightarrow>
            Inr (if ru_logicalOperator (rc_rule rule) = OpOR then list_ex (\<lambda>b. b) results
                 else list_all (\<lambda>b. b) results))"

section \<open>The specification\<close>

text \<open>What a condition says: a text to find in one of three places, an emoji or an attachment that
  is expected or excluded, or nothing that could be met.\<close>

datatype place = Sender | Subject | Body

datatype clause = Contains place jsstring | HasEmoji bool | HasAttachment bool | Never

fun textAt :: "place \<Rightarrow> raw_mail_message \<Rightarrow> jsstring" where
  "textAt Sender m = rm_sender m"
| "textAt Subject m = rm_subject m"
| "textAt Body m = rm_bodyPreview m"

fun jsonField :: "json \<Rightarrow> jsstring \<Rightarrow> json option" where
  "jsonField (JObj kvs) k = map_of kvs k"
| "jsonField _ _ = None"

fun containsClause :: "place \<Rightarrow> json option \<Rightarrow> clause" where
  "containsClause p (Some (JStr s)) = (if s = [] then Never else Contains p s)"
| "containsClause p _ = Never"

definition readCondition :: "condition_row \<Rightarrow> clause" where
  "readCondition c =
     (let f = jsonField (co_conditionValue c); t = co_conditionType c in
      if t = js ''sender'' then
        (case f (js ''domain'') of
           Some (JStr s) \<Rightarrow> containsClause Sender (Some (JStr s))
         | _ \<Rightarrow> containsClause Sender (f (js ''contains'')))
      else if t = js ''subject_keyword'' then containsClause Subject (f (js ''contains''))
      else if t = js ''body_keyword'' then containsClause Body (f (js ''contains''))
      else if t = js ''has_emoji'' then HasEmoji (f (js ''equals'') \<noteq> Some (JBool False))
      else if t = js ''has_attachment'' then HasAttachment (f (js ''equals'') \<noteq> Some (JBool False))
      else Never)"

fun clauseHolds :: "env \<Rightarrow> raw_mail_message \<Rightarrow> clause \<Rightarrow> bool" where
  "clauseHolds E m (Contains p s) = sublist (toLowerCase E s) (toLowerCase E (textAt p m))"
| "clauseHolds E m (HasEmoji b) =
     (b \<longleftrightarrow> (\<exists>c \<in> set (codePoints (rm_subject m)) \<union> set (codePoints (rm_bodyPreview m)).
               extendedPictographic E c))"
| "clauseHolds E m (HasAttachment b) = (b \<longleftrightarrow> rm_hasAttachment m)"
| "clauseHolds E m Never = False"

text \<open>A rule matches when it has conditions and one of them, or all of them, hold.\<close>

definition ruleHolds :: "env \<Rightarrow> raw_mail_message \<Rightarrow> rule_with_conditions \<Rightarrow> bool" where
  "ruleHolds E m rule \<longleftrightarrow>
     rc_conditions rule \<noteq> [] \<and>
     (case ru_logicalOperator (rc_rule rule) of
        OpOR \<Rightarrow> \<exists>c \<in> set (rc_conditions rule). clauseHolds E m (readCondition c)
      | OpAND \<Rightarrow> \<forall>c \<in> set (rc_conditions rule). clauseHolds E m (readCondition c))"

lemma getField_jsonField: "v \<noteq> JNull \<Longrightarrow> getField v k = Inr (jsonField v k)"
  by (cases v) simp_all

lemma needleIn_simps [simp]:
  "\<not> needleIn E None t"
  "needleIn E (Some s) t \<longleftrightarrow> s \<noteq> [] \<and> sublist (toLowerCase E s) (toLowerCase E t)"
  by (simp_all add: needleIn_def includesStr_sublist)

lemma stringField_clause:
  assumes "v \<noteq> JNull"
  obtains s where "stringField v k = Inr s"
    and "\<And>p. needleIn E s (textAt p m) = clauseHolds E m (containsClause p (jsonField v k))"
    and "\<And>r. s = Some r \<longleftrightarrow> jsonField v k = Some (JStr r)"
proof (cases "jsonField v k")
  case None
  then show ?thesis using that [of None] assms by (simp add: stringField_def getField_jsonField)
next
  case (Some j)
  then show ?thesis
  proof (cases j)
    case (JStr s)
    then show ?thesis using that [of "Some s"] Some assms
      by (auto simp add: stringField_def getField_jsonField)
  qed (use Some assms that [of None] in \<open>simp_all add: stringField_def getField_jsonField\<close>)
qed

lemma testEmoji_or:
  "testEmoji E s \<or> testEmoji E t \<longleftrightarrow>
    (\<exists>c \<in> set (codePoints s) \<union> set (codePoints t). extendedPictographic E c)"
  by (auto simp: testEmoji_def list_ex_iff)

text \<open>A condition on a value that is not null evaluates to the meaning of its clause.\<close>

lemma evaluateCondition_clause:
  assumes "co_conditionValue c \<noteq> JNull"
  shows "evaluateCondition E m c = Inr (clauseHolds E m (readCondition c))"
proof -
  let ?v = "co_conditionValue c"
  obtain d where d: "stringField ?v (js ''domain'') = Inr d"
      "needleIn E d (textAt Sender m) = clauseHolds E m (containsClause Sender (jsonField ?v (js ''domain'')))"
      "\<And>r. d = Some r \<longleftrightarrow> jsonField ?v (js ''domain'') = Some (JStr r)"
    by (rule stringField_clause [OF assms]) blast
  obtain n where n: "stringField ?v (js ''contains'') = Inr n"
      "\<And>p. needleIn E n (textAt p m) = clauseHolds E m (containsClause p (jsonField ?v (js ''contains'')))"
    by (rule stringField_clause [OF assms]) blast
  have e: "expectedField ?v = Inr (jsonField ?v (js ''equals'') \<noteq> Some (JBool False))"
    by (simp add: expectedField_def getField_jsonField assms)
  have place: "rm_sender m = textAt Sender m" "rm_subject m = textAt Subject m"
      "rm_bodyPreview m = textAt Body m" by simp_all
  consider (sender) "co_conditionType c = js ''sender''"
    | (subject) "co_conditionType c = js ''subject_keyword''"
    | (body) "co_conditionType c = js ''body_keyword''"
    | (other) "co_conditionType c \<notin> {js ''sender'', js ''subject_keyword'', js ''body_keyword''}"
    by auto
  then show ?thesis
  proof cases
    case sender
    show ?thesis
    proof (cases d)
      case None
      then have "\<And>r. jsonField ?v (js ''domain'') \<noteq> Some (JStr r)" using d(3) by auto
      then have "readCondition c = containsClause Sender (jsonField ?v (js ''contains''))"
        using sender by (auto simp: readCondition_def Let_def split: option.split json.split)
      then show ?thesis using sender None d(1) n by (simp add: evaluateCondition_def place(1) del: textAt.simps)
    next
      case (Some s)
      then have "jsonField ?v (js ''domain'') = Some (JStr s)" using d(3) by simp
      then show ?thesis using sender Some d(1,2) n(1)
        by (simp add: evaluateCondition_def readCondition_def)
    qed
  next
    case subject
    then show ?thesis using n
      by (simp add: evaluateCondition_def readCondition_def place(2) del: textAt.simps)
  next
    case body
    then show ?thesis using n
      by (simp add: evaluateCondition_def readCondition_def place(3) del: textAt.simps)
  next
    case other
    then show ?thesis using e
      by (auto simp add: evaluateCondition_def readCondition_def testEmoji_or Let_def)
  qed
qed

lemma matcher_refines:
  assumes "\<forall>c \<in> set (rc_conditions rule). co_conditionValue c \<noteq> JNull"
  shows "messageMatchesRule E m rule = Inr (ruleHolds E m rule)"
proof -
  have "mapE (evaluateCondition E m) (rc_conditions rule) =
      Inr (map (\<lambda>c. clauseHolds E m (readCondition c)) (rc_conditions rule))"
    using assms by (intro mapE_all_Inr evaluateCondition_clause) auto
  then show ?thesis
    by (simp add: messageMatchesRule_def ruleHolds_def list_ex_iff list_all_iff
        split: logical_operator.split)
qed

text \<open>The only way the matcher throws is a null condition value.\<close>

lemma matcher_throws:
  assumes "messageMatchesRule E m rule = Inl e"
  shows "\<exists>c \<in> set (rc_conditions rule). co_conditionValue c = JNull"
  using assms matcher_refines by fastforce

section \<open>Properties\<close>

text \<open>
  C11: on rules whose condition values are not null, the matcher decides the specification: a rule
  with no condition matches nothing, with OR one clause has to hold, otherwise all of them.
\<close>

theorem matcher_spec:
  assumes "\<forall>c \<in> set (rc_conditions rule). co_conditionValue c \<noteq> JNull"
  shows "messageMatchesRule E m rule = Inr (ruleHolds E m rule)"
  by (rule matcher_refines [OF assms])

definition demoMail :: raw_mail_message where
  "demoMail =
     \<lparr>rm_externalMessageId = js ''m1'', rm_sender = js ''news@shop.example'', rm_subject = js ''sale'',
      rm_bodyPreview = js ''hi'', rm_receivedAt = Some 5, rm_hasAttachment = False\<rparr>"

definition demoMailRule :: rule_with_conditions where
  "demoMailRule =
     \<lparr>rc_rule = \<lparr>ru_id = js ''r1'', ru_emailAccountId = js ''e1'', ru_logicalOperator = OpOR,
        ru_actionType = js ''important'', ru_isActive = True, ru_createdAt = 0\<rparr>,
      rc_conditions =
        [\<lparr>co_id = js ''n1'', co_ruleId = js ''r1'', co_conditionType = js ''has_emoji'',
          co_conditionValue = JObj []\<rparr>,
         \<lparr>co_id = js ''n2'', co_ruleId = js ''r1'', co_conditionType = js ''sender'',
          co_conditionValue = JObj [(js ''domain'', JStr (js ''shop.example''))]\<rparr>]\<rparr>"

lemma matcher_spec_witness:
  "messageMatchesRule demoEnv demoMail demoMailRule = Inr True"
proof -
  have "includesStr (js ''news@shop.example'') (js ''shop.example'')"
    by (simp add: js_def)
  then have "sublist (js ''shop.example'') (js ''news@shop.example'')"
    by (simp add: includesStr_sublist)
  then have "ruleHolds demoEnv demoMail demoMailRule"
    by (simp add: ruleHolds_def demoMailRule_def demoMail_def readCondition_def demoEnv_def)
  then show ?thesis
    using matcher_spec [of demoMailRule demoEnv demoMail] by (simp add: demoMailRule_def)
qed

text \<open>
  matching does not depend on the order in which the conditions of a rule are stored, nor on
  how often a condition is repeated.
\<close>

theorem matcher_order_irrelevant:
  assumes "set cs = set ds" and "\<forall>c \<in> set cs. co_conditionValue c \<noteq> JNull"
  shows "messageMatchesRule E m \<lparr>rc_rule = r, rc_conditions = cs\<rparr> =
         messageMatchesRule E m \<lparr>rc_rule = r, rc_conditions = ds\<rparr>"
proof -
  have "(cs = []) = (ds = [])" using assms(1) by (metis set_empty)
  then have "ruleHolds E m \<lparr>rc_rule = r, rc_conditions = cs\<rparr> = ruleHolds E m \<lparr>rc_rule = r, rc_conditions = ds\<rparr>"
    using assms(1) by (cases "ru_logicalOperator r") (simp_all add: ruleHolds_def)
  then show ?thesis using assms by (simp add: matcher_refines)
qed

lemma matcher_order_irrelevant_witness:
  "messageMatchesRule demoEnv demoMail demoMailRule =
   messageMatchesRule demoEnv demoMail (demoMailRule\<lparr>rc_conditions := rev (rc_conditions demoMailRule)\<rparr>)"
  using matcher_order_irrelevant
    [of "rc_conditions demoMailRule" "rev (rc_conditions demoMailRule)" demoEnv demoMail "rc_rule demoMailRule"]
  by (simp add: demoMailRule_def insert_commute)

end
