(* ===== verification/GmailProvider.thy ===== *)
theory GmailProvider
  imports Demo RuleMatcher
begin

text \<open>
  Access to a mailbox: \<open>mail/providers/gmail.provider.ts\<close>, the registry of providers and the
  interface they implement. The Gmail service is a parameter of the platform; the model keeps which
  calls the server makes, with which credentials and in which order. The locale \<open>mail_provider\<close> is
  what the scan and the approval rely on: a provider touches nothing of the server but the cached
  access token of its mail account.
\<close>

section \<open>The interface\<close>

datatype mail_action = DeleteMail | SpamMail

record mail_provider_object =
  mp_providerType :: jsstring
  mp_listCandidateMessages :: "jsstring \<Rightarrow> raw_mail_message list action"
  mp_applyAction :: "jsstring \<Rightarrow> jsstring \<Rightarrow> mail_action \<Rightarrow> unit action"

section \<open>Gmail\<close>

text \<open>
  \<open>getAuthorizedClient\<close>: the stored tokens, refreshed by the client library when they are about to
  expire. A new access token is written back with its expiry; the refresh token stays. The result
  is what the client then sends with every call.
\<close>

definition storedExpiry :: "int option \<Rightarrow> int option" where
  "storedExpiry e = (case e of None \<Rightarrow> None | Some t \<Rightarrow> if t = 0 then None else Some t)"

definition getAuthorizedClient :: "env \<Rightarrow> jsstring \<Rightarrow> credentials action" where
  "getAuthorizedClient E emailAccountId =
     bindA (dbQuery (\<lambda>d. find (\<lambda>a. em_id a = emailAccountId) (emailAccounts d))) (\<lambda>found.
       case found of
         None \<Rightarrow> throw (PrismaError P2025)
       | Some account \<Rightarrow>
           let key = tokenKey E in
           bindA (decrypt E (em_encryptedAccessToken account) key) (\<lambda>access.
           bindA (decrypt E (em_encryptedRefreshToken account) key) (\<lambda>refresh.
           let client = \<lparr>cr_accessToken = Some access, cr_refreshToken = Some refresh,
                         cr_expiryDate = em_tokenExpiresAt account\<rparr> in
           bindA dateNow (\<lambda>now.
           bindA (liftE (getAccessToken E now client)) (\<lambda>fresh.
             if truthy (cr_accessToken fresh) \<and> cr_accessToken fresh \<noteq> cr_accessToken client
             then bindA (encrypt E (orElse (cr_accessToken fresh) []) key) (\<lambda>sealed.
                  bindA (dbWriteR (updateEmailAccount emailAccountId
                           (\<lambda>a. a\<lparr>em_encryptedAccessToken := sealed,
                                  em_tokenExpiresAt := storedExpiry (cr_expiryDate fresh)\<rparr>))) (\<lambda>_.
                  ret fresh))
             else ret fresh)))))"

text \<open>\<open>new Date(n)\<close>: a number out of the range of dates gives the invalid date, a fraction is cut off.\<close>

fun dateOfNumber :: "jsnum \<Rightarrow> int option" where
  "dateOfNumber (Fin r) =
     (if \<bar>r\<bar> \<le> 8640000000000000 then Some (if 0 \<le> r then \<lfloor>r\<rfloor> else \<lceil>r\<rceil>) else None)"
| "dateOfNumber _ = None"

definition headerOf :: "env \<Rightarrow> gmail_message \<Rightarrow> jsstring \<Rightarrow> jsstring" where
  "headerOf E m name =
     (case find (\<lambda>h. case fst h of None \<Rightarrow> False | Some n \<Rightarrow> toLowerCase E n = toLowerCase E name)
             (orElse (gm_headers m) []) of
        None \<Rightarrow> []
      | Some h \<Rightarrow> orElse (snd h) [])"

definition toRawMailMessage :: "env \<Rightarrow> gmail_message \<Rightarrow> raw_mail_message" where
  "toRawMailMessage E m =
     \<lparr>rm_externalMessageId = gm_id m,
      rm_sender = headerOf E m (js ''From''),
      rm_subject = headerOf E m (js ''Subject''),
      rm_bodyPreview = orElse (gm_snippet m) [],
      rm_receivedAt =
        (if headerOf E m (js ''Date'') \<noteq> [] then dateParse E (headerOf E m (js ''Date''))
         else dateOfNumber (case gm_internalDate m of None \<Rightarrow> Fin 0 | Some s \<Rightarrow> toNumber E s)),
      rm_hasAttachment = list_ex truthy (orElse (gm_parts m) [])\<rparr>"

definition fetchMessage :: "env \<Rightarrow> credentials \<Rightarrow> jsstring \<Rightarrow> raw_mail_message action" where
  "fetchMessage E auth i =
     (let headers = [js ''From'', js ''Subject'', js ''Date''] in
      bindA (callGmail (GetMessage auth i (js ''metadata'') headers)
               (\<lambda>h. gmailGet E h auth i (js ''metadata'') headers)) (\<lambda>full.
      ret (toRawMailMessage E full)))"

definition listCandidateMessages :: "env \<Rightarrow> jsstring \<Rightarrow> raw_mail_message list action" where
  "listCandidateMessages E emailAccountId =
     bindA (getAuthorizedClient E emailAccountId) (\<lambda>auth.
     bindA (callGmail (ListMessages auth (js ''newer_than:7d'') 50)
              (\<lambda>h. gmailList E h auth (js ''newer_than:7d'') 50)) (\<lambda>listed.
     promiseAll (fetchMessage E auth) (orElse listed [])))"

definition applyAction :: "env \<Rightarrow> jsstring \<Rightarrow> jsstring \<Rightarrow> mail_action \<Rightarrow> unit action" where
  "applyAction E emailAccountId externalMessageId action =
     bindA (getAuthorizedClient E emailAccountId) (\<lambda>auth.
       case action of
         DeleteMail \<Rightarrow> callGmail (TrashMessage auth externalMessageId) (\<lambda>h. gmailTrash E h auth externalMessageId)
       | SpamMail \<Rightarrow>
           callGmail (ModifyMessage auth externalMessageId [js ''SPAM''])
             (\<lambda>h. gmailModify E h auth externalMessageId [js ''SPAM'']))"

definition gmailProvider :: "env \<Rightarrow> mail_provider_object" where
  "gmailProvider E =
     \<lparr>mp_providerType = js ''gmail'', mp_listCandidateMessages = listCandidateMessages E,
      mp_applyAction = applyAction E\<rparr>"

section \<open>The registry\<close>

definition providers :: "env \<Rightarrow> jsstring \<rightharpoonup> mail_provider_object" where
  "providers E = [mp_providerType (gmailProvider E) \<mapsto> gmailProvider E]"

definition registryGet :: "env \<Rightarrow> jsstring \<Rightarrow> exn + mail_provider_object" where
  "registryGet E providerType =
     (case providers E providerType of
        None \<Rightarrow> Inl (NotFoundException ProviderUnsupported)
      | Some provider \<Rightarrow> Inr provider)"

lemma registryGet_eq:
  "registryGet E t =
     (if t = js ''gmail'' then Inr (gmailProvider E) else Inl (NotFoundException ProviderUnsupported))"
  by (simp add: registryGet_def providers_def gmailProvider_def)

section \<open>The contract of a provider\<close>

text \<open>Two databases that differ at most in the cached access tokens.\<close>

definition withoutToken :: "email_account_row \<Rightarrow> email_account_row" where
  "withoutToken a = a\<lparr>em_encryptedAccessToken := [], em_tokenExpiresAt := None\<rparr>"

definition sameButTokens :: "database \<Rightarrow> database \<Rightarrow> bool" where
  "sameButTokens d d' \<longleftrightarrow>
     users d' = users d \<and> trustedDevices d' = trustedDevices d \<and> accounts d' = accounts d \<and>
     map withoutToken (emailAccounts d') = map withoutToken (emailAccounts d) \<and>
     emailRules d' = emailRules d \<and> ruleConditions d' = ruleConditions d \<and>
     emailCandidates d' = emailCandidates d"

lemma sameButTokens_refl [simp]: "sameButTokens d d"
  by (simp add: sameButTokens_def)

lemma sameButTokens_trans: "sameButTokens a b \<Longrightarrow> sameButTokens b c \<Longrightarrow> sameButTokens a c"
  by (simp add: sameButTokens_def)

lemma sameButTokens_ids:
  assumes "sameButTokens d d'"
  shows "map em_id (emailAccounts d') = map em_id (emailAccounts d)"
    and "map em_userId (emailAccounts d') = map em_userId (emailAccounts d)"
proof -
  have "map f (emailAccounts d') = map f (emailAccounts d)" if "\<And>a. f (withoutToken a) = f a" for f :: "email_account_row \<Rightarrow> 'a"
  proof -
    have "map f xs = map f (map withoutToken xs)" for xs by (simp add: that)
    then show ?thesis using assms unfolding sameButTokens_def by metis
  qed
  from this [of em_id] this [of em_userId]
  show "map em_id (emailAccounts d') = map em_id (emailAccounts d)"
    and "map em_userId (emailAccounts d') = map em_userId (emailAccounts d)"
    by (simp_all add: withoutToken_def)
qed

definition onlyTokens :: "world \<Rightarrow> world \<Rightarrow> bool" where
  "onlyTokens w0 w \<longleftrightarrow>
     sameButTokens (db w0) (db w) \<and> keyStore w = keyStore w0 \<and> sessions w = sessions w0 \<and> clock w = clock w0"

lemma onlyTokens_refl [simp]: "onlyTokens w w"
  by (simp add: onlyTokens_def)

lemma onlyTokens_trans: "onlyTokens a b \<Longrightarrow> onlyTokens b c \<Longrightarrow> onlyTokens a c"
  by (auto simp: onlyTokens_def intro: sameButTokens_trans)

locale mail_provider =
  fixes list_messages :: "jsstring \<Rightarrow> raw_mail_message list action"
    and apply_action :: "jsstring \<Rightarrow> jsstring \<Rightarrow> mail_action \<Rightarrow> unit action"
  assumes list_keeps: "preserves (onlyTokens w0) (list_messages i)"
    and apply_keeps: "preserves (onlyTokens w0) (apply_action i m a)"
    and list_inv: "preserves worldInv (list_messages i)"
    and apply_inv: "preserves worldInv (apply_action i m a)"
begin

lemma list_database:
  assumes "list_messages i w = (r, w')"
  shows "sameButTokens (db w) (db w')"
  using preservesD [OF list_keeps onlyTokens_refl assms] by (simp add: onlyTokens_def)

lemma apply_candidates:
  assumes "apply_action i m a w = (r, w')"
  shows "emailCandidates (db w') = emailCandidates (db w)" and "emailRules (db w') = emailRules (db w)"
    and "sessions w' = sessions w" and "keyStore w' = keyStore w" and "clock w' = clock w"
    and "users (db w') = users (db w)" and "accounts (db w') = accounts (db w)"
  using preservesD [OF apply_keeps onlyTokens_refl assms] by (simp_all add: onlyTokens_def sameButTokens_def)

end

subsection \<open>Gmail keeps the contract\<close>

lemma onlyTokens_nextDraw [preserves_intros]: "preserves (onlyTokens w0) nextDraw"
  by (simp add: preserves_def run_nextDraw onlyTokens_def)

lemma onlyTokens_encrypt [preserves_intros]: "preserves (onlyTokens w0) (encrypt E p k)"
  by (simp add: preserves_def run_encrypt onlyTokens_def)

lemma onlyTokens_callGmail [preserves_intros]: "preserves (onlyTokens w0) (callGmail c f)"
  by (simp add: preserves_def run_callGmail onlyTokens_def)

lemma withoutToken_map:
  "map withoutToken (map (\<lambda>x. if p x then x\<lparr>em_encryptedAccessToken := c, em_tokenExpiresAt := t\<rparr> else x) rows) =
   map withoutToken rows"
  by (simp add: withoutToken_def)

lemma sameButTokens_set:
  "sameButTokens d (d\<lparr>emailAccounts := t\<rparr>) \<longleftrightarrow> map withoutToken t = map withoutToken (emailAccounts d)"
  by (simp add: sameButTokens_def)

lemma onlyTokens_writeToken [preserves_intros]:
  "preserves (onlyTokens w0) (dbWriteR (updateEmailAccount i
     (\<lambda>a. a\<lparr>em_encryptedAccessToken := c, em_tokenExpiresAt := t\<rparr>)))"
proof (rule preservesI)
  fix w r w'
  assume w: "onlyTokens w0 w"
    and "dbWriteR (updateEmailAccount i (\<lambda>a. a\<lparr>em_encryptedAccessToken := c, em_tokenExpiresAt := t\<rparr>)) w = (r, w')"
  then have "w' = w \<or> w' = w\<lparr>db := (db w)\<lparr>emailAccounts := map (\<lambda>x. if em_id x = i
      then x\<lparr>em_encryptedAccessToken := c, em_tokenExpiresAt := t\<rparr> else x) (emailAccounts (db w))\<rparr>\<rparr>"
    by (auto simp: run_dbWriteR updateEmailAccount_def updateRow_def split: sum.splits option.splits if_splits)
  moreover have "onlyTokens w (w\<lparr>db := (db w)\<lparr>emailAccounts := map (\<lambda>x. if em_id x = i
      then x\<lparr>em_encryptedAccessToken := c, em_tokenExpiresAt := t\<rparr> else x) (emailAccounts (db w))\<rparr>\<rparr>)"
    by (simp add: onlyTokens_def sameButTokens_set withoutToken_map del: map_map)
  ultimately show "onlyTokens w0 w'" using w onlyTokens_trans by blast
qed

lemma worldInv_writeToken [preserves_intros]:
  "preserves worldInv (dbWriteR (updateEmailAccount i
     (\<lambda>a. a\<lparr>em_encryptedAccessToken := c, em_tokenExpiresAt := t\<rparr>)))"
proof (rule worldInv_dbWriteR)
  fix d d' r
  assume d: "dbInv d" and up: "updateEmailAccount i (\<lambda>a. a\<lparr>em_encryptedAccessToken := c, em_tokenExpiresAt := t\<rparr>) d = Inr (r, d')"
  have "users d' = users d" using up by (auto simp: updateEmailAccount_def split: sum.splits)
  then show "dbInv d' \<and> u_id ` set (users d) \<subseteq> u_id ` set (users d')"
    using dbInv_updateEmailAccount [OF d up] by simp
qed

lemma onlyTokens_getAuthorizedClient [preserves_intros]: "preserves (onlyTokens w0) (getAuthorizedClient E i)"
  unfolding getAuthorizedClient_def Let_def by (intro preserves_intros)

lemma worldInv_getAuthorizedClient [preserves_intros]: "preserves worldInv (getAuthorizedClient E i)"
  unfolding getAuthorizedClient_def Let_def by (intro preserves_intros)

lemma provider_keeps [preserves_intros]:
  "preserves (onlyTokens w0) (listCandidateMessages E i)" "preserves worldInv (listCandidateMessages E i)"
  "preserves (onlyTokens w0) (applyAction E i m a)" "preserves worldInv (applyAction E i m a)"
  unfolding listCandidateMessages_def fetchMessage_def Let_def applyAction_def
  by (cases a; intro preserves_intros; simp; intro preserves_intros)+

interpretation gmail: mail_provider "listCandidateMessages E" "applyAction E" for E
  by unfold_locales (rule provider_keeps)+

end
