(* ===== verification/EmailAccounts.thy ===== *)
theory EmailAccounts
  imports GmailProvider Auth
begin

text \<open>
  Connecting mail accounts: \<open>email-accounts/gmail-oauth.service.ts\<close>,
  \<open>email-accounts/email-accounts.service.ts\<close> and its controller. The tokens Google hands out are
  stored under the key of the server, so that the background scan can use them without an unlocked
  session.
\<close>

section \<open>The OAuth client for Gmail\<close>

record gmail_tokens =
  gk_email :: jsstring
  gk_accessToken :: jsstring
  gk_refreshToken :: jsstring
  gk_expiryDate :: "int option"

definition GMAIL_SCOPES :: "jsstring list" where
  "GMAIL_SCOPES = [js ''https://www.googleapis.com/auth/gmail.modify'']"

text \<open>The client is built with its own callback address, or with that of the login.\<close>

definition gmailCallbackUrl :: "env \<Rightarrow> jsstring option" where
  "gmailCallbackUrl E =
     (case envVar E (js ''GOOGLE_EMAIL_CALLBACK_URL'') of
        None \<Rightarrow> envVar E (js ''GOOGLE_CALLBACK_URL'')
      | Some url \<Rightarrow> Some url)"

definition gmailGenerateState :: "env \<Rightarrow> jsstring action" where
  "gmailGenerateState E = bindA nextDraw (\<lambda>n. ret (toHex (randomBytes E n 16)))"

definition gmailBuildAuthUrl :: "env \<Rightarrow> jsstring \<Rightarrow> jsstring" where
  "gmailBuildAuthUrl E state =
     generateAuthUrl E (gmailCallbackUrl E)
       \<lparr>ap_accessType = js ''offline'', ap_prompt = Some (js ''consent''), ap_scope = GMAIL_SCOPES,
        ap_state = state\<rparr>"

definition exchangeCodeForTokens :: "env \<Rightarrow> jsstring option \<Rightarrow> gmail_tokens action" where
  "exchangeCodeForTokens E code =
     bindA (liftE (getToken E (gmailCallbackUrl E) code)) (\<lambda>tokens.
     bindA (throwIf (\<not> truthy (gt_accessToken tokens) \<or> \<not> truthy (gt_refreshToken tokens)) (Error NoRefreshToken)) (\<lambda>_.
       let client = \<lparr>cr_accessToken = gt_accessToken tokens, cr_refreshToken = gt_refreshToken tokens,
                     cr_expiryDate = gt_expiryDate tokens\<rparr> in
       bindA (callGmail (GetProfile client) (\<lambda>h. gmailProfile E h client)) (\<lambda>emailAddress.
       bindA (throwIf (\<not> truthy emailAddress) (Error NoGmailProfile)) (\<lambda>_.
       ret \<lparr>gk_email = orElse emailAddress [], gk_accessToken = orElse (gt_accessToken tokens) [],
            gk_refreshToken = orElse (gt_refreshToken tokens) [], gk_expiryDate = gt_expiryDate tokens\<rparr>))))"

section \<open>The service\<close>

text \<open>The columns the list shows: no token is among them.\<close>

record email_account_view =
  ev_id :: jsstring
  ev_providerType :: jsstring
  ev_displayName :: jsstring
  ev_isActive :: bool
  ev_connectedAt :: int

definition emailAccountView :: "email_account_row \<Rightarrow> email_account_view" where
  "emailAccountView a =
     \<lparr>ev_id = em_id a, ev_providerType = em_providerType a, ev_displayName = em_displayName a,
      ev_isActive = em_isActive a, ev_connectedAt = em_connectedAt a\<rparr>"

definition emailAccountsFindAll :: "jsstring \<Rightarrow> email_account_view list action" where
  "emailAccountsFindAll userId =
     dbQuery (\<lambda>d. map emailAccountView
       (newestFirst em_connectedAt (filter (\<lambda>a. em_userId a = userId) (emailAccounts d))))"

definition createFromGmail :: "env \<Rightarrow> jsstring \<Rightarrow> gmail_tokens \<Rightarrow> email_account_row action" where
  "createFromGmail E userId tokens =
     (let key = tokenKey E in
      bindA (encrypt E (gk_accessToken tokens) key) (\<lambda>access.
      bindA (encrypt E (gk_refreshToken tokens) key) (\<lambda>refresh.
      bindA (freshId E) (\<lambda>i.
      bindA dateNow (\<lambda>now.
        let row = \<lparr>em_id = i, em_userId = userId, em_providerType = js ''gmail'', em_displayName = gk_email tokens,
                   em_encryptedAccessToken = access, em_encryptedRefreshToken = refresh,
                   em_tokenExpiresAt = storedExpiry (gk_expiryDate tokens), em_isActive = True,
                   em_connectedAt = now\<rparr> in
        bindA (dbWrite (createEmailAccount row)) (\<lambda>_. ret row))))))"

definition emailAccountsRemove :: "jsstring \<Rightarrow> jsstring \<Rightarrow> unit action" where
  "emailAccountsRemove userId i =
     bindA (dbQuery (\<lambda>d. find (\<lambda>a. em_id a = i \<and> em_userId a = userId) (emailAccounts d))) (\<lambda>account.
     bindA (throwIf (account = None) (NotFoundException EmailAccountNotFound)) (\<lambda>_.
     dbWrite (deleteEmailAccount i)))"

section \<open>Routes\<close>

text \<open>Where the callback sends the browser: always to the page of the rules.\<close>

datatype mail_redirect = RedirectConnected jsstring | RedirectMailError jsstring exn

definition emailAccountsFindAllRoute :: "jsstring \<Rightarrow> email_account_view list action" where
  "emailAccountsFindAllRoute sid = bindA (loggedInGuard sid) emailAccountsFindAll"

definition oauthStart :: "env \<Rightarrow> jsstring \<Rightarrow> jsstring action" where
  "oauthStart E sid =
     bindA (loggedInGuard sid) (\<lambda>_.
     bindA (gmailGenerateState E) (\<lambda>state.
     bindA (setSession sid (\<lambda>s. s\<lparr>s_gmailOAuthState := Some state\<rparr>)) (\<lambda>_.
     ret (gmailBuildAuthUrl E state))))"

definition connectGmail :: "env \<Rightarrow> jsstring \<Rightarrow> jsstring option \<Rightarrow> jsstring option \<Rightarrow> unit action" where
  "connectGmail E sid code state =
     bindA (currentUserId sid) (\<lambda>userId.
     bindA (session sid) (\<lambda>s.
     bindA (throwIf (\<not> truthy state \<or> state \<noteq> s_gmailOAuthState s) (Error OAuthStateMismatch)) (\<lambda>_.
     bindA (setSession sid (\<lambda>s. s\<lparr>s_gmailOAuthState := None\<rparr>)) (\<lambda>_.
     bindA (throwIf (\<not> truthy userId) (Error LoginRequired)) (\<lambda>_.
     bindA (exchangeCodeForTokens E code) (\<lambda>tokens.
     bindA (createFromGmail E (orElse userId []) tokens) (\<lambda>_.
     ret ())))))))"

definition oauthCallback :: "env \<Rightarrow> jsstring \<Rightarrow> jsstring option \<Rightarrow> jsstring option \<Rightarrow> mail_redirect action" where
  "oauthCallback E sid code state =
     catchA (bindA (connectGmail E sid code state) (\<lambda>_. ret (RedirectConnected (frontendOrigin E))))
       (\<lambda>e. ret (RedirectMailError (frontendOrigin E) e))"

definition emailAccountsRemoveRoute :: "jsstring \<Rightarrow> jsstring \<Rightarrow> unit action" where
  "emailAccountsRemoveRoute sid i = bindA (loggedInGuard sid) (\<lambda>userId. emailAccountsRemove userId i)"

section \<open>Outcomes\<close>

lemma run_exchangeCodeForTokens:
  "exchangeCodeForTokens E code w =
     (case getToken E (gmailCallbackUrl E) code of
        Inl e \<Rightarrow> (Inl e, w)
      | Inr tokens \<Rightarrow>
          if truthy (gt_accessToken tokens) \<and> truthy (gt_refreshToken tokens) then
            (let client = \<lparr>cr_accessToken = gt_accessToken tokens, cr_refreshToken = gt_refreshToken tokens,
                           cr_expiryDate = gt_expiryDate tokens\<rparr>;
                 w1 = w\<lparr>gmailLog := gmailLog w @ [GetProfile client]\<rparr> in
             case gmailProfile E (gmailLog w) client of
               Inl e \<Rightarrow> (Inl e, w1)
             | Inr email \<Rightarrow>
                 if truthy email
                 then (Inr \<lparr>gk_email = the email, gk_accessToken = the (gt_accessToken tokens),
                            gk_refreshToken = the (gt_refreshToken tokens), gk_expiryDate = gt_expiryDate tokens\<rparr>, w1)
                 else (Inl (Error NoGmailProfile), w1))
          else (Inl (Error NoRefreshToken), w))"
proof -
  have "orElse v [] = the v" if "truthy v" for v :: "jsstring option" using that by (cases v) simp_all
  then show ?thesis by (simp add: exchangeCodeForTokens_def act_simps Let_def split: sum.split)
qed

lemma run_createFromGmail:
  "createFromGmail E userId tokens w =
     (case aesEncrypt E (draws w) (gk_accessToken tokens) (tokenKey E) of
        Inl e \<Rightarrow> (Inl e, w\<lparr>draws := Suc (draws w)\<rparr>)
      | Inr access \<Rightarrow>
          (case aesEncrypt E (Suc (draws w)) (gk_refreshToken tokens) (tokenKey E) of
             Inl e \<Rightarrow> (Inl e, w\<lparr>draws := Suc (Suc (draws w))\<rparr>)
           | Inr refresh \<Rightarrow>
               (let row = \<lparr>em_id = uuid E (Suc (Suc (draws w))), em_userId = userId, em_providerType = js ''gmail'',
                           em_displayName = gk_email tokens, em_encryptedAccessToken = access,
                           em_encryptedRefreshToken = refresh,
                           em_tokenExpiresAt = storedExpiry (gk_expiryDate tokens), em_isActive = True,
                           em_connectedAt = clock w\<rparr>;
                    w1 = w\<lparr>draws := Suc (Suc (Suc (draws w)))\<rparr> in
                case createEmailAccount row (db w) of
                  Inl c \<Rightarrow> (Inl (PrismaError c), w1) | Inr d \<Rightarrow> (Inr row, w1\<lparr>db := d\<rparr>))))"
  by (simp add: createFromGmail_def act_simps Let_def split: sum.split)

section \<open>Preservation\<close>

lemma worldInv_createEmailAccount [preserves_intros]: "preserves worldInv (dbWrite (createEmailAccount r))"
proof (rule worldInv_dbWrite)
  fix d d' assume "dbInv d" and c: "createEmailAccount r d = Inr d'"
  then have "dbInv d'" by (rule dbInv_createEmailAccount)
  moreover have "users d' = users d" using c by (auto simp: createEmailAccount_def split: sum.splits if_splits)
  ultimately show "dbInv d' \<and> u_id ` set (users d) \<subseteq> u_id ` set (users d')" by simp
qed

lemma worldInv_createFromGmail [preserves_intros]: "preserves worldInv (createFromGmail E userId tokens)"
  unfolding createFromGmail_def Let_def by (intro preserves_intros)

lemma worldInv_gmailState [preserves_intros]: "preserves worldInv (setSession sid (\<lambda>s. s\<lparr>s_gmailOAuthState := x\<rparr>))"
  by (rule worldInv_setSession) simp_all

lemma worldInv_emailAccountRoutes [preserves_intros]:
  "preserves worldInv (emailAccountsFindAllRoute sid)" "preserves worldInv (oauthStart E sid)"
  "preserves worldInv (oauthCallback E sid code state)" "preserves worldInv (emailAccountsRemoveRoute sid i)"
proof -
  have "users d' = users d" if "deleteEmailAccount i d = Inr d'" for d d'
    using that by (auto simp: deleteEmailAccount_def cascadeRules_def Let_def split: sum.splits)
  then have "preserves worldInv (dbWrite (deleteEmailAccount i))"
    by (intro worldInv_dbWrite) (auto intro: dbInv_deleteEmailAccount)
  then show "preserves worldInv (emailAccountsRemoveRoute sid i)"
    unfolding emailAccountsRemoveRoute_def emailAccountsRemove_def by (intro preserves_intros)
  show "preserves worldInv (emailAccountsFindAllRoute sid)"
    unfolding emailAccountsFindAllRoute_def emailAccountsFindAll_def by (intro preserves_intros)
  show "preserves worldInv (oauthStart E sid)"
    unfolding oauthStart_def gmailGenerateState_def by (intro preserves_intros)
  show "preserves worldInv (oauthCallback E sid code state)"
    unfolding oauthCallback_def connectGmail_def exchangeCodeForTokens_def currentUserId_def Let_def
    by (intro preserves_intros)
qed

section \<open>Properties\<close>

lemma createEmailAccount_Inr:
  assumes "createEmailAccount r d = Inr d'"
  shows "d' = d\<lparr>emailAccounts := emailAccounts d @ [r]\<rparr>"
  using assms by (auto simp: createEmailAccount_def createRow_def split: sum.splits if_splits)

lemma run_oauthCallback:
  "oauthCallback E sid code state w =
     (case connectGmail E sid code state w of
        (Inl e, w') \<Rightarrow> (Inr (RedirectMailError (frontendOrigin E) e), w')
      | (Inr _, w') \<Rightarrow> (Inr (RedirectConnected (frontendOrigin E)), w'))"
  by (simp add: oauthCallback_def act_simps split: prod.split sum.split)

text \<open>
  the callback of the Gmail connection stores the tokens of the account the user consented to,
  and nothing on any failure. It reports success only when the state is the one the session holds
  and the session is logged in; there is then one more mail account, of that user, whose two
  ciphertexts open under the key of the server to the tokens Google issued for the code. Otherwise
  the database is as it was. A state that matched is used up in both cases.
\<close>

theorem gmail_connect_exact:
  assumes "goodPlatform E" and "tokenKeyInit E = Inr key"
    and "\<forall>t. getToken E (gmailCallbackUrl E) code = Inr t \<longrightarrow>
      wellFormed (orElse (gt_accessToken t) []) \<and> wellFormed (orElse (gt_refreshToken t) [])"
    and "oauthCallback E sid code state w = (Inr r, w')"
  shows "(if r = RedirectConnected (frontendOrigin E)
     then truthy state \<and> state = s_gmailOAuthState (sessions w sid) \<and>
       (\<exists>tokens row userId. getToken E (gmailCallbackUrl E) code = Inr tokens \<and>
          s_userId (sessions w sid) = Some userId \<and> userId \<noteq> [] \<and>
          db w' = (db w)\<lparr>emailAccounts := emailAccounts (db w) @ [row]\<rparr> \<and> em_userId row = userId \<and>
          map_sum id Some (aesDecrypt E (em_encryptedAccessToken row) key) = Inr (gt_accessToken tokens) \<and>
          map_sum id Some (aesDecrypt E (em_encryptedRefreshToken row) key) = Inr (gt_refreshToken tokens))
     else db w' = db w) \<and>
    keyStore w' = keyStore w \<and>
    (if truthy state \<and> state = s_gmailOAuthState (sessions w sid)
     then s_gmailOAuthState (sessions w' sid) = None else w' = w)"
proof (cases "truthy state \<and> state = s_gmailOAuthState (sessions w sid)")
  case False
  then have "connectGmail E sid code state w = (Inl (Error OAuthStateMismatch), w)"
    by (auto simp: connectGmail_def currentUserId_def act_simps)
  then show ?thesis using assms(4) False by (auto simp: run_oauthCallback)
next
  case state: True
  let ?w = "w\<lparr>sessions := (sessions w)(sid := (sessions w sid)\<lparr>s_gmailOAuthState := None\<rparr>)\<rparr>"
  have key: "length key = 32" "tokenKey E = key"
    using assms(2) tokenKeyInit_length by (simp_all add: tokenKey_def)
  show ?thesis
  proof (cases "truthy (s_userId (sessions w sid))")
    case False
    then have "connectGmail E sid code state w = (Inl (Error LoginRequired), ?w)"
      using state by (auto simp: connectGmail_def currentUserId_def act_simps)
    then show ?thesis using assms(4) state by (auto simp: run_oauthCallback)
  next
    case True
    then obtain userId where u: "s_userId (sessions w sid) = Some userId" "userId \<noteq> []"
      by (cases "s_userId (sessions w sid)") auto
    obtain x w1 where x: "exchangeCodeForTokens E code ?w = (x, w1)" by (cases "exchangeCodeForTokens E code ?w")
    have w1: "db w1 = db w" "keyStore w1 = keyStore w" "sessions w1 = sessions ?w"
      using x by (auto simp: run_exchangeCodeForTokens Let_def split: sum.splits if_splits)
    have run: "connectGmail E sid code state w =
        (case x of Inl e \<Rightarrow> (Inl e, w1)
         | Inr tokens \<Rightarrow> (case createFromGmail E userId tokens w1 of
             (Inl e, w2) \<Rightarrow> (Inl e, w2) | (Inr _, w2) \<Rightarrow> (Inr (), w2)))"
      using state u x by (auto simp: connectGmail_def currentUserId_def act_simps split: sum.split prod.split)
    show ?thesis
    proof (cases x)
      case (Inl e)
      then show ?thesis using run assms(4) state w1 by (auto simp: run_oauthCallback)
    next
      case (Inr tokens)
      obtain t where t: "getToken E (gmailCallbackUrl E) code = Inr t" "truthy (gt_accessToken t)" "truthy (gt_refreshToken t)"
        "gk_accessToken tokens = the (gt_accessToken t)" "gk_refreshToken tokens = the (gt_refreshToken t)"
        using x unfolding Inr
        by (auto simp: run_exchangeCodeForTokens Let_def split: sum.splits if_splits)
      then have some: "gt_accessToken t = Some (gk_accessToken tokens)" "gt_refreshToken t = Some (gk_refreshToken tokens)"
        by (cases "gt_accessToken t"; cases "gt_refreshToken t"; simp)+
      then have wf: "wellFormed (gk_accessToken tokens)" "wellFormed (gk_refreshToken tokens)"
        using assms(3) t(1) by auto
      obtain access where access: "aesEncrypt E (draws w1) (gk_accessToken tokens) (tokenKey E) = Inr access"
        using aes.enc_total assms(1) key by blast
      obtain refresh where refresh: "aesEncrypt E (Suc (draws w1)) (gk_refreshToken tokens) (tokenKey E) = Inr refresh"
        using aes.enc_total assms(1) key by blast
      have dec: "aesDecrypt E access key = Inr (gk_accessToken tokens)" "aesDecrypt E refresh key = Inr (gk_refreshToken tokens)"
        using aes.dec_enc [OF _ wf(1) access] aes.dec_enc [OF _ wf(2) refresh] assms(1) key by simp_all
      show ?thesis
      proof (cases "createFromGmail E userId tokens w1")
        case (Pair y w2)
        then show ?thesis
          using run assms(4) state w1 access refresh dec u t(1) some Inr
          by (auto simp: run_oauthCallback run_createFromGmail Let_def split: sum.splits dest!: createEmailAccount_Inr)
      qed
    qed
  qed
qed

text \<open>
  a user can disconnect exactly his own mail accounts. The account goes together with its rules,
  their conditions and its candidates, and nothing else changes; an account of another user counts
  as not found.
\<close>

theorem emailAccountsRemove_exact:
  assumes "dbInv (db w)"
  shows "if \<exists>a \<in> set (emailAccounts (db w)). em_id a = i \<and> em_userId a = userId
    then \<exists>d. emailAccountsRemove userId i w = (Inr (), w\<lparr>db := d\<rparr>) \<and>
      emailAccounts d = filter (\<lambda>a. em_id a \<noteq> i) (emailAccounts (db w)) \<and>
      emailRules d = filter (\<lambda>r. ru_emailAccountId r \<noteq> i) (emailRules (db w)) \<and>
      ruleConditions d = filter (\<lambda>c. co_ruleId c \<in> ru_id ` set (emailRules d)) (ruleConditions (db w)) \<and>
      emailCandidates d = filter (\<lambda>c. ca_emailAccountId c \<noteq> i) (emailCandidates (db w)) \<and>
      users d = users (db w) \<and> accounts d = accounts (db w) \<and> trustedDevices d = trustedDevices (db w)
    else emailAccountsRemove userId i w = (Inl (NotFoundException EmailAccountNotFound), w)"
proof (cases "find (\<lambda>a. em_id a = i \<and> em_userId a = userId) (emailAccounts (db w))")
  case None
  then show ?thesis by (auto simp: emailAccountsRemove_def act_simps find_None_iff)
next
  case (Some a)
  let ?d = "db w"
  from Some have a: "a \<in> set (emailAccounts ?d)" "em_id a = i" "em_userId a = userId" by (auto dest: find_Some_D)
  then have "find (\<lambda>a. em_id a = i) (emailAccounts ?d) \<noteq> None" by (auto simp: find_None_iff)
  then have "deleteRow (\<lambda>a. em_id a = i) (emailAccounts ?d) = Inr (filter (\<lambda>a. em_id a \<noteq> i) (emailAccounts ?d))"
    by (auto simp: deleteRow_def)
  then obtain d where del: "deleteEmailAccount i ?d = Inr d"
    and d: "d = (let d1 = cascadeRules (\<lambda>r. ru_emailAccountId r = i) ?d in
      d1\<lparr>emailAccounts := filter (\<lambda>a. em_id a \<noteq> i) (emailAccounts ?d),
         emailCandidates := filter (\<lambda>c. ca_emailAccountId c \<noteq> i) (emailCandidates d1)\<rparr>)"
    by (simp add: deleteEmailAccount_def Let_def)
  have gone: "k \<in> ru_id ` set (filter (\<lambda>r. ru_emailAccountId r = i) (emailRules ?d)) \<longleftrightarrow>
      k \<notin> ru_id ` set (filter (\<lambda>r. ru_emailAccountId r \<noteq> i) (emailRules ?d))"
    if "k \<in> ru_id ` set (emailRules ?d)" for k
    using that rule_table.ok_same_key [OF dbInv_tables(5) [OF assms]] by fastforce
  have "emailAccountsRemove userId i w = (Inr (), w\<lparr>db := d\<rparr>)"
    using Some del by (simp add: emailAccountsRemove_def act_simps)
  moreover have "ruleConditions d = filter (\<lambda>c. co_ruleId c \<in> ru_id ` set (emailRules d)) (ruleConditions ?d)"
    using gone dbInv_refs(5) [OF assms]
    by (auto simp: d cascadeRules_def Let_def image_subset_iff intro!: filter_cong)
  moreover have "emailCandidates d = filter (\<lambda>c. ca_emailAccountId c \<noteq> i) (emailCandidates ?d)"
    using dbInv_denorm [OF assms] by (auto simp: d cascadeRules_def Let_def intro!: filter_cong)
  moreover have "\<exists>a \<in> set (emailAccounts ?d). em_id a = i \<and> em_userId a = userId" using a by blast
  ultimately show ?thesis by (auto simp: d cascadeRules_def Let_def intro!: exI [of _ d])
qed

lemma demo_tokenKey: "tokenKeyInit demoEnv = Inr (replicate 32 7)"
  by (rule tokenKey_demo)

lemma gmail_connect_exact_witness:
  "\<exists>w' row. oauthCallback demoEnv (js ''s1'') (Some (js ''code'')) (Some (js ''st''))
      (demoWorld\<lparr>sessions := (\<lambda>_. demoSession\<lparr>s_gmailOAuthState := Some (js ''st'')\<rparr>)\<rparr>) =
      (Inr (RedirectConnected (frontendOrigin demoEnv)), w') \<and>
    emailAccounts (db w') = [demoMailAccount, row] \<and> em_userId row = js ''u1'' \<and>
    s_gmailOAuthState (sessions w' (js ''s1'')) = None"
proof -
  let ?w = "demoWorld\<lparr>sessions := (\<lambda>_. demoSession\<lparr>s_gmailOAuthState := Some (js ''st'')\<rparr>)\<rparr>"
  have wf: "\<forall>t. getToken demoEnv (gmailCallbackUrl demoEnv) (Some (js ''code'')) = Inr t \<longrightarrow>
      wellFormed (orElse (gt_accessToken t) []) \<and> wellFormed (orElse (gt_refreshToken t) [])"
    by (simp add: demoEnv_def)
  have "js ''e1'' \<noteq> uuid demoEnv n" for n by (cases n) (simp_all add: demoEnv_def js_def)
  moreover have "getToken demoEnv c x = Inr \<lparr>gt_idToken = x, gt_accessToken = x,
        gt_refreshToken = Some (js ''refresh''), gt_expiryDate = Some 100\<rparr>"
    and "gmailProfile demoEnv h k = Inr (Some (js ''me''))" for c x h k
    by (simp_all add: demoEnv_def)
  moreover obtain access refresh where "aesEncrypt demoEnv 0 (js ''code'') (tokenKey demoEnv) = Inr access"
    and "aesEncrypt demoEnv (Suc 0) (js ''refresh'') (tokenKey demoEnv) = Inr refresh"
    using aes.enc_total goodPlatform_demo length_tokenKey_demo by blast
  ultimately have "\<exists>w'. oauthCallback demoEnv (js ''s1'') (Some (js ''code'')) (Some (js ''st'')) ?w =
      (Inr (RedirectConnected (frontendOrigin demoEnv)), w')"
    by (simp add: run_oauthCallback connectGmail_def currentUserId_def act_simps run_exchangeCodeForTokens
        run_createFromGmail createEmailAccount_def createRow_def email_account_clash_def Let_def
        demoWorld_def demoDb_def demoSession_def demoMailAccount_def demoUser_def)
  then obtain w' where run: "oauthCallback demoEnv (js ''s1'') (Some (js ''code'')) (Some (js ''st'')) ?w =
      (Inr (RedirectConnected (frontendOrigin demoEnv)), w')" by blast
  from gmail_connect_exact [OF goodPlatform_demo demo_tokenKey wf run] run show ?thesis
    by (auto simp: demoWorld_def demoDb_def demoSession_def)
qed

lemma emailAccountsRemove_exact_witness:
  "\<exists>d. emailAccountsRemove (js ''u1'') (js ''e1'') demoWorld = (Inr (), demoWorld\<lparr>db := d\<rparr>) \<and>
     emailAccounts d = [] \<and> emailRules d = [] \<and> ruleConditions d = [] \<and> emailCandidates d = [] \<and>
     accounts d = accounts demoDb"
proof -
  have "dbInv (db demoWorld)" using worldInv_demoWorld by (simp add: worldInv_def)
  note exact = emailAccountsRemove_exact [OF this, of "js ''e1''" "js ''u1''"]
  have tables: "emailAccounts (db demoWorld) = [demoMailAccount]" "emailRules (db demoWorld) = [demoRule]"
    "ruleConditions (db demoWorld) = [demoCondition]" "emailCandidates (db demoWorld) = [demoCandidate]"
    "accounts (db demoWorld) = accounts demoDb"
    by (simp_all add: demoWorld_def demoDb_def)
  have "em_id demoMailAccount = js ''e1''" "em_userId demoMailAccount = js ''u1''"
    "ru_emailAccountId demoRule = js ''e1''" "ca_emailAccountId demoCandidate = js ''e1''"
    by (simp_all add: demo_rows)
  then show ?thesis using exact unfolding tables
    by (cases "emailAccountsRemove (js ''u1'') (js ''e1'') demoWorld") (auto split: if_splits)
qed

end
