(* ===== verification/Rules.thy ===== *)
theory Rules
  imports EmailAccounts Accounts
begin

text \<open>
  The mail rules of a user: \<open>mail/rules/rules.service.ts\<close> and its controller. A rule is stored with
  its conditions; a change that brings conditions replaces all of them inside one transaction.
\<close>

section \<open>Bodies\<close>

text \<open>
  A body as the handlers read it. The database client rejects a write whose columns do not have the
  types of the schema, or that names a column the table does not have, before it asks the database;
  \<open>condition_input\<close> is one element of \<open>conditions\<close>, and \<open>rb_invalid\<close> says that the write is
  rejected. The elements of \<open>conditions\<close> go to the client as they are, so they may name their ids, but
  not their rule: the rule of a nested creation is the one it is nested in.
\<close>

record condition_input =
  ci_id :: "jsstring option"
  ci_conditionType :: jsstring
  ci_conditionValue :: json

record rule_body =
  rb_emailAccountId :: "jsstring option"
  rb_logicalOperator :: "logical_operator option"
  rb_actionType :: "jsstring option"
  rb_isActive :: "bool option"
  rb_conditions :: "condition_input list option"
  rb_invalid :: bool

definition conditionInput :: "json \<Rightarrow> condition_input option" where
  "conditionInput v =
     (case v of
        JObj kvs \<Rightarrow>
          (let f = (\<lambda>k. map_of kvs (js k)) in
           case (textColumn (f ''conditionType''), f ''conditionValue'') of
             (Some t, Some value) \<Rightarrow>
               if value = JNull \<or> (f ''id'' \<noteq> None \<and> textColumn (f ''id'') = None) \<or>
                  \<not> set (map fst kvs) \<subseteq> {js ''id'', js ''conditionType'', js ''conditionValue''}
               then None
               else Some \<lparr>ci_id = textColumn (f ''id''), ci_conditionType = t, ci_conditionValue = value\<rparr>
           | _ \<Rightarrow> None)
      | _ \<Rightarrow> None)"

text \<open>A list of elements, or one element on its own; \<open>None\<close> when one of them is rejected.\<close>

definition conditionInputs :: "json \<Rightarrow> condition_input list option" where
  "conditionInputs v =
     (case v of
        JArr vs \<Rightarrow> if list_all (\<lambda>x. conditionInput x \<noteq> None) vs then Some (List.map_filter conditionInput vs) else None
      | _ \<Rightarrow> map_option (\<lambda>c. [c]) (conditionInput v))"

fun operatorColumn :: "json option \<Rightarrow> logical_operator option" where
  "operatorColumn (Some (JStr s)) =
     (if s = js ''AND'' then Some OpAND else if s = js ''OR'' then Some OpOR else None)"
| "operatorColumn _ = None"

fun boolColumn :: "json option \<Rightarrow> bool option" where
  "boolColumn (Some (JBool b)) = Some b"
| "boolColumn _ = None"

text \<open>What \<open>data.logicalOperator ? ... : ...\<close> and its like test.\<close>

fun truthyField :: "json option \<Rightarrow> bool" where
  "truthyField None = False"
| "truthyField (Some JNull) = False"
| "truthyField (Some (JBool b)) = b"
| "truthyField (Some (JNum n)) = (n \<noteq> NaN \<and> n \<noteq> Fin 0)"
| "truthyField (Some (JStr s)) = (s \<noteq> [])"
| "truthyField (Some _) = True"

text \<open>
  The body of a request is an object or an array; the columns of an array are all missing. A filter
  object in place of the account id is not modelled; it is rejected at the latest by the creation.
\<close>

definition bodyFields :: "json \<Rightarrow> string \<Rightarrow> json option" where
  "bodyFields body k = (case body of JObj kvs \<Rightarrow> map_of kvs (js k) | _ \<Rightarrow> None)"

definition readCreateBody :: "json \<Rightarrow> exn + rule_body" where
  "readCreateBody body =
     (let f = bodyFields body; cs = f ''conditions''; read = (case cs of None \<Rightarrow> Some [] | Some v \<Rightarrow> conditionInputs v) in
      if f ''emailAccountId'' \<noteq> None \<and> textColumn (f ''emailAccountId'') = None then Inl (PrismaError PValidation)
      else Inr
        \<lparr>rb_emailAccountId = textColumn (f ''emailAccountId''), rb_logicalOperator = operatorColumn (f ''logicalOperator''),
         rb_actionType = textColumn (f ''actionType''), rb_isActive = None,
         rb_conditions = (if cs = None then None else Some (orElse read [])),
         rb_invalid = (read = None \<or> (f ''actionType'' \<noteq> None \<and> textColumn (f ''actionType'') = None) \<or>
                       (f ''logicalOperator'' \<noteq> None \<and> operatorColumn (f ''logicalOperator'') = None))\<rparr>)"

definition readUpdateBody :: "json \<Rightarrow> rule_body" where
  "readUpdateBody body =
     (let f = bodyFields body; given = truthyField (f ''conditions'');
          read = (if given then conditionInputs (orElse (f ''conditions'') JNull) else Some []) in
      \<lparr>rb_emailAccountId = None, rb_logicalOperator = operatorColumn (f ''logicalOperator''),
       rb_actionType = textColumn (f ''actionType''), rb_isActive = boolColumn (f ''isActive''),
       rb_conditions = (if given then Some (orElse read []) else None),
       rb_invalid = (read = None \<or> (truthyField (f ''actionType'') \<and> textColumn (f ''actionType'') = None) \<or>
                     (truthyField (f ''logicalOperator'') \<and> operatorColumn (f ''logicalOperator'') = None) \<or>
                     (f ''isActive'' \<noteq> None \<and> boolColumn (f ''isActive'') = None))\<rparr>)"

section \<open>The service\<close>

definition ownedAccount :: "jsstring \<Rightarrow> jsstring \<Rightarrow> database \<Rightarrow> bool" where
  "ownedAccount userId accountId d \<longleftrightarrow>
     (\<exists>a \<in> set (emailAccounts d). em_id a = accountId \<and> em_userId a = userId)"

lemma ownedAccount_other [simp]:
  "ownedAccount u k (d\<lparr>emailRules := x\<rparr>) = ownedAccount u k d"
  "ownedAccount u k (d\<lparr>ruleConditions := y\<rparr>) = ownedAccount u k d"
  by (simp_all add: ownedAccount_def)

definition conditionsOf :: "jsstring \<Rightarrow> database \<Rightarrow> condition_row list" where
  "conditionsOf ruleId d = filter (\<lambda>c. co_ruleId c = ruleId) (ruleConditions d)"

definition withConditions :: "database \<Rightarrow> rule_row \<Rightarrow> rule_with_conditions" where
  "withConditions d r = \<lparr>rc_rule = r, rc_conditions = conditionsOf (ru_id r) d\<rparr>"

definition rulesFindAll :: "jsstring \<Rightarrow> jsstring option \<Rightarrow> rule_with_conditions list action" where
  "rulesFindAll userId emailAccountId =
     dbQuery (\<lambda>d. map (withConditions d)
       (filter (\<lambda>r. ownedAccount userId (ru_emailAccountId r) d \<and>
                    (if truthy emailAccountId then ru_emailAccountId r = orElse emailAccountId [] else True))
          (emailRules d)))"

text \<open>The nested \<open>conditions: { create: [...] }\<close> of a rule.\<close>

definition insertCondition :: "env \<Rightarrow> jsstring \<Rightarrow> condition_input \<Rightarrow> unit action" where
  "insertCondition E ruleId c =
     bindA (case ci_id c of None \<Rightarrow> freshId E | Some i \<Rightarrow> ret i) (\<lambda>i.
     dbWrite (createCondition \<lparr>co_id = i, co_ruleId = ruleId, co_conditionType = ci_conditionType c,
                               co_conditionValue = ci_conditionValue c\<rparr>))"

definition insertConditions :: "env \<Rightarrow> jsstring \<Rightarrow> condition_input list \<Rightarrow> unit action" where
  "insertConditions E ruleId cs = bindA (mapA (insertCondition E ruleId) cs) (\<lambda>_. ret ())"

text \<open>
  A query of the client that writes several tables is one transaction of its own. A missing account
  id drops out of the filter, so that the lookup finds the first mail account of the user, and the
  creation that follows lacks a required column.
\<close>

definition rulesCreate :: "env \<Rightarrow> jsstring \<Rightarrow> rule_body \<Rightarrow> rule_with_conditions action" where
  "rulesCreate E userId data =
     bindA (dbQuery (\<lambda>d. find (\<lambda>a. (case rb_emailAccountId data of None \<Rightarrow> True | Some i \<Rightarrow> em_id a = i) \<and>
                                  em_userId a = userId) (emailAccounts d))) (\<lambda>emailAccount.
     bindA (throwIf (emailAccount = None) (NotFoundException EmailAccountNotFound)) (\<lambda>_.
     bindA (throwIf (rb_invalid data \<or> rb_emailAccountId data = None \<or> rb_actionType data = None)
              (PrismaError PValidation)) (\<lambda>_.
     transaction
       (bindA (freshId E) (\<lambda>i.
        bindA dateNow (\<lambda>now.
          let row = \<lparr>ru_id = i, ru_emailAccountId = orElse (rb_emailAccountId data) [],
                     ru_logicalOperator = orElse (rb_logicalOperator data) OpAND,
                     ru_actionType = orElse (rb_actionType data) [], ru_isActive = True, ru_createdAt = now\<rparr> in
          bindA (dbWrite (createRule row)) (\<lambda>_.
          bindA (insertConditions E i (orElse (rb_conditions data) [])) (\<lambda>_.
          dbQuery (\<lambda>d. withConditions d row)))))))))"

text \<open>A text counts as given when it is not empty, \<open>isActive\<close> when it is present.\<close>

definition changedRule :: "rule_body \<Rightarrow> rule_row \<Rightarrow> rule_row" where
  "changedRule data r =
     (let r1 = (case rb_logicalOperator data of None \<Rightarrow> r | Some op \<Rightarrow> r\<lparr>ru_logicalOperator := op\<rparr>);
          r2 = (if truthy (rb_actionType data) then r1\<lparr>ru_actionType := orElse (rb_actionType data) []\<rparr> else r1) in
      case rb_isActive data of None \<Rightarrow> r2 | Some b \<Rightarrow> r2\<lparr>ru_isActive := b\<rparr>)"

definition findOwnRule :: "jsstring \<Rightarrow> jsstring \<Rightarrow> database \<Rightarrow> rule_row option" where
  "findOwnRule userId i d =
     find (\<lambda>r. ru_id r = i \<and> ownedAccount userId (ru_emailAccountId r) d) (emailRules d)"

definition rulesUpdate :: "env \<Rightarrow> jsstring \<Rightarrow> jsstring \<Rightarrow> rule_body \<Rightarrow> rule_with_conditions action" where
  "rulesUpdate E userId i data =
     bindA (dbQuery (findOwnRule userId i)) (\<lambda>rule.
     bindA (throwIf (rule = None) (NotFoundException RuleNotFound)) (\<lambda>_.
     transaction
       (bindA (case rb_conditions data of
                 None \<Rightarrow> ret ()
               | Some _ \<Rightarrow> dbWriteAll (\<lambda>d. ((), deleteConditionsOf i d))) (\<lambda>_.
        bindA (throwIf (rb_invalid data) (PrismaError PValidation)) (\<lambda>_.
        bindA (dbWriteR (updateRule i (changedRule data))) (\<lambda>row.
        bindA (insertConditions E i (orElse (rb_conditions data) [])) (\<lambda>_.
        dbQuery (\<lambda>d. withConditions d row))))))))"

definition rulesRemove :: "jsstring \<Rightarrow> jsstring \<Rightarrow> unit action" where
  "rulesRemove userId i =
     bindA (dbQuery (findOwnRule userId i)) (\<lambda>rule.
     bindA (throwIf (rule = None) (NotFoundException RuleNotFound)) (\<lambda>_.
     dbWrite (deleteRule i)))"

section \<open>Routes\<close>

definition rulesFindAllRoute :: "jsstring \<Rightarrow> jsstring option \<Rightarrow> rule_with_conditions list action" where
  "rulesFindAllRoute sid emailAccountId =
     bindA (unlockedGuard sid) (\<lambda>(userId, _). rulesFindAll userId emailAccountId)"

definition rulesCreateRoute :: "env \<Rightarrow> jsstring \<Rightarrow> json \<Rightarrow> rule_with_conditions action" where
  "rulesCreateRoute E sid body =
     bindA (unlockedGuard sid) (\<lambda>(userId, _). bindA (liftE (readCreateBody body)) (rulesCreate E userId))"

definition rulesUpdateRoute :: "env \<Rightarrow> jsstring \<Rightarrow> jsstring \<Rightarrow> json \<Rightarrow> rule_with_conditions action" where
  "rulesUpdateRoute E sid i body =
     bindA (unlockedGuard sid) (\<lambda>(userId, _). rulesUpdate E userId i (readUpdateBody body))"

definition rulesRemoveRoute :: "jsstring \<Rightarrow> jsstring \<Rightarrow> unit action" where
  "rulesRemoveRoute sid i = bindA (unlockedGuard sid) (\<lambda>(userId, _). rulesRemove userId i)"

section \<open>Outcomes\<close>

text \<open>The ids drawn from here on are not among those of the conditions.\<close>

definition freshConditions :: "env \<Rightarrow> nat \<Rightarrow> database \<Rightarrow> bool" where
  "freshConditions E n d \<longleftrightarrow> inj (uuid E) \<and> (\<forall>k \<ge> n. \<forall>c \<in> set (ruleConditions d). co_id c \<noteq> uuid E k)"

text \<open>A condition as a body without ids gives it.\<close>

definition inputOf :: "condition_row \<Rightarrow> condition_input" where
  "inputOf c = \<lparr>ci_id = None, ci_conditionType = co_conditionType c, ci_conditionValue = co_conditionValue c\<rparr>"

lemma run_mapA_insertCondition:
  assumes "freshConditions E (draws w) (db w)" and "ruleId \<in> ru_id ` set (emailRules (db w))"
    and "list_all (\<lambda>c. ci_id c = None) cs"
  shows "\<exists>new us. mapA (insertCondition E ruleId) cs w =
      (Inr us, w\<lparr>db := (db w)\<lparr>ruleConditions := ruleConditions (db w) @ new\<rparr>, draws := draws w + length cs\<rparr>) \<and>
    map inputOf new = cs \<and> (\<forall>c \<in> set new. co_ruleId c = ruleId)"
  using assms
proof (induction cs arbitrary: w)
  case Nil
  show ?case by (intro exI [of _ "[]"]) (simp add: run_ret)
next
  case (Cons c cs)
  let ?row = "\<lparr>co_id = uuid E (draws w), co_ruleId = ruleId, co_conditionType = ci_conditionType c,
      co_conditionValue = ci_conditionValue c\<rparr>"
  let ?w = "w\<lparr>db := (db w)\<lparr>ruleConditions := ruleConditions (db w) @ [?row]\<rparr>, draws := Suc (draws w)\<rparr>"
  have step: "insertCondition E ruleId c w = (Inr (), ?w)"
    using Cons.prems by (simp add: insertCondition_def act_simps createCondition_def createRow_def
        condition_clash_def freshConditions_def)
  have "freshConditions E (draws ?w) (db ?w)"
    using Cons.prems(1) by (auto simp: freshConditions_def dest: injD)
  then obtain new us where rest: "mapA (insertCondition E ruleId) cs ?w =
      (Inr us, ?w\<lparr>db := (db ?w)\<lparr>ruleConditions := ruleConditions (db ?w) @ new\<rparr>, draws := draws ?w + length cs\<rparr>)"
    "map inputOf new = cs" "\<forall>c \<in> set new. co_ruleId c = ruleId"
    using Cons.IH [of ?w] Cons.prems(2,3) by auto
  have "inputOf ?row = c" using Cons.prems(3) by (simp add: inputOf_def)
  then show ?case
    using step rest by (intro exI [of _ "?row # new"] exI [of _ "() # us"]) (simp add: act_simps)
qed

lemma run_insertConditions:
  assumes "freshConditions E (draws w) (db w)" and "ruleId \<in> ru_id ` set (emailRules (db w))"
    and "list_all (\<lambda>c. ci_id c = None) cs"
  shows "\<exists>new. insertConditions E ruleId cs w =
      (Inr (), w\<lparr>db := (db w)\<lparr>ruleConditions := ruleConditions (db w) @ new\<rparr>, draws := draws w + length cs\<rparr>) \<and>
    map inputOf new = cs \<and> (\<forall>c \<in> set new. co_ruleId c = ruleId)"
  using run_mapA_insertCondition [OF assms]
  by (elim exE conjE, intro exI conjI) (simp add: insertConditions_def act_simps)+

lemma changedRule_keys [simp]:
  "ru_id (changedRule data r) = ru_id r" "ru_emailAccountId (changedRule data r) = ru_emailAccountId r"
  by (simp_all add: changedRule_def Let_def split: option.split)

lemma updateRule_ok:
  assumes "dbInv d" and "r \<in> set (emailRules d)" and "ru_id r = i" and "\<And>x. ru_id (f x) = ru_id x"
  shows "updateRule i f d = Inr (f r, d\<lparr>emailRules := map (\<lambda>x. if ru_id x = i then f x else x) (emailRules d)\<rparr>)"
proof -
  have "find (\<lambda>x. ru_id x = i) (emailRules d) = Some r"
    using rule_table.ok_find [OF dbInv_tables(5) [OF assms(1)] assms(2)] assms(3) by simp
  from rule_table.update_keeping [OF dbInv_tables(5) [OF assms(1)] this, of f] show ?thesis
    using assms(4) by (simp add: updateRule_def rule_clash_def)
qed

lemma findOwnRule_D:
  assumes "findOwnRule userId i d = Some r"
  shows "r \<in> set (emailRules d)" and "ru_id r = i" and "ownedAccount userId (ru_emailAccountId r) d"
  using assms by (auto simp: findOwnRule_def dest: find_Some_D)

section \<open>Preservation\<close>

lemma worldInv_createCondition [preserves_intros]: "preserves worldInv (dbWrite (createCondition c))"
proof (rule worldInv_dbWrite)
  fix d d' assume "dbInv d" and c: "createCondition c d = Inr d'"
  then have "dbInv d'" by (rule dbInv_createCondition)
  moreover have "users d' = users d" using c by (auto simp: createCondition_def split: sum.splits if_splits)
  ultimately show "dbInv d' \<and> u_id ` set (users d) \<subseteq> u_id ` set (users d')" by simp
qed

lemma worldInv_createRule [preserves_intros]: "preserves worldInv (dbWrite (createRule r))"
proof (rule worldInv_dbWrite)
  fix d d' assume "dbInv d" and c: "createRule r d = Inr d'"
  then have "dbInv d'" by (rule dbInv_createRule)
  moreover have "users d' = users d" using c by (auto simp: createRule_def split: sum.splits if_splits)
  ultimately show "dbInv d' \<and> u_id ` set (users d) \<subseteq> u_id ` set (users d')" by simp
qed

lemma worldInv_updateRule [preserves_intros]: "preserves worldInv (dbWriteR (updateRule i (changedRule data)))"
proof (rule worldInv_dbWriteR)
  fix d d' r assume d: "dbInv d" and c: "updateRule i (changedRule data) d = Inr (r, d')"
  have "dbInv d'" by (rule dbInv_updateRule [OF d c]) simp_all
  moreover have "users d' = users d" using c by (auto simp: updateRule_def split: sum.splits)
  ultimately show "dbInv d' \<and> u_id ` set (users d) \<subseteq> u_id ` set (users d')" by simp
qed

lemma worldInv_deleteConditionsOf [preserves_intros]:
  "preserves worldInv (dbWriteAll (\<lambda>d. (x, deleteConditionsOf i d)))"
  by (rule worldInv_dbWriteAll) (auto simp: deleteConditionsOf_def dest: dbInv_deleteConditionsOf [of _ i])

lemma worldInv_deleteRule [preserves_intros]: "preserves worldInv (dbWrite (deleteRule i))"
proof (rule worldInv_dbWrite)
  fix d d' assume "dbInv d" and c: "deleteRule i d = Inr d'"
  then have "dbInv d'" by (rule dbInv_deleteRule)
  moreover have "users d' = users d" using c by (auto simp: deleteRule_def cascadeRules_def Let_def split: option.splits)
  ultimately show "dbInv d' \<and> u_id ` set (users d) \<subseteq> u_id ` set (users d')" by simp
qed

lemma worldInv_ruleRoutes [preserves_intros]:
  "preserves worldInv (rulesFindAllRoute sid a)" "preserves worldInv (rulesCreateRoute E sid body)"
  "preserves worldInv (rulesUpdateRoute E sid i body)" "preserves worldInv (rulesRemoveRoute sid i)"
  unfolding rulesFindAllRoute_def rulesFindAll_def rulesCreateRoute_def rulesCreate_def rulesUpdateRoute_def
    rulesUpdate_def rulesRemoveRoute_def rulesRemove_def insertConditions_def insertCondition_def Let_def
  by (intro preserves_intros)+

lemma onlyDb_rules:
  "preserves (onlyDb w0) (rulesCreate E userId data)" "preserves (onlyDb w0) (rulesUpdate E userId i data)"
  unfolding rulesCreate_def rulesUpdate_def insertConditions_def insertCondition_def Let_def dateNow_def dbQuery_def
  by (intro preserves_intros)+

end
