(* ===== verification/Candidates.thy ===== *)
theory Candidates
  imports Rules
begin

text \<open>
  The waiting list of mails that a rule has caught: \<open>mail/candidates/candidates.service.ts\<close>, its
  controller, the scheduled scan, and the summary of \<open>notifications/notifications.service.ts\<close>.

  A scan keeps three counters that survive the exception of an account. It therefore runs over the
  state of the server together with the counters; \<open>onServer\<close> lifts an action of the server to it.
\<close>

section \<open>Reading\<close>

text \<open>\<open>emailAccount: { userId }\<close> as a filter, and the columns that come with a candidate.\<close>

definition ruleOf :: "candidate_row \<Rightarrow> database \<Rightarrow> rule_row option" where
  "ruleOf c d = find (\<lambda>r. ru_id r = ca_ruleId c) (emailRules d)"

definition accountOf :: "candidate_row \<Rightarrow> database \<Rightarrow> email_account_row option" where
  "accountOf c d = find (\<lambda>a. em_id a = ca_emailAccountId c) (emailAccounts d)"

text \<open>The action of the rule of a candidate; the foreign key guarantees that there is a rule.\<close>

definition actionTypeOf :: "database \<Rightarrow> candidate_row \<Rightarrow> jsstring" where
  "actionTypeOf d c = (case ruleOf c d of None \<Rightarrow> [] | Some r \<Rightarrow> ru_actionType r)"

definition findPending :: "jsstring \<Rightarrow> (candidate_row \<times> jsstring) list action" where
  "findPending userId =
     dbQuery (\<lambda>d. map (\<lambda>c. (c, actionTypeOf d c))
       (newestFirst ca_receivedAt
         (filter (\<lambda>c. ca_status c = PENDING \<and> ownedAccount userId (ca_emailAccountId c) d) (emailCandidates d))))"

text \<open>\<open>groupBy\<close> with a count: one pair for each value of the column.\<close>

definition groupCount :: "('r \<Rightarrow> 'k) \<Rightarrow> 'r list \<Rightarrow> ('k \<times> nat) list" where
  "groupCount column rows =
     map (\<lambda>k. (k, length (filter (\<lambda>r. column r = k) rows))) (remdups (map column rows))"

lemma map_of_groupCount:
  "map_of (groupCount f rows) k = (if k \<in> f ` set rows then Some (length (filter (\<lambda>r. f r = k) rows)) else None)"
  by (simp add: groupCount_def map_of_map_restrict restrict_map_def)

record account_summary =
  sm_emailAccountId :: jsstring
  sm_displayName :: jsstring
  sm_importantCount :: nat

definition importantSummary :: "jsstring \<Rightarrow> account_summary list action" where
  "importantSummary userId =
     bindA (dbQuery (\<lambda>d. filter (\<lambda>a. em_userId a = userId) (emailAccounts d))) (\<lambda>rows.
     bindA (dbQuery (\<lambda>d. groupCount ca_emailAccountId
              (filter (\<lambda>c. ca_status c = APPROVED \<and> actionTypeOf d c = js ''important'' \<and>
                           ownedAccount userId (ca_emailAccountId c) d) (emailCandidates d)))) (\<lambda>counts.
     let countByAccount = map_of counts in
     ret (map (\<lambda>account. \<lparr>sm_emailAccountId = em_id account, sm_displayName = em_displayName account,
                          sm_importantCount = orElse (countByAccount (em_id account)) 0\<rparr>) rows)))"

definition notificationsSummary :: "(jsstring \<times> nat) list action" where
  "notificationsSummary =
     dbQuery (\<lambda>d. groupCount ca_emailAccountId (filter (\<lambda>c. ca_status c = PENDING) (emailCandidates d)))"

section \<open>Scanning\<close>

record scan_counters =
  scannedAccounts :: nat
  createdCandidates :: nat
  failedAccounts :: nat

type_synonym 'a scanning = "(world \<times> scan_counters, 'a) act"

definition onServer :: "'a action \<Rightarrow> 'a scanning" where
  "onServer m = (\<lambda>(w, c). case m w of (r, w') \<Rightarrow> (r, (w', c)))"

definition countUp :: "(scan_counters \<Rightarrow> scan_counters) \<Rightarrow> unit scanning" where
  "countUp f = modify (\<lambda>(w, c). (w, f c))"

text \<open>\<open>emailCandidate.create\<close>; an invalid date is an argument the database client rejects.\<close>

definition insertCandidate :: "env \<Rightarrow> jsstring \<Rightarrow> jsstring \<Rightarrow> raw_mail_message \<Rightarrow> unit action" where
  "insertCandidate E ruleId accountId m =
     (case rm_receivedAt m of
        None \<Rightarrow> throw (PrismaError PValidation)
      | Some t \<Rightarrow>
          bindA (freshId E) (\<lambda>i.
          dbWrite (createCandidate
            \<lparr>ca_id = i, ca_ruleId = ruleId, ca_emailAccountId = accountId,
             ca_externalMessageId = rm_externalMessageId m, ca_sender = rm_sender m, ca_subject = rm_subject m,
             ca_receivedAt = t, ca_status = PENDING, ca_processedAt = None\<rparr>)))"

text \<open>The inner loop: one message against one rule. A candidate that exists already is no error.\<close>

definition scanRule :: "env \<Rightarrow> jsstring \<Rightarrow> raw_mail_message \<Rightarrow> rule_with_conditions \<Rightarrow> unit scanning" where
  "scanRule E accountId m rule =
     bindA (liftE (messageMatchesRule E m rule)) (\<lambda>matches.
       if \<not> matches then ret ()
       else catchA
         (bindA (onServer (insertCandidate E (ru_id (rc_rule rule)) accountId m)) (\<lambda>_.
          countUp (\<lambda>c. c\<lparr>createdCandidates := createdCandidates c + 1\<rparr>)))
         (\<lambda>e. if e \<noteq> PrismaError P2002 then throw e else ret ()))"

definition scanMessage :: "env \<Rightarrow> jsstring \<Rightarrow> rule_with_conditions list \<Rightarrow> raw_mail_message \<Rightarrow> unit \<Rightarrow> unit scanning" where
  "scanMessage E accountId rules m _ = foldA (\<lambda>rule _. scanRule E accountId m rule) rules ()"

definition activeRules :: "jsstring \<Rightarrow> database \<Rightarrow> rule_with_conditions list" where
  "activeRules accountId d =
     map (withConditions d) (filter (\<lambda>r. ru_emailAccountId r = accountId \<and> ru_isActive r) (emailRules d))"

definition scanAccount :: "env \<Rightarrow> email_account_row \<Rightarrow> unit \<Rightarrow> unit scanning" where
  "scanAccount E account _ =
     catchA
       (bindA (liftE (registryGet E (em_providerType account))) (\<lambda>provider.
        bindA (onServer (dbQuery (activeRules (em_id account)))) (\<lambda>rules.
          if length rules = 0 then ret ()
          else
            bindA (onServer (mp_listCandidateMessages provider (em_id account))) (\<lambda>messages.
            bindA (countUp (\<lambda>c. c\<lparr>scannedAccounts := scannedAccounts c + 1\<rparr>)) (\<lambda>_.
            foldA (scanMessage E (em_id account) rules) messages ())))))
       (\<lambda>e. countUp (\<lambda>c. c\<lparr>failedAccounts := failedAccounts c + 1\<rparr>))"

definition noCounters :: scan_counters where
  "noCounters = \<lparr>scannedAccounts = 0, createdCandidates = 0, failedAccounts = 0\<rparr>"

definition scanAccounts :: "env \<Rightarrow> email_account_row list \<Rightarrow> scan_counters action" where
  "scanAccounts E rows = (\<lambda>w.
     case foldA (scanAccount E) rows () (w, noCounters) of
       (Inl e, (w', c)) \<Rightarrow> (Inl e, w')
     | (Inr _, (w', c)) \<Rightarrow> (Inr c, w'))"

definition scan :: "env \<Rightarrow> jsstring \<Rightarrow> scan_counters action" where
  "scan E userId =
     bindA (dbQuery (\<lambda>d. filter (\<lambda>a. em_userId a = userId \<and> em_isActive a) (emailAccounts d))) (scanAccounts E)"

definition scanAll :: "env \<Rightarrow> scan_counters action" where
  "scanAll E = bindA (dbQuery (\<lambda>d. filter em_isActive (emailAccounts d))) (scanAccounts E)"

text \<open>The scheduled job logs the counters and drops them.\<close>

definition handleScheduledScan :: "env \<Rightarrow> unit action" where
  "handleScheduledScan E = bindA (scanAll E) (\<lambda>result. ret ())"

section \<open>Deciding\<close>

definition findOwned :: "jsstring \<Rightarrow> jsstring \<Rightarrow> database \<Rightarrow> (candidate_row \<times> rule_row \<times> email_account_row) option" where
  "findOwned userId i d =
     (case find (\<lambda>c. ca_id c = i \<and> ownedAccount userId (ca_emailAccountId c) d) (emailCandidates d) of
        None \<Rightarrow> None
      | Some c \<Rightarrow>
          (case (ruleOf c d, accountOf c d) of
             (Some r, Some a) \<Rightarrow> Some (c, r, a)
           | _ \<Rightarrow> None))"

definition decide :: "jsstring \<Rightarrow> candidate_status \<Rightarrow> candidate_row action" where
  "decide i status =
     bindA dateNow (\<lambda>now.
     dbWriteR (updateCandidate i (\<lambda>c. c\<lparr>ca_status := status, ca_processedAt := Some now\<rparr>)))"

definition approve :: "env \<Rightarrow> jsstring \<Rightarrow> jsstring \<Rightarrow> candidate_row action" where
  "approve E userId i =
     bindA (dbQuery (findOwned userId i)) (\<lambda>found.
       case found of
         None \<Rightarrow> throw (NotFoundException CandidateNotFound)
       | Some (c, rule, account) \<Rightarrow>
           bindA
             (if ru_actionType rule = js ''delete_candidate'' \<or> ru_actionType rule = js ''spam_candidate''
              then bindA (liftE (registryGet E (em_providerType account))) (\<lambda>provider.
                   mp_applyAction provider (ca_emailAccountId c) (ca_externalMessageId c)
                     (if ru_actionType rule = js ''delete_candidate'' then DeleteMail else SpamMail))
              else ret ()) (\<lambda>_.
           decide i APPROVED))"

definition exclude :: "jsstring \<Rightarrow> jsstring \<Rightarrow> candidate_row action" where
  "exclude userId i =
     bindA (dbQuery (findOwned userId i)) (\<lambda>found.
     bindA (throwIf (found = None) (NotFoundException CandidateNotFound)) (\<lambda>_.
     decide i EXCLUDED))"

section \<open>Routes\<close>

definition findPendingRoute :: "jsstring \<Rightarrow> (candidate_row \<times> jsstring) list action" where
  "findPendingRoute sid = bindA (unlockedGuard sid) (\<lambda>(userId, _). findPending userId)"

definition scanRoute :: "env \<Rightarrow> jsstring \<Rightarrow> scan_counters action" where
  "scanRoute E sid = bindA (unlockedGuard sid) (\<lambda>(userId, _). scan E userId)"

definition importantSummaryRoute :: "jsstring \<Rightarrow> account_summary list action" where
  "importantSummaryRoute sid = bindA (unlockedGuard sid) (\<lambda>(userId, _). importantSummary userId)"

definition approveRoute :: "env \<Rightarrow> jsstring \<Rightarrow> jsstring \<Rightarrow> candidate_row action" where
  "approveRoute E sid i = bindA (unlockedGuard sid) (\<lambda>(userId, _). approve E userId i)"

definition excludeRoute :: "jsstring \<Rightarrow> jsstring \<Rightarrow> candidate_row action" where
  "excludeRoute sid i = bindA (unlockedGuard sid) (\<lambda>(userId, _). exclude userId i)"

text \<open>The summary of the notifications has no guard.\<close>

definition summaryRoute :: "(jsstring \<times> nat) list action" where
  "summaryRoute = notificationsSummary"

end
