(* ===== verification/Scanning.thy ===== *)
theory Scanning
  imports Candidates
begin

text \<open>
  The scan step by step: what it keeps (it only adds pending candidates and refreshes cached
  tokens, and it only reads the mailboxes), the invariant of the state, and the set of candidates it
  leaves.
\<close>

section \<open>Lifting to the counters\<close>

lemma run_onServer [act_simps]: "onServer m (w, c) = (fst (m w), (snd (m w), c))"
  by (simp add: onServer_def split: prod.split)

lemma run_countUp [act_simps]: "countUp f (w, c) = (Inr (), (w, f c))"
  by (simp add: countUp_def act_simps)

definition onFirst :: "(world \<Rightarrow> bool) \<Rightarrow> world \<times> scan_counters \<Rightarrow> bool" where
  "onFirst I s = I (fst s)"

lemma preserves_onServer [preserves_intros]: "preserves I m \<Longrightarrow> preserves (onFirst I) (onServer m)"
  by (auto simp: preserves_def onFirst_def run_onServer)

lemma preserves_countUp [preserves_intros]: "preserves (onFirst I) (countUp f)"
  by (auto simp: preserves_def onFirst_def run_countUp)

text \<open>The account of a failing scan is counted; a scan never throws.\<close>

lemma scanAccount_returns: "\<exists>s'. scanAccount E account u s = (Inr (), s')"
proof -
  have "\<exists>s'. countUp f s = (Inr (), s')" for f s by (cases s) (simp add: run_countUp)
  then show ?thesis by (auto simp: scanAccount_def run_catchA split: prod.split sum.split)
qed

lemma foldA_scanAccount_returns: "\<exists>s'. foldA (scanAccount E) rows () s = (Inr (), s')"
proof (induction rows arbitrary: s)
  case Nil
  show ?case by (simp add: run_ret)
next
  case (Cons a rows)
  obtain s' where "scanAccount E a () s = (Inr (), s')" using scanAccount_returns by blast
  then show ?case using Cons.IH [of s'] by (simp add: run_bindA)
qed

section \<open>What a scan keeps\<close>

text \<open>The calls that change a mailbox.\<close>

fun reads :: "gmail_call \<Rightarrow> bool" where
  "reads (TrashMessage _ _) = False"
| "reads (ModifyMessage _ _ _) = False"
| "reads _ = True"

definition mailboxChanges :: "gmail_call list \<Rightarrow> gmail_call list" where
  "mailboxChanges l = filter (\<lambda>g. \<not> reads g) l"

definition sameMailbox :: "gmail_call list \<Rightarrow> world \<Rightarrow> bool" where
  "sameMailbox l w \<longleftrightarrow> mailboxChanges (gmailLog w) = l"

lemma sameMailbox_steps [preserves_intros]:
  "preserves (sameMailbox l) nextDraw" "preserves (sameMailbox l) (encrypt E p k)"
  "preserves (sameMailbox l) (dbWriteR f)" "preserves (sameMailbox l) (dbWrite g)"
  by (auto simp: preserves_def sameMailbox_def run_nextDraw run_encrypt run_dbWriteR run_dbWrite split: sum.split prod.split)

lemma sameMailbox_callGmail [preserves_intros]: "reads g \<Longrightarrow> preserves (sameMailbox l) (callGmail g f)"
  by (auto simp: preserves_def sameMailbox_def run_callGmail mailboxChanges_def)

lemma sameMailbox_freshId [preserves_intros]: "preserves (sameMailbox l) (freshId E)"
  unfolding freshId_def by (intro preserves_intros)

lemma sameMailbox_getAuthorizedClient [preserves_intros]: "preserves (sameMailbox l) (getAuthorizedClient E i)"
  unfolding getAuthorizedClient_def Let_def by (intro preserves_intros)

lemma sameMailbox_list [preserves_intros]: "preserves (sameMailbox l) (listCandidateMessages E i)"
  unfolding listCandidateMessages_def fetchMessage_def Let_def by (intro preserves_intros) simp_all

text \<open>
  \<open>grown w0 s\<close>: compared with \<open>w0\<close> there are as many new candidates as counted, all pending and
  behind the old ones, and nothing else differs but cached tokens, draws and reading calls.
\<close>

definition grown :: "world \<Rightarrow> nat \<Rightarrow> world \<times> scan_counters \<Rightarrow> bool" where
  "grown w0 n s \<longleftrightarrow>
     (\<exists>new. emailCandidates (db (fst s)) = emailCandidates (db w0) @ new \<and>
        n + length new = createdCandidates (snd s) \<and> list_all (\<lambda>x. ca_status x = PENDING) new) \<and>
     sameMailbox (mailboxChanges (gmailLog w0)) (fst s) \<and>
     onlyTokens w0 ((fst s)\<lparr>db := (db (fst s))\<lparr>emailCandidates := emailCandidates (db w0)\<rparr>\<rparr>)"

lemma grown_start: "grown w (createdCandidates c) (w, c)"
  by (simp add: grown_def sameMailbox_def)

lemma grown_onServer:
  assumes "\<And>v. preserves (onlyTokens v) m" and "\<And>l. preserves (sameMailbox l) m"
  shows "preserves (grown w0 n) (onServer m)"
proof (rule preservesI)
  fix s r s' assume g: "grown w0 n s" and run: "onServer m s = (r, s')"
  obtain w c where s: "s = (w, c)" by (cases s)
  obtain w' where m: "m w = (r, w')" and s': "s' = (w', c)" using run s by (cases "m w") (simp add: run_onServer)
  have "onlyTokens w w'" by (rule preservesD [OF assms(1) onlyTokens_refl m])
  then have t: "onlyTokens (w\<lparr>db := (db w)\<lparr>emailCandidates := x\<rparr>\<rparr>) (w'\<lparr>db := (db w')\<lparr>emailCandidates := x\<rparr>\<rparr>)"
    and c: "emailCandidates (db w') = emailCandidates (db w)" for x
    by (simp_all add: onlyTokens_def sameButTokens_def)
  have "sameMailbox (mailboxChanges (gmailLog w0)) w'"
    using g s by (intro preservesD [OF assms(2) _ m]) (simp add: grown_def)
  then show "grown w0 n s'"
    using g c onlyTokens_trans [OF _ t] unfolding grown_def s s' by auto
qed

lemma grown_countUp [preserves_intros]:
  "(\<And>c. createdCandidates (f c) = createdCandidates c) \<Longrightarrow> preserves (grown w0 n) (countUp f)"
  by (auto simp: preserves_def grown_def run_countUp)

lemma run_insertCandidate:
  "insertCandidate E ruleId accountId m w =
     (case rm_receivedAt m of
        None \<Rightarrow> (Inl (PrismaError PValidation), w)
      | Some t \<Rightarrow>
          (case createCandidate \<lparr>ca_id = uuid E (draws w), ca_ruleId = ruleId, ca_emailAccountId = accountId,
             ca_externalMessageId = rm_externalMessageId m, ca_sender = rm_sender m, ca_subject = rm_subject m,
             ca_receivedAt = t, ca_status = PENDING, ca_processedAt = None\<rparr> (db w) of
             Inl c \<Rightarrow> (Inl (PrismaError c), w\<lparr>draws := Suc (draws w)\<rparr>)
           | Inr d \<Rightarrow> (Inr (), w\<lparr>draws := Suc (draws w), db := d\<rparr>)))"
  by (simp add: insertCandidate_def act_simps split: option.split sum.split)

lemma createCandidate_Inr:
  "createCandidate r d = Inr d' \<Longrightarrow> d' = d\<lparr>emailCandidates := emailCandidates d @ [r]\<rparr>"
  by (auto simp: createCandidate_def createRow_def split: sum.splits if_splits)

lemma insertCandidate_outcome:
  assumes "insertCandidate E ruleId accountId m w = (r, w')"
  shows "(\<exists>e. r = Inl e \<and> (w' = w \<or> w' = w\<lparr>draws := Suc (draws w)\<rparr>)) \<or>
    (\<exists>row. r = Inr () \<and> ca_status row = PENDING \<and>
       w' = w\<lparr>draws := Suc (draws w), db := (db w)\<lparr>emailCandidates := emailCandidates (db w) @ [row]\<rparr>\<rparr>)"
proof (cases "rm_receivedAt m")
  case None
  then show ?thesis using assms by (auto simp: run_insertCandidate)
next
  case (Some t)
  let ?row = "\<lparr>ca_id = uuid E (draws w), ca_ruleId = ruleId, ca_emailAccountId = accountId,
             ca_externalMessageId = rm_externalMessageId m, ca_sender = rm_sender m, ca_subject = rm_subject m,
             ca_receivedAt = t, ca_status = PENDING, ca_processedAt = None\<rparr>"
  show ?thesis
  proof (cases "createCandidate ?row (db w)")
    case (Inl c)
    then show ?thesis using assms Some by (auto simp: run_insertCandidate)
  next
    case (Inr d)
    then show ?thesis using assms Some createCandidate_Inr [OF Inr]
      by (intro disjI2 exI [of _ ?row]) (simp add: run_insertCandidate)
  qed
qed

lemma grown_insert:
  "preserves (grown w0 n) (bindA (onServer (insertCandidate E ruleId accountId m))
     (\<lambda>_. countUp (\<lambda>c. c\<lparr>createdCandidates := createdCandidates c + 1\<rparr>)))"
proof (rule preservesI)
  fix s r s'
  assume g: "grown w0 n s" and run: "bindA (onServer (insertCandidate E ruleId accountId m))
     (\<lambda>_. countUp (\<lambda>c. c\<lparr>createdCandidates := createdCandidates c + 1\<rparr>)) s = (r, s')"
  obtain w c where s: "s = (w, c)" by (cases s)
  have "s' = (w, c) \<or> s' = (w\<lparr>draws := Suc (draws w)\<rparr>, c) \<or>
      (\<exists>row. ca_status row = PENDING \<and>
        s' = (w\<lparr>draws := Suc (draws w), db := (db w)\<lparr>emailCandidates := emailCandidates (db w) @ [row]\<rparr>\<rparr>,
              c\<lparr>createdCandidates := createdCandidates c + 1\<rparr>))"
  proof -
    obtain x w' where x: "insertCandidate E ruleId accountId m w = (x, w')"
      by (cases "insertCandidate E ruleId accountId m w")
    show ?thesis using run insertCandidate_outcome [OF x] unfolding s by (auto simp: act_simps x)
  qed
  moreover have "grown w0 n (w\<lparr>draws := k\<rparr>, c)" for k
    using g unfolding s grown_def by (simp add: sameMailbox_def onlyTokens_def)
  moreover have "grown w0 n (w\<lparr>draws := k, db := (db w)\<lparr>emailCandidates := emailCandidates (db w) @ [row]\<rparr>\<rparr>,
      c\<lparr>createdCandidates := createdCandidates c + 1\<rparr>)" if "ca_status row = PENDING" for k row
    using g that unfolding s grown_def by (auto simp: sameMailbox_def onlyTokens_def)
  ultimately show "grown w0 n s'" using g s by auto
qed

lemma grown_scanRule [preserves_intros]: "preserves (grown w0 n) (scanRule E accountId m rule)"
  unfolding scanRule_def by (intro preserves_intros grown_insert)

lemma scanAccount_eq:
  "scanAccount E account u =
     catchA
       (if em_providerType account = js ''gmail'' then
          bindA (onServer (dbQuery (activeRules (em_id account)))) (\<lambda>rules.
          if length rules = 0 then ret ()
          else
            bindA (onServer (listCandidateMessages E (em_id account))) (\<lambda>messages.
            bindA (countUp (\<lambda>c. c\<lparr>scannedAccounts := scannedAccounts c + 1\<rparr>)) (\<lambda>_.
            foldA (scanMessage E (em_id account) rules) messages ())))
        else throw (NotFoundException ProviderUnsupported))
       (\<lambda>e. countUp (\<lambda>c. c\<lparr>failedAccounts := failedAccounts c + 1\<rparr>))"
proof -
  have "bindA (liftE (Inr x)) f = f x" "bindA (liftE (Inl e)) f = throw e"
    for x e and f :: "mail_provider_object \<Rightarrow> unit scanning"
    by (rule ext, simp add: act_simps)+
  then show ?thesis by (simp add: scanAccount_def registryGet_eq gmailProvider_def cong: if_cong)
qed

lemma grown_scanAccount [preserves_intros]: "preserves (grown w0 n) (scanAccount E account u)"
proof -
  have query: "preserves (grown w0 n) (onServer (dbQuery f))" for f :: "database \<Rightarrow> 'x"
    by (rule grown_onServer) (rule preserves_intros)+
  have "preserves (grown w0 n) (onServer (listCandidateMessages E i))" for i
    by (rule grown_onServer) (rule gmail.list_keeps sameMailbox_list)+
  then show ?thesis
    unfolding scanAccount_eq scanMessage_def by (intro preserves_intros query) simp_all
qed

text \<open>Refreshing tokens changes no owner.\<close>

lemma ownedAccount_tokens:
  assumes "map withoutToken (emailAccounts d') = map withoutToken (emailAccounts d)"
  shows "ownedAccount userId k d' = ownedAccount userId k d"
proof -
  have eq: "ownedAccount userId k x \<longleftrightarrow> (\<exists>a \<in> set (map withoutToken (emailAccounts x)). em_id a = k \<and> em_userId a = userId)" for x
    by (auto simp: ownedAccount_def withoutToken_def)
  show ?thesis by (simp only: eq [of d'] eq [of d] assms)
qed

section \<open>The invariant of the state\<close>

text \<open>The rules with an id in \<open>R\<close> belong to the account, as those the scan has loaded do.\<close>

definition inAccount :: "jsstring set \<Rightarrow> jsstring \<Rightarrow> world \<Rightarrow> bool" where
  "inAccount R a w \<longleftrightarrow>
     worldInv w \<and> (\<forall>r \<in> set (emailRules (db w)). ru_id r \<in> R \<longrightarrow> ru_emailAccountId r = a)"

lemma inAccount_insert:
  assumes "ruleId \<in> R"
  shows "preserves (inAccount R a) (insertCandidate E ruleId a m)"
proof (rule preservesI)
  fix w r w' assume w: "inAccount R a w" and run: "insertCandidate E ruleId a m w = (r, w')"
  show "inAccount R a w'"
  proof (cases "rm_receivedAt m")
    case None
    then show ?thesis using w run by (simp add: run_insertCandidate)
  next
    case (Some t)
    let ?row = "\<lparr>ca_id = uuid E (draws w), ca_ruleId = ruleId, ca_emailAccountId = a,
             ca_externalMessageId = rm_externalMessageId m, ca_sender = rm_sender m, ca_subject = rm_subject m,
             ca_receivedAt = t, ca_status = PENDING, ca_processedAt = None\<rparr>"
    have draws: "inAccount R a (w\<lparr>draws := k\<rparr>)" for k using w by (simp add: inAccount_def)
    show ?thesis
    proof (cases "createCandidate ?row (db w)")
      case (Inl c)
      then show ?thesis using run Some draws by (auto simp: run_insertCandidate)
    next
      case (Inr d)
      have "dbInv d"
        using w assms by (intro dbInv_createCandidate [OF _ Inr]) (auto simp: inAccount_def worldInv_def)
      then have "worldInv ((w\<lparr>draws := Suc (draws w)\<rparr>)\<lparr>db := d\<rparr>)"
        using w createCandidate_Inr [OF Inr] by (intro worldInv_setDb) (simp_all add: inAccount_def)
      then show ?thesis using run Some Inr w createCandidate_Inr [OF Inr]
        by (auto simp: run_insertCandidate inAccount_def)
    qed
  qed
qed

lemma inAccount_list: "preserves (inAccount R a) (listCandidateMessages E i)"
proof (rule preservesI)
  fix w r w' assume w: "inAccount R a w" and run: "listCandidateMessages E i w = (r, w')"
  have "worldInv w'" using w by (intro preservesD [OF gmail.list_inv _ run]) (simp add: inAccount_def)
  moreover have "emailRules (db w') = emailRules (db w)"
    using gmail.list_database [OF run] by (simp add: sameButTokens_def)
  ultimately show "inAccount R a w'" using w by (simp add: inAccount_def)
qed

lemma inAccount_scanRule:
  assumes "ru_id (rc_rule rule) \<in> R"
  shows "preserves (onFirst (inAccount R a)) (scanRule E a m rule)"
  unfolding scanRule_def by (intro preserves_intros inAccount_insert [OF assms])

lemma worldInv_scanAccount [preserves_intros]: "preserves (onFirst worldInv) (scanAccount E account u)"
proof (rule preservesI)
  fix s r s' assume inv: "onFirst worldInv s" and run: "scanAccount E account u s = (r, s')"
  let ?a = "em_id account"
  let ?R = "ru_id ` rc_rule ` set (activeRules ?a (db (fst s)))"
  let ?body = "\<lambda>rules. if length rules = 0 then ret ()
          else
            bindA (onServer (listCandidateMessages E ?a)) (\<lambda>messages.
            bindA (countUp (\<lambda>c. c\<lparr>scannedAccounts := scannedAccounts c + 1\<rparr>)) (\<lambda>_.
            foldA (scanMessage E ?a rules) messages ()))"
  let ?m = "catchA (if em_providerType account = js ''gmail'' then ?body (activeRules ?a (db (fst s)))
        else throw (NotFoundException ProviderUnsupported))
       (\<lambda>e. countUp (\<lambda>c. c\<lparr>failedAccounts := failedAccounts c + 1\<rparr>))"
  have "preserves (onFirst (inAccount ?R ?a)) (scanMessage E ?a (activeRules ?a (db (fst s))) m x)" for m x
    unfolding scanMessage_def by (rule preserves_foldA_mem) (rule inAccount_scanRule, simp)
  then have keeps: "preserves (onFirst (inAccount ?R ?a)) ?m"
    by (intro preserves_intros inAccount_list)
  have "onServer (dbQuery f) s = (Inr (f (db (fst s))), s)" for f :: "database \<Rightarrow> rule_with_conditions list"
    by (cases s) (simp add: act_simps)
  then have "scanAccount E account u s = ?m s"
    unfolding scanAccount_eq run_catchA by (cases "em_providerType account = js ''gmail''") (simp_all only: simp_thms if_True if_False run_bindA prod.case sum.case)
  then have m: "?m s = (r, s')" using run by (simp only:)
  have start: "onFirst (inAccount ?R ?a) s"
  proof -
    have "dbInv (db (fst s))" using inv by (simp add: onFirst_def worldInv_def)
    then have "ru_emailAccountId r = ?a" if "r \<in> set (emailRules (db (fst s)))" "ru_id r \<in> ?R" for r
      using that rule_table.ok_same_key [OF dbInv_tables(5)] by (fastforce simp: activeRules_def withConditions_def)
    then show ?thesis using inv by (simp add: onFirst_def inAccount_def)
  qed
  have "onFirst (inAccount ?R ?a) s'" by (rule preservesD [OF keeps start m])
  then show "onFirst worldInv s'" by (simp add: onFirst_def inAccount_def)
qed

lemma worldInv_scanAccounts [preserves_intros]: "preserves worldInv (scanAccounts E rows)"
proof (rule preservesI)
  fix w r w' assume w: "worldInv w" and run: "scanAccounts E rows w = (r, w')"
  obtain x v c where x: "foldA (scanAccount E) rows () (w, noCounters) = (x, (v, c))"
    by (cases "foldA (scanAccount E) rows () (w, noCounters)") auto
  have "preserves (onFirst worldInv) (foldA (scanAccount E) rows ())" by (intro preserves_intros)
  from preservesD [OF this _ x] have "worldInv v" using w by (simp add: onFirst_def)
  then show "worldInv w'" using run x by (cases x) (auto simp: scanAccounts_def)
qed

lemma worldInv_decide [preserves_intros]: "preserves worldInv (decide i status)"
proof -
  have "preserves worldInv (dbWriteR (updateCandidate i (\<lambda>c. c\<lparr>ca_status := status, ca_processedAt := Some now\<rparr>)))" for now
  proof (rule worldInv_dbWriteR)
    fix d d' r assume d: "dbInv d"
      and up: "updateCandidate i (\<lambda>c. c\<lparr>ca_status := status, ca_processedAt := Some now\<rparr>) d = Inr (r, d')"
    have "dbInv d'" by (rule dbInv_updateCandidate [OF d up]) simp_all
    moreover have "users d' = users d" using up by (auto simp: updateCandidate_def split: sum.splits)
    ultimately show "dbInv d' \<and> u_id ` set (users d) \<subseteq> u_id ` set (users d')" by simp
  qed
  then show ?thesis unfolding decide_def by (intro preserves_intros)
qed

lemma run_approve:
  "approve E userId i w =
     (case findOwned userId i (db w) of
        None \<Rightarrow> (Inl (NotFoundException CandidateNotFound), w)
      | Some (c, rule, account) \<Rightarrow>
          if ru_actionType rule = js ''delete_candidate'' \<or> ru_actionType rule = js ''spam_candidate'' then
            (if em_providerType account = js ''gmail'' then
               (case applyAction E (ca_emailAccountId c) (ca_externalMessageId c)
                       (if ru_actionType rule = js ''delete_candidate'' then DeleteMail else SpamMail) w of
                  (Inl e, w') \<Rightarrow> (Inl e, w')
                | (Inr _, w') \<Rightarrow> decide i APPROVED w')
             else (Inl (NotFoundException ProviderUnsupported), w))
          else decide i APPROVED w)"
  by (auto simp: approve_def act_simps registryGet_eq gmailProvider_def split: option.split prod.split)

lemma worldInv_approve [preserves_intros]: "preserves worldInv (approve E userId i)"
proof (rule preservesI)
  fix w r w' assume w: "worldInv w" and run: "approve E userId i w = (r, w')"
  have dec: "worldInv v'" if "worldInv v" "decide i APPROVED v = (x, v')" for v x v'
    using that by (rule preservesD [OF worldInv_decide])
  have app: "worldInv v" if "applyAction E a m k w = (x, v)" for a m k x v
    using w that by (rule preservesD [OF gmail.apply_inv])
  show "worldInv w'" using run w
    by (auto simp: run_approve split: option.splits prod.splits if_splits sum.splits intro: dec app dec [OF app])
qed

lemma worldInv_candidateRoutes [preserves_intros]:
  "preserves worldInv (findPendingRoute sid)" "preserves worldInv (scanRoute E sid)"
  "preserves worldInv (importantSummaryRoute sid)" "preserves worldInv (approveRoute E sid i)"
  "preserves worldInv (excludeRoute sid i)" "preserves worldInv summaryRoute"
  "preserves worldInv (handleScheduledScan E)"
  unfolding findPendingRoute_def findPending_def scanRoute_def scan_def importantSummaryRoute_def
    importantSummary_def approveRoute_def excludeRoute_def exclude_def summaryRoute_def notificationsSummary_def
    handleScheduledScan_def scanAll_def Let_def
  by (intro preserves_intros)+

end
