(* ===== verification/Server.thy ===== *)
theory Server
  imports WebAuthn Backup PasswordGenerator EmailAccounts Scanning
begin

text \<open>
  The server as a transition system. \<open>request\<close> has one constructor for every route the modules of
  \<open>app.module.ts\<close> register, \<open>handle\<close> runs the route for a session. Between requests time passes, the
  scheduled scan runs, and the process may be restarted, which empties the key store and keeps the
  database and the sessions (they live in Postgres).

  An assertion about the state that all primitive effects of a request keep is kept by the routes
  built from them. The locale \<open>effect_invariant\<close> proves that once for every route but those that put
  a key into the store and the one that changes a mailbox; its two extensions add these.
\<close>

section \<open>Requests\<close>

datatype request =
    GetGoogleStart
  | GetGoogleCallback "jsstring option" "jsstring option"
  | PostMasterPasswordSetup "jsstring option"
  | PostMasterPasswordChange "jsstring option" "jsstring option"
  | PostUnlock "jsstring option"
  | PostLock
  | PostLogout
  | GetMe
  | GetSettings
  | PostAutoLockMinutes json
  | GetWebauthnDevices
  | PostWebauthnRegisterOptions
  | PostWebauthnRegister "jsstring option" json
  | PostWebauthnAuthenticateOptions
  | PostWebauthnAuthenticate "auth_response option" "jsstring option"
  | DeleteWebauthnDevice jsstring
  | GetAccounts "jsstring option" "jsstring option"
  | GetAccount jsstring
  | PostAccount json
  | PostGeneratePassword password_options
  | PostExport "jsstring option"
  | PostImport "jsstring option" backup_file
  | PutAccount jsstring json
  | DeleteAccount jsstring
  | GetEmailAccounts
  | GetEmailOAuthStart
  | GetEmailOAuthCallback "jsstring option" "jsstring option"
  | DeleteEmailAccount jsstring
  | GetRules "jsstring option"
  | PostRule json
  | PutRule jsstring json
  | DeleteRule jsstring
  | GetCandidates
  | PostScan
  | GetImportantSummary
  | PostApprove jsstring
  | PostExclude jsstring
  | GetNotificationsSummary

text \<open>The state after a request; the response is dropped, whether it is a value or an exception.\<close>

definition stateAfter :: "'a action \<Rightarrow> world \<Rightarrow> world" where
  "stateAfter m w = snd (m w)"

fun handle :: "env \<Rightarrow> jsstring \<Rightarrow> request \<Rightarrow> world \<Rightarrow> world" where
  "handle E sid GetGoogleStart = stateAfter (googleStart E sid)"
| "handle E sid (GetGoogleCallback code state) = stateAfter (googleCallback E sid code state)"
| "handle E sid (PostMasterPasswordSetup password) = stateAfter (setupRoute E sid password)"
| "handle E sid (PostMasterPasswordChange cur new) = stateAfter (changeRoute E sid cur new)"
| "handle E sid (PostUnlock password) = stateAfter (unlockRoute E sid password)"
| "handle E sid PostLock = stateAfter (lockRoute sid)"
| "handle E sid PostLogout = stateAfter (logoutRoute sid)"
| "handle E sid GetMe = stateAfter (meRoute sid)"
| "handle E sid GetSettings = stateAfter (settingsRoute sid)"
| "handle E sid (PostAutoLockMinutes v) = stateAfter (updateAutoLockMinutesRoute sid v)"
| "handle E sid GetWebauthnDevices = stateAfter (webauthnDevices sid)"
| "handle E sid PostWebauthnRegisterOptions = stateAfter (webauthnRegisterOptions E sid)"
| "handle E sid (PostWebauthnRegister label response) = stateAfter (webauthnRegister E sid label response)"
| "handle E sid PostWebauthnAuthenticateOptions = stateAfter (webauthnAuthenticateOptions E sid)"
| "handle E sid (PostWebauthnAuthenticate response password) = stateAfter (webauthnAuthenticate E sid response password)"
| "handle E sid (DeleteWebauthnDevice i) = stateAfter (webauthnRemove sid i)"
| "handle E sid (GetAccounts category q) = stateAfter (accountsFindAllRoute E sid category q)"
| "handle E sid (GetAccount i) = stateAfter (accountsFindOneRoute E sid i)"
| "handle E sid (PostAccount body) = stateAfter (accountsCreateRoute E sid body)"
| "handle E sid (PostGeneratePassword options) = stateAfter (generatePasswordRoute E sid options)"
| "handle E sid (PostExport password) = stateAfter (exportRoute E sid password)"
| "handle E sid (PostImport password backup) = stateAfter (importRoute E sid password backup)"
| "handle E sid (PutAccount i body) = stateAfter (accountsUpdateRoute E sid i body)"
| "handle E sid (DeleteAccount i) = stateAfter (accountsRemoveRoute sid i)"
| "handle E sid GetEmailAccounts = stateAfter (emailAccountsFindAllRoute sid)"
| "handle E sid GetEmailOAuthStart = stateAfter (oauthStart E sid)"
| "handle E sid (GetEmailOAuthCallback code state) = stateAfter (oauthCallback E sid code state)"
| "handle E sid (DeleteEmailAccount i) = stateAfter (emailAccountsRemoveRoute sid i)"
| "handle E sid (GetRules accountId) = stateAfter (rulesFindAllRoute sid accountId)"
| "handle E sid (PostRule body) = stateAfter (rulesCreateRoute E sid body)"
| "handle E sid (PutRule i body) = stateAfter (rulesUpdateRoute E sid i body)"
| "handle E sid (DeleteRule i) = stateAfter (rulesRemoveRoute sid i)"
| "handle E sid GetCandidates = stateAfter (findPendingRoute sid)"
| "handle E sid PostScan = stateAfter (scanRoute E sid)"
| "handle E sid GetImportantSummary = stateAfter (importantSummaryRoute sid)"
| "handle E sid (PostApprove i) = stateAfter (approveRoute E sid i)"
| "handle E sid (PostExclude i) = stateAfter (excludeRoute sid i)"
| "handle E sid GetNotificationsSummary = stateAfter summaryRoute"

text \<open>The requests that can put a key into the store, and the one that changes a mailbox.\<close>

fun putsKey :: "request \<Rightarrow> bool" where
  "putsKey (PostMasterPasswordSetup _) = True"
| "putsKey (PostMasterPasswordChange _ _) = True"
| "putsKey (PostUnlock _) = True"
| "putsKey (PostWebauthnAuthenticate _ _) = True"
| "putsKey _ = False"

fun approves :: "request \<Rightarrow> bool" where
  "approves (PostApprove _) = True"
| "approves _ = False"

section \<open>Steps and reachable states\<close>

datatype event =
    Request jsstring request
  | TimePasses nat \<comment> \<open>milliseconds\<close>
  | ScheduledScan
  | Restart

inductive step :: "env \<Rightarrow> world \<Rightarrow> event \<Rightarrow> world \<Rightarrow> bool" for E where
  step_request: "step E w (Request sid req) (handle E sid req w)"
| step_time: "step E w (TimePasses ms) (w\<lparr>clock := clock w + int ms\<rparr>)"
| step_scan: "step E w ScheduledScan (stateAfter (handleScheduledScan E) w)"
| step_restart: "tokenKeyInit E = Inr key \<Longrightarrow> step E w Restart (w\<lparr>keyStore := Map.empty\<rparr>)"

inductive_simps step_simps [simp]:
  "step E w (Request sid req) w'" "step E w (TimePasses ms) w'" "step E w ScheduledScan w'" "step E w Restart w'"

inductive steps :: "env \<Rightarrow> world \<Rightarrow> event list \<Rightarrow> world \<Rightarrow> bool" for E where
  steps_refl: "steps E w [] w"
| steps_snoc: "steps E w evs v \<Longrightarrow> step E v ev w' \<Longrightarrow> steps E w (evs @ [ev]) w'"

inductive_cases steps_snocE: "steps E w (evs @ [ev]) w'"

definition reachable :: "env \<Rightarrow> world \<Rightarrow> bool" where
  "reachable E w \<longleftrightarrow> (\<exists>key evs. tokenKeyInit E = Inr key \<and> steps E initWorld evs w)"

section \<open>The invariant of the state\<close>

lemma preserves_stateAfter: "preserves I m \<Longrightarrow> I w \<Longrightarrow> I (stateAfter m w)"
  by (simp add: preserves_def stateAfter_def)

lemma worldInv_setupRoute [preserves_intros]: "preserves worldInv (setupRoute E sid password)"
  unfolding setupRoute_def by (intro preserves_intros)

lemma worldInv_handle: "worldInv w \<Longrightarrow> worldInv (handle E sid req w)"
proof (cases req)
qed (simp_all only: handle.simps, (erule preserves_stateAfter [of worldInv, rotated], rule preserves_intros)+)

lemma worldInv_step: "step E w ev w' \<Longrightarrow> worldInv w \<Longrightarrow> worldInv w'"
proof (induction rule: step.induct)
  case (step_request w sid req)
  then show ?case by (rule worldInv_handle)
next
  case (step_time w ms)
  then show ?case by (force simp: worldInv_def sessionsOk_def keyStoreOk_def)
next
  case (step_scan w)
  then show ?case by (rule preserves_stateAfter [of worldInv, rotated]) (rule preserves_intros)
next
  case (step_restart key w)
  then show ?case by (simp add: worldInv_def sessionsOk_def keyStoreOk_def)
qed

lemma worldInv_steps: "steps E w evs w' \<Longrightarrow> worldInv w \<Longrightarrow> worldInv w'"
  by (induction rule: steps.induct) (auto intro: worldInv_step)

section \<open>Assertions that the effects of a request keep\<close>

text \<open>What a session says about the login; the other fields serve a single exchange.\<close>

definition loginOf :: "session_data \<Rightarrow> jsstring option \<times> google_profile option \<times> bool" where
  "loginOf s = (s_userId s, s_pendingGoogle s, s_unlocked s)"

text \<open>
  The routes that go through a guard and then touch neither the login nor the key store: all but those
  for logging in, unlocking, locking and the lock time, and the status route.
\<close>

fun quiet :: "request \<Rightarrow> bool" where
  "quiet (GetGoogleCallback _ _) = False"
| "quiet (PostMasterPasswordSetup _) = False"
| "quiet (PostMasterPasswordChange _ _) = False"
| "quiet (PostUnlock _) = False"
| "quiet PostLock = False"
| "quiet PostLogout = False"
| "quiet GetMe = False"
| "quiet (PostAutoLockMinutes _) = False"
| "quiet (PostWebauthnAuthenticate _ _) = False"
| "quiet _ = True"

locale data_invariant =
  fixes I :: "world \<Rightarrow> bool" and sid :: jsstring
  assumes at_db: "I w \<Longrightarrow> I (w\<lparr>db := d\<rparr>)"
    and at_draws: "I w \<Longrightarrow> I (w\<lparr>draws := n\<rparr>)"
    and at_read: "reads g \<Longrightarrow> I w \<Longrightarrow> I (w\<lparr>gmailLog := gmailLog w @ [g]\<rparr>)"

locale call_invariant = data_invariant +
  assumes at_call: "I w \<Longrightarrow> I (w\<lparr>gmailLog := gmailLog w @ [g]\<rparr>)"

locale route_invariant = data_invariant +
  assumes at_flow: "loginOf s = loginOf (sessions w sid) \<Longrightarrow> I w \<Longrightarrow> I (w\<lparr>sessions := (sessions w)(sid := s)\<rparr>)"
    and unlocked_guard: "preserves I (unlockedGuard sid)"
begin

lemma dbWrite: "preserves I (dbWrite f)"
  by (auto simp: preserves_def run_dbWrite intro: at_db split: sum.split)

lemma dbWriteR: "preserves I (dbWriteR f)"
  by (auto simp: preserves_def run_dbWriteR intro: at_db split: sum.split)

lemma dbWriteAll: "preserves I (dbWriteAll f)"
  by (auto simp: preserves_def run_dbWriteAll intro: at_db split: prod.split)

lemma nextDraw: "preserves I nextDraw"
  by (simp add: preserves_def run_nextDraw at_draws)

lemma setFlow: "(\<And>s. loginOf (f s) = loginOf s) \<Longrightarrow> preserves I (setSession sid f)"
  by (simp add: preserves_def run_setSession at_flow)

lemma setExchange:
  "preserves I (setSession sid (\<lambda>s. s\<lparr>s_oauthState := a\<rparr>))" "preserves I (setSession sid (\<lambda>s. s\<lparr>s_gmailOAuthState := a\<rparr>))"
  "preserves I (setSession sid (\<lambda>s. s\<lparr>s_currentWebauthnChallenge := a\<rparr>))"
  by (simp_all add: setFlow loginOf_def)

lemma callGmail: "reads g \<Longrightarrow> preserves I (callGmail g f)"
  by (simp add: preserves_def run_callGmail at_read)

lemma transaction:
  assumes "preserves I m"
  shows "preserves I (transaction m)"
  using assms at_db by (fastforce simp: preserves_def run_transaction split: prod.split sum.split)

lemma freshId: "preserves I (freshId E)"
  unfolding freshId_def by (intro preserves_intros nextDraw)

lemma crypto:
  "preserves I (encrypt E p k)" "preserves I (generateKdfSalt E)" "preserves I (hashMasterPassword E p)"
  unfolding generateKdfSalt_def hashMasterPassword_def
  by (simp_all add: preserves_def run_encrypt at_draws act_simps)

lemmas effects = dbWrite dbWriteR dbWriteAll nextDraw setExchange callGmail transaction freshId crypto

lemma login_guard: "preserves I (loggedInGuard sid)"
  by (simp add: preserves_def run_loggedInGuard)

lemmas guards = login_guard unlocked_guard

lemma auth_routes: "preserves I (googleStart E sid)" "preserves I (settingsRoute sid)"
  unfolding googleStart_def createGoogleAuthUrl_def generateState_def settingsRoute_def getSettings_def
  by (intro preserves_intros effects guards)+

lemma takeChallenge: "preserves I (takeChallenge sid m)"
  unfolding takeChallenge_def by (intro preserves_intros effects)

lemma verifyAuthentication: "preserves I (verifyAuthentication E ch response)"
  unfolding verifyAuthentication_def Let_def by (intro preserves_intros effects)

lemma device_routes:
  "preserves I (webauthnDevices sid)" "preserves I (webauthnRegisterOptions E sid)"
  "preserves I (webauthnRegister E sid label r)" "preserves I (webauthnAuthenticateOptions E sid)"
  "preserves I (webauthnRemove sid i)"
  unfolding webauthnDevices_def listDevices_def webauthnRegisterOptions_def createRegistrationOptions_def
    webauthnRegister_def verifyRegistration_def webauthnAuthenticateOptions_def createAuthenticationOptions_def
    webauthnRemove_def removeDevice_def Let_def
  by (intro preserves_intros effects guards takeChallenge)+

lemma vault_steps:
  "preserves I (encryptValue E v k)" "preserves I (generatePassword E options)"
  unfolding encryptValue_def
  by (intro preserves_intros effects preserves_generatePassword)+

lemma vault_writes:
  "preserves I (insertAccount E userId data c)" "preserves I (accountsCreate E userId k data)"
  "preserves I (accountsUpdate E userId i k data)" "preserves I (importAccounts E userId k pw backup)"
  unfolding insertAccount_def accountsCreate_def accountsUpdate_def importAccounts_def importEntry_def Let_def
  by (intro preserves_intros effects vault_steps)+

lemma vault_routes:
  "preserves I (accountsFindAllRoute E sid category q)" "preserves I (accountsFindOneRoute E sid i)"
  "preserves I (accountsCreateRoute E sid body)" "preserves I (generatePasswordRoute E sid options)"
  "preserves I (exportRoute E sid pw)" "preserves I (importRoute E sid pw backup)"
  "preserves I (accountsUpdateRoute E sid i body)" "preserves I (accountsRemoveRoute sid i)"
  unfolding accountsFindAllRoute_def accountsFindOneRoute_def accountsCreateRoute_def generatePasswordRoute_def
    exportRoute_def exportAccounts_def importRoute_def accountsUpdateRoute_def accountsRemoveRoute_def
    accountsFindAll_def accountsFindOne_def accountsRemove_def
  by (intro preserves_intros effects guards vault_steps vault_writes)+

lemma authorizedClient: "preserves I (getAuthorizedClient E i)"
  unfolding getAuthorizedClient_def Let_def by (intro preserves_intros effects)

lemma listCandidateMessages: "preserves I (listCandidateMessages E i)"
  unfolding listCandidateMessages_def fetchMessage_def Let_def
  by (intro preserves_intros effects authorizedClient) simp_all

lemma mailbox_routes:
  "preserves I (emailAccountsFindAllRoute sid)" "preserves I (oauthStart E sid)"
  "preserves I (oauthCallback E sid code state)" "preserves I (emailAccountsRemoveRoute sid i)"
  unfolding emailAccountsFindAllRoute_def emailAccountsFindAll_def oauthStart_def gmailGenerateState_def
    oauthCallback_def connectGmail_def currentUserId_def exchangeCodeForTokens_def createFromGmail_def
    emailAccountsRemoveRoute_def emailAccountsRemove_def Let_def
  by (intro preserves_intros effects guards; simp; intro preserves_intros effects)+

lemma rule_routes:
  "preserves I (rulesFindAllRoute sid a)" "preserves I (rulesCreateRoute E sid body)"
  "preserves I (rulesUpdateRoute E sid i body)" "preserves I (rulesRemoveRoute sid i)"
  unfolding rulesFindAllRoute_def rulesFindAll_def rulesCreateRoute_def rulesCreate_def rulesUpdateRoute_def
    rulesUpdate_def rulesRemoveRoute_def rulesRemove_def insertConditions_def insertCondition_def Let_def
  by (intro preserves_intros effects guards)+

lemma scanAccount: "preserves (onFirst I) (scanAccount E account u)"
  unfolding scanAccount_eq scanMessage_def scanRule_def insertCandidate_def
  by (intro preserves_intros effects listCandidateMessages)

lemma scanAccounts: "preserves I (scanAccounts E rows)"
proof (rule preservesI)
  fix w r w' assume w: "I w" and run: "scanAccounts E rows w = (r, w')"
  obtain x v c where x: "foldA (scanAccount E) rows () (w, noCounters) = (x, (v, c))"
    by (cases "foldA (scanAccount E) rows () (w, noCounters)") auto
  have "preserves (onFirst I) (foldA (scanAccount E) rows ())" by (intro preserves_intros scanAccount)
  from preservesD [OF this _ x] have "I v" using w by (simp add: onFirst_def)
  then show "I w'" using run x by (cases x) (auto simp: scanAccounts_def)
qed

lemma decide: "preserves I (decide i status)"
  unfolding decide_def by (intro preserves_intros effects)

lemma candidate_routes:
  "preserves I (findPendingRoute sid)" "preserves I (scanRoute E sid)" "preserves I (importantSummaryRoute sid)"
  "preserves I (excludeRoute sid i)" "preserves I summaryRoute" "preserves I (handleScheduledScan E)"
  unfolding findPendingRoute_def findPending_def scanRoute_def scan_def importantSummaryRoute_def
    importantSummary_def excludeRoute_def exclude_def summaryRoute_def notificationsSummary_def
    handleScheduledScan_def scanAll_def Let_def
  by (intro preserves_intros effects guards scanAccounts decide)+

lemmas routes = auth_routes device_routes vault_routes mailbox_routes rule_routes candidate_routes

lemma handle_keeps_quiet:
  assumes "quiet req" and "\<not> approves req" and "I w"
  shows "I (handle E sid req w)"
  using assms(1,2)
proof (cases req)
qed (simp_all only: handle.simps quiet.simps approves.simps simp_thms,
     (rule preserves_stateAfter [of I, OF _ assms(3)], rule routes)+)

end

text \<open>With the calls that change a mailbox, the approval joins them.\<close>

locale approval_invariant = route_invariant I sid + call_invariant I sid for I sid
begin

lemma callAny: "preserves I (callGmail g f)"
  by (simp add: preserves_def run_callGmail at_call)

lemma applyAction: "preserves I (applyAction E a m action)"
  unfolding applyAction_def by (cases action; simp; intro preserves_intros authorizedClient callAny)

lemma approve: "preserves I (approve E userId i)"
proof (rule preservesI)
  fix w r w' assume w: "I w" and run: "approve E userId i w = (r, w')"
  have dec: "I v'" if "I v" "decide i APPROVED v = (x, v')" for v x v'
    using that by (rule preservesD [OF decide])
  have app: "I v" if "applyAction E a m k w = (x, v)" for a m k x v
    using w that by (rule preservesD [OF applyAction])
  show "I w'" using run w
    by (auto simp: run_approve split: option.splits prod.splits if_splits sum.splits intro: dec app dec [OF app])
qed

lemma approve_route: "preserves I (approveRoute E sid i)"
  unfolding approveRoute_def by (intro preserves_intros guards approve)

lemma handle_keeps_approving:
  assumes "quiet req" and "I w"
  shows "I (handle E sid req w)"
proof (cases "approves req")
  case True
  then show ?thesis by (cases req) (simp_all add: preserves_stateAfter [of I, OF approve_route assms(2)])
next
  case False
  show ?thesis using assms(1) False assms(2) by (rule handle_keeps_quiet)
qed

end

text \<open>An assertion that every change of the session and of its key keeps, but for a new key.\<close>

locale effect_invariant = data_invariant +
  assumes at_session: "I w \<Longrightarrow> I (w\<lparr>sessions := (sessions w)(sid := s)\<rparr>)"
    and at_touch: "I w \<Longrightarrow> I (w\<lparr>keyStore := snd (storeTouch sid t (keyStore w))\<rparr>)"
    and at_update: "I w \<Longrightarrow> I (w\<lparr>keyStore := storeUpdateAutoLockMinutes sid m (keyStore w)\<rparr>)"
    and at_delete: "I w \<Longrightarrow> I (w\<lparr>keyStore := storeDelete sid (keyStore w)\<rparr>)"
begin

lemma anySession: "preserves I (setSession sid f)"
  by (simp add: preserves_def run_setSession at_session)

lemma keyTouch: "preserves I (keyTouch sid)"
  using at_touch by (auto simp: preserves_def run_keyTouch split_beta)

lemma keyUpdateAutoLockMinutes: "preserves I (keyUpdateAutoLockMinutes sid m)"
  by (simp add: preserves_def run_keyUpdateAutoLockMinutes at_update)

lemma keyDelete: "preserves I (keyDelete sid)"
  by (simp add: preserves_def run_keyDelete at_delete)

lemmas key_effects = anySession keyTouch keyUpdateAutoLockMinutes keyDelete

lemma guard_keeps: "preserves I (unlockedGuard sid)"
proof -
  have "preserves I (loggedInGuard sid)" by (simp add: preserves_def run_loggedInGuard)
  then show ?thesis
    unfolding unlockedGuard_def by (intro preserves_intros key_effects) (auto split: bool.split option.split
      intro!: preserves_intros key_effects)
qed

end

sublocale effect_invariant \<subseteq> route_invariant I sid
  by unfold_locales (assumption | rule at_session guard_keeps)+

context effect_invariant
begin

lemma session_routes:
  "preserves I (googleCallback E sid code state)"
  "preserves I (lockRoute sid)" "preserves I (logoutRoute sid)" "preserves I (meRoute sid)"
  "preserves I (updateAutoLockMinutesRoute sid v)"
  unfolding googleCallback_def handleGoogleCallback_def lockRoute_def lock_def logoutRoute_def logout_def
    meRoute_def checkStillUnlocked_def updateAutoLockMinutesRoute_def updateAutoLockMinutes_def
  by (intro preserves_intros effects key_effects guards)+

lemma handle_keeps:
  assumes "\<not> putsKey req" and "\<not> approves req" and "I w"
  shows "I (handle E sid req w)"
proof (cases "quiet req")
  case True
  then show ?thesis using assms(2,3) by (rule handle_keeps_quiet)
next
  case False
  then show ?thesis using assms(1)
    by (cases req) (simp_all only: handle.simps putsKey.simps quiet.simps simp_thms,
      (rule preserves_stateAfter [of I, OF _ assms(3)], rule session_routes)+)
qed

end

text \<open>With the effect that puts a key into the store, the routes that log in or unlock join them.\<close>

locale key_invariant = effect_invariant +
  assumes at_set: "I w \<Longrightarrow> I (w\<lparr>keyStore := storeSet sid key m t (keyStore w)\<rparr>)"
begin

lemma keySet: "preserves I (keySet sid key m)"
  by (simp add: preserves_def run_keySet at_set)

lemma unlock: "preserves I (Auth.unlock E sid userId password)"
  unfolding unlock_def by (intro preserves_intros effects key_effects keySet)

lemma key_routes:
  "preserves I (setupRoute E sid password)" "preserves I (unlockRoute E sid password)"
  "preserves I (changeRoute E sid cur new)" "preserves I (webauthnAuthenticate E sid response password)"
  unfolding setupRoute_def setupMasterPassword_def insertUser_def unlockRoute_def changeRoute_def
    changeMasterPassword_def reencryptAccount_def webauthnAuthenticate_def Let_def
  by (intro preserves_intros effects key_effects guards keySet unlock takeChallenge verifyAuthentication)+

lemma handle_keeps_key:
  assumes "\<not> approves req" and "I w"
  shows "I (handle E sid req w)"
proof (cases "putsKey req")
  case True
  then show ?thesis
    by (cases req) (simp_all only: handle.simps putsKey.simps,
      (rule preserves_stateAfter [of I, OF _ assms(2)], rule key_routes)+)
next
  case False
  then show ?thesis using assms by (rule handle_keeps)
qed

end

locale mailbox_invariant = effect_invariant I sid + call_invariant I sid for I sid

sublocale mailbox_invariant \<subseteq> approval_invariant I sid
  by unfold_locales

context mailbox_invariant
begin

lemma handle_keeps_approve:
  assumes "\<not> putsKey req" and "I w"
  shows "I (handle E sid req w)"
proof (cases "approves req")
  case True
  then have "quiet req" by (cases req) simp_all
  then show ?thesis using assms(2) by (rule handle_keeps_approving)
next
  case False
  show ?thesis using assms(1) False assms(2) by (rule handle_keeps)
qed

end

end
