(* ===== verification/CandidatesProperties.thy ===== *)
theory CandidatesProperties
  imports Scanning
begin

text \<open>
  What the scan finds, and what deciding about a candidate does to the waiting list and to the
  mailbox.
\<close>

section \<open>The pairs a scan goes through\<close>

definition candidateKey :: "candidate_row \<Rightarrow> jsstring \<times> jsstring" where
  "candidateKey c = (ca_ruleId c, ca_externalMessageId c)"

definition freshCandidates :: "env \<Rightarrow> world \<Rightarrow> bool" where
  "freshCandidates E w \<longleftrightarrow>
     inj (uuid E) \<and> (\<forall>n \<ge> draws w. \<forall>c \<in> set (emailCandidates (db w)). ca_id c \<noteq> uuid E n)"

definition scanPair :: "env \<Rightarrow> jsstring \<Rightarrow> raw_mail_message \<times> rule_with_conditions \<Rightarrow> unit \<Rightarrow> unit scanning" where
  "scanPair E a p _ = scanRule E a (fst p) (snd p)"

lemma foldA_append: "foldA f (xs @ ys) b = bindA (foldA f xs b) (foldA f ys)"
proof (induction xs arbitrary: b)
  case Nil
  show ?case by (rule ext) (simp add: act_simps)
next
  case (Cons x xs)
  show ?case by (rule ext) (simp add: Cons.IH run_bindA split: prod.split sum.split)
qed

lemma foldA_scanPair: "foldA (scanPair E a) (map (Pair m) rules) = foldA (\<lambda>rule _. scanRule E a m rule) rules"
proof (induction rules)
  case Nil
  show ?case by (simp add: fun_eq_iff)
next
  case (Cons r rules)
  show ?case
  proof (rule ext)
    fix u
    show "foldA (scanPair E a) (map (Pair m) (r # rules)) u = foldA (\<lambda>rule _. scanRule E a m rule) (r # rules) u"
      unfolding list.map foldA.simps Cons.IH by (simp add: scanPair_def)
  qed
qed

lemma foldA_scanMessage: "foldA (scanMessage E a rules) messages = foldA (scanPair E a) (List.product messages rules)"
proof (induction messages)
  case Nil
  show ?case by (simp add: fun_eq_iff)
next
  case (Cons m messages)
  show ?case
  proof (rule ext)
    fix u :: unit
    show "foldA (scanMessage E a rules) (m # messages) u = foldA (scanPair E a) (List.product (m # messages) rules) u"
      unfolding product.simps foldA_append foldA_scanPair foldA.simps Cons.IH by (simp add: scanMessage_def)
  qed
qed

text \<open>A pair is sound when its message has a date, its rule exists and the matcher does not throw.\<close>

definition soundPair :: "env \<Rightarrow> database \<Rightarrow> raw_mail_message \<times> rule_with_conditions \<Rightarrow> bool" where
  "soundPair E d p \<longleftrightarrow>
     rm_receivedAt (fst p) \<noteq> None \<and> (\<exists>b. messageMatchesRule E (fst p) (snd p) = Inr b) \<and>
     ru_id (rc_rule (snd p)) \<in> ru_id ` set (emailRules d)"

definition pairKey :: "raw_mail_message \<times> rule_with_conditions \<Rightarrow> jsstring \<times> jsstring" where
  "pairKey p = (ru_id (rc_rule (snd p)), rm_externalMessageId (fst p))"

lemma run_scanPair:
  assumes "soundPair E (db w) p" and "freshCandidates E w" and "a \<in> em_id ` set (emailAccounts (db w))"
  shows "\<exists>new n. scanPair E a p () (w, c) =
      (Inr (), (w\<lparr>draws := n, db := (db w)\<lparr>emailCandidates := emailCandidates (db w) @ new\<rparr>\<rparr>,
                c\<lparr>createdCandidates := createdCandidates c + length new\<rparr>)) \<and>
    list_all (\<lambda>x. ca_status x = PENDING \<and> ca_emailAccountId x = a) new \<and>
    map candidateKey new = (if messageMatchesRule E (fst p) (snd p) = Inr True \<and>
        pairKey p \<notin> candidateKey ` set (emailCandidates (db w)) then [pairKey p] else []) \<and>
    (\<forall>x \<in> set new. ca_id x = uuid E (draws w)) \<and> draws w \<le> n \<and> (new \<noteq> [] \<longrightarrow> draws w < n)"
proof -
  obtain m rule where p: "p = (m, rule)" by (cases p)
  obtain t b where t: "rm_receivedAt m = Some t" and b: "messageMatchesRule E m rule = Inr b"
    using assms(1) p by (auto simp: soundPair_def)
  let ?row = "\<lparr>ca_id = uuid E (draws w), ca_ruleId = ru_id (rc_rule rule), ca_emailAccountId = a,
             ca_externalMessageId = rm_externalMessageId m, ca_sender = rm_sender m, ca_subject = rm_subject m,
             ca_receivedAt = t, ca_status = PENDING, ca_processedAt = None\<rparr>"
  have clash: "(\<exists>x \<in> set (emailCandidates (db w)). candidate_clash x ?row) \<longleftrightarrow>
      pairKey p \<in> candidateKey ` set (emailCandidates (db w))"
  proof -
    have "candidate_clash x ?row \<longleftrightarrow> candidateKey x = pairKey p" if "x \<in> set (emailCandidates (db w))" for x
      using that assms(2) by (auto simp: freshCandidates_def p candidate_clash_def pairKey_def candidateKey_def)
    then show ?thesis unfolding image_iff by (intro bex_cong refl) (simp add: eq_commute)
  qed
  have create: "createCandidate ?row (db w) =
      (if pairKey p \<in> candidateKey ` set (emailCandidates (db w)) then Inl P2002
       else Inr ((db w)\<lparr>emailCandidates := emailCandidates (db w) @ [?row]\<rparr>))"
    using assms(1,3) clash by (simp add: createCandidate_def createRow_def soundPair_def p)
  have same: "w\<lparr>draws := n, db := (db w)\<lparr>emailCandidates := emailCandidates (db w)\<rparr>\<rparr> = w\<lparr>draws := n\<rparr>" for n
    by simp
  show ?thesis
  proof (cases "b \<and> pairKey p \<notin> candidateKey ` set (emailCandidates (db w))")
    case True
    then have "scanPair E a p () (w, c) =
        (Inr (), (w\<lparr>draws := Suc (draws w), db := (db w)\<lparr>emailCandidates := emailCandidates (db w) @ [?row]\<rparr>\<rparr>,
          c\<lparr>createdCandidates := createdCandidates c + 1\<rparr>))"
      using b t create by (simp add: scanPair_def scanRule_def p act_simps run_insertCandidate)
    then show ?thesis using True b
      by (intro exI [of _ "[?row]"] exI [of _ "Suc (draws w)"]) (simp add: p candidateKey_def pairKey_def)
  next
    case False
    then have "\<exists>n. scanPair E a p () (w, c) = (Inr (), (w\<lparr>draws := n\<rparr>, c)) \<and> draws w \<le> n"
      using b t create
      by (cases b) (auto simp: scanPair_def scanRule_def p act_simps run_insertCandidate intro: exI [of _ "draws w"] exI [of _ "Suc (draws w)"])
    then obtain n where "scanPair E a p () (w, c) = (Inr (), (w\<lparr>draws := n\<rparr>, c))" "draws w \<le> n" by blast
    then show ?thesis using False b
      by (intro exI [of _ "[]"] exI [of _ n]) (simp add: p)
  qed
qed

lemma run_scanPairs:
  assumes "\<forall>p \<in> set ps. soundPair E (db w) p" and "freshCandidates E w" and "a \<in> em_id ` set (emailAccounts (db w))"
  shows "\<exists>new n. foldA (scanPair E a) ps () (w, c) =
      (Inr (), (w\<lparr>draws := n, db := (db w)\<lparr>emailCandidates := emailCandidates (db w) @ new\<rparr>\<rparr>,
                c\<lparr>createdCandidates := createdCandidates c + length new\<rparr>)) \<and>
    list_all (\<lambda>x. ca_status x = PENDING \<and> ca_emailAccountId x = a) new \<and> distinct (map candidateKey new) \<and>
    candidateKey ` set new = pairKey ` {p \<in> set ps. messageMatchesRule E (fst p) (snd p) = Inr True} -
      candidateKey ` set (emailCandidates (db w))"
  using assms
proof (induction ps arbitrary: w c)
  case Nil
  show ?case by (intro exI [of _ "[]"] exI [of _ "draws w"]) (simp add: run_ret)
next
  case (Cons p ps)
  obtain new1 n1 where one: "scanPair E a p () (w, c) =
      (Inr (), (w\<lparr>draws := n1, db := (db w)\<lparr>emailCandidates := emailCandidates (db w) @ new1\<rparr>\<rparr>,
                c\<lparr>createdCandidates := createdCandidates c + length new1\<rparr>))"
    and pending: "list_all (\<lambda>x. ca_status x = PENDING \<and> ca_emailAccountId x = a) new1"
    and keys: "map candidateKey new1 = (if messageMatchesRule E (fst p) (snd p) = Inr True \<and>
        pairKey p \<notin> candidateKey ` set (emailCandidates (db w)) then [pairKey p] else [])"
    and ids: "\<forall>x \<in> set new1. ca_id x = uuid E (draws w)" "draws w \<le> n1" "new1 \<noteq> [] \<longrightarrow> draws w < n1"
    using run_scanPair [of E w p a c] Cons.prems by auto
  let ?w = "w\<lparr>draws := n1, db := (db w)\<lparr>emailCandidates := emailCandidates (db w) @ new1\<rparr>\<rparr>"
  have "ca_id x \<noteq> uuid E k" if "x \<in> set new1" "n1 \<le> k" for x k
  proof -
    have "draws w < k" using that ids(3) by fastforce
    then show ?thesis using that(1) ids(1) Cons.prems(2) by (auto simp: freshCandidates_def dest: injD)
  qed
  then have "freshCandidates E ?w"
    using Cons.prems(2) ids(2) by (auto simp: freshCandidates_def)
  moreover have "\<forall>p \<in> set ps. soundPair E (db ?w) p" using Cons.prems(1) by (simp add: soundPair_def)
  ultimately obtain new n where rest: "foldA (scanPair E a) ps () (?w, c\<lparr>createdCandidates := createdCandidates c + length new1\<rparr>) =
      (Inr (), (?w\<lparr>draws := n, db := (db ?w)\<lparr>emailCandidates := emailCandidates (db ?w) @ new\<rparr>\<rparr>,
        c\<lparr>createdCandidates := createdCandidates c + length new1 + length new\<rparr>))"
    and new: "list_all (\<lambda>x. ca_status x = PENDING \<and> ca_emailAccountId x = a) new" "distinct (map candidateKey new)"
      "candidateKey ` set new = pairKey ` {p \<in> set ps. messageMatchesRule E (fst p) (snd p) = Inr True} -
        candidateKey ` set (emailCandidates (db w) @ new1)"
    using Cons.IH [of ?w "c\<lparr>createdCandidates := createdCandidates c + length new1\<rparr>"] Cons.prems(3) by auto
  have set1: "candidateKey ` set new1 = (if messageMatchesRule E (fst p) (snd p) = Inr True \<and>
        pairKey p \<notin> candidateKey ` set (emailCandidates (db w)) then {pairKey p} else {})"
    using arg_cong [OF keys, of set] by simp
  have "distinct (map candidateKey new1)" by (simp add: keys)
  moreover have "candidateKey ` set new1 \<inter> candidateKey ` set new = {}" using new(3) by auto
  ultimately have "distinct (map candidateKey (new1 @ new))" using new(2) by simp
  moreover have "candidateKey ` set (new1 @ new) =
      pairKey ` {q \<in> set (p # ps). messageMatchesRule E (fst q) (snd q) = Inr True} -
        candidateKey ` set (emailCandidates (db w))"
  proof -
    have all: "pairKey ` {q \<in> set (p # ps). messageMatchesRule E (fst q) (snd q) = Inr True} =
        (if messageMatchesRule E (fst p) (snd p) = Inr True then {pairKey p} else {}) \<union>
        pairKey ` {q \<in> set ps. messageMatchesRule E (fst q) (snd q) = Inr True}" by auto
    have "(if b \<and> k \<notin> K then {k} else {}) \<union> (A - (K \<union> (if b \<and> k \<notin> K then {k} else {}))) =
        (if b then {k} else {}) \<union> A - K" for b and k :: "jsstring \<times> jsstring" and K A
      by auto
    then show ?thesis unfolding set_append image_Un new(3) set1 all by simp
  qed
  ultimately show ?case
    using one rest pending new(1)
    by (intro exI [of _ "new1 @ new"] exI [of _ n]) (simp add: run_bindA)
qed

section \<open>Properties of the scan\<close>

text \<open>
  a scan cannot fail, and it only adds. Whatever the providers, the rules and the database
  answer, it returns its counters; the candidates there were stay as they are, behind them come as
  many new ones as it reports, all pending; of everything else only cached access tokens may differ,
  and no call it makes changes a mailbox.
\<close>

theorem scan_only_adds:
  "\<exists>c w' new. scanAccounts E rows w = (Inr c, w') \<and>
     emailCandidates (db w') = emailCandidates (db w) @ new \<and> length new = createdCandidates c \<and>
     list_all (\<lambda>x. ca_status x = PENDING) new \<and>
     mailboxChanges (gmailLog w') = mailboxChanges (gmailLog w) \<and>
     onlyTokens w (w'\<lparr>db := (db w')\<lparr>emailCandidates := emailCandidates (db w)\<rparr>\<rparr>)"
proof -
  obtain w' c where run: "foldA (scanAccount E) rows () (w, noCounters) = (Inr (), (w', c))"
    using foldA_scanAccount_returns [of E rows "(w, noCounters)"] by auto
  have start: "grown w 0 (w, noCounters)" using grown_start [of w noCounters] by (simp add: noCounters_def)
  have "preserves (grown w 0) (foldA (scanAccount E) rows ())" by (intro preserves_intros)
  from preservesD [OF this start run] have "grown w 0 (w', c)" .
  moreover have "scanAccounts E rows w = (Inr c, w')" using run by (simp add: scanAccounts_def)
  ultimately show ?thesis by (auto simp: grown_def sameMailbox_def)
qed

text \<open>
  C9: the scan of a mail account finds exactly what the rules mean. When its mailbox can be listed,
  every message has a date and no rule throws on one, the new candidates are pending, belong to the
  account, and there is exactly one for each pair of an active rule of the account and a message
  that matches it and is not a candidate of that rule yet. A message handled in an earlier scan
  never becomes a candidate of the same rule again.
\<close>

theorem scan_account_exact:
  assumes "worldInv w" and "account \<in> set (emailAccounts (db w))" and "em_providerType account = js ''gmail''"
    and "activeRules (em_id account) (db w) \<noteq> []"
    and "listCandidateMessages E (em_id account) w = (Inr messages, w1)" and "freshCandidates E w1"
    and "\<forall>m \<in> set messages. rm_receivedAt m \<noteq> None \<and>
      (\<forall>rule \<in> set (activeRules (em_id account) (db w)). \<exists>b. messageMatchesRule E m rule = Inr b)"
  shows "\<exists>new n. scanAccount E account () (w, c) =
      (Inr (), (w1\<lparr>draws := n, db := (db w1)\<lparr>emailCandidates := emailCandidates (db w) @ new\<rparr>\<rparr>,
         c\<lparr>scannedAccounts := scannedAccounts c + 1, createdCandidates := createdCandidates c + length new\<rparr>)) \<and>
    list_all (\<lambda>x. ca_status x = PENDING \<and> ca_emailAccountId x = em_id account) new \<and>
    distinct (map candidateKey new) \<and>
    candidateKey ` set new =
      {(ru_id (rc_rule rule), rm_externalMessageId m) | m rule. m \<in> set messages \<and>
         rule \<in> set (activeRules (em_id account) (db w)) \<and> messageMatchesRule E m rule = Inr True} -
      candidateKey ` set (emailCandidates (db w))"
proof -
  let ?a = "em_id account"
  let ?rules = "activeRules ?a (db w)"
  let ?ps = "List.product messages ?rules"
  let ?c = "c\<lparr>scannedAccounts := scannedAccounts c + 1\<rparr>"
  have tokens: "sameButTokens (db w) (db w1)" by (rule gmail.list_database [OF assms(5)])
  then have old: "emailCandidates (db w1) = emailCandidates (db w)" and rules: "emailRules (db w1) = emailRules (db w)"
    by (simp_all add: sameButTokens_def)
  have "set (map em_id (emailAccounts (db w1))) = set (map em_id (emailAccounts (db w)))"
    using sameButTokens_ids(1) [OF tokens] by (rule arg_cong)
  then have a: "?a \<in> em_id ` set (emailAccounts (db w1))" using assms(2) by simp
  have sound: "\<forall>p \<in> set ?ps. soundPair E (db w1) p"
    using assms(7) by (auto simp: soundPair_def rules activeRules_def withConditions_def)
  obtain new n where loop: "foldA (scanPair E ?a) ?ps () (w1, ?c) =
      (Inr (), (w1\<lparr>draws := n, db := (db w1)\<lparr>emailCandidates := emailCandidates (db w1) @ new\<rparr>\<rparr>,
                ?c\<lparr>createdCandidates := createdCandidates ?c + length new\<rparr>))"
    and new: "list_all (\<lambda>x. ca_status x = PENDING \<and> ca_emailAccountId x = ?a) new" "distinct (map candidateKey new)"
      "candidateKey ` set new = pairKey ` {p \<in> set ?ps. messageMatchesRule E (fst p) (snd p) = Inr True} -
        candidateKey ` set (emailCandidates (db w1))"
    using run_scanPairs [OF sound assms(6) a, of ?c] by (elim exE conjE) (rule that)
  have "scanAccount E account () (w, c) =
      (Inr (), (w1\<lparr>draws := n, db := (db w1)\<lparr>emailCandidates := emailCandidates (db w) @ new\<rparr>\<rparr>,
         c\<lparr>scannedAccounts := scannedAccounts c + 1, createdCandidates := createdCandidates c + length new\<rparr>))"
    using assms(3-5) loop by (simp add: scanAccount_eq act_simps foldA_scanMessage old)
  moreover have "pairKey ` {p \<in> set ?ps. messageMatchesRule E (fst p) (snd p) = Inr True} =
      {(ru_id (rc_rule rule), rm_externalMessageId m) | m rule. m \<in> set messages \<and> rule \<in> set ?rules \<and>
         messageMatchesRule E m rule = Inr True}"
    by (auto simp: pairKey_def image_iff; blast)
  ultimately show ?thesis using new unfolding old by (intro exI [of _ new] exI [of _ n]) simp
qed


section \<open>Properties of the decision\<close>

lemma mailboxChanges_keeps:
  assumes "\<And>l. preserves (sameMailbox l) m" and "m w = (r, w')"
  shows "mailboxChanges (gmailLog w') = mailboxChanges (gmailLog w)"
  using preservesD [OF assms(1) _ assms(2), of "mailboxChanges (gmailLog w)"] by (simp add: sameMailbox_def)

lemma applyAction_calls:
  assumes "applyAction E a m action w = (Inr (), w')"
  shows "\<exists>auth. mailboxChanges (gmailLog w') = mailboxChanges (gmailLog w) @
    [case action of DeleteMail \<Rightarrow> TrashMessage auth m | SpamMail \<Rightarrow> ModifyMessage auth m [js ''SPAM'']]"
proof -
  obtain auth w1 where auth: "getAuthorizedClient E a w = (Inr auth, w1)"
    and rest: "(case action of
         DeleteMail \<Rightarrow> callGmail (TrashMessage auth m) (\<lambda>h. gmailTrash E h auth m)
       | SpamMail \<Rightarrow> callGmail (ModifyMessage auth m [js ''SPAM'']) (\<lambda>h. gmailModify E h auth m [js ''SPAM''])) w1 = (Inr (), w')"
    using assms unfolding applyAction_def by (rule bindA_InrE)
  have "mailboxChanges (gmailLog w1) = mailboxChanges (gmailLog w)"
    by (rule mailboxChanges_keeps [OF sameMailbox_getAuthorizedClient auth])
  then show ?thesis using rest
    by (cases action) (auto simp: run_callGmail mailboxChanges_def)
qed

lemma findOwned_D:
  assumes "findOwned userId i d = Some (c, rule, account)"
  shows "c \<in> set (emailCandidates d)" and "ca_id c = i" and "ownedAccount userId (ca_emailAccountId c) d"
    and "rule \<in> set (emailRules d)" and "ru_id rule = ca_ruleId c"
    and "account \<in> set (emailAccounts d)" and "em_id account = ca_emailAccountId c"
  using assms by (auto simp: findOwned_def ruleOf_def accountOf_def dest: find_Some_D split: option.splits)

lemma run_decide:
  assumes "okTable candidate_clash (emailCandidates (db w))" and "c \<in> set (emailCandidates (db w))" and "ca_id c = i"
  shows "decide i status w = (Inr (c\<lparr>ca_status := status, ca_processedAt := Some (clock w)\<rparr>),
    w\<lparr>db := (db w)\<lparr>emailCandidates := map (\<lambda>x. if ca_id x = i
        then x\<lparr>ca_status := status, ca_processedAt := Some (clock w)\<rparr> else x) (emailCandidates (db w))\<rparr>\<rparr>)"
proof -
  have "find (\<lambda>x. ca_id x = i) (emailCandidates (db w)) = Some c"
    using candidate_table.ok_find [OF assms(1,2)] assms(3) by simp
  from candidate_table.update_keeping [OF assms(1) this,
      of "\<lambda>x. x\<lparr>ca_status := status, ca_processedAt := Some (clock w)\<rparr>"]
  show ?thesis by (simp add: decide_def act_simps updateCandidate_def candidate_clash_def)
qed

lemma approve_result:
  assumes "dbInv (db w)" and "approve E userId i w = (r, w')"
  shows "case findOwned userId i (db w) of
      None \<Rightarrow> r = Inl (NotFoundException CandidateNotFound) \<and> w' = w
    | Some (c, rule, account) \<Rightarrow>
        (case r of
           Inl e \<Rightarrow> emailCandidates (db w') = emailCandidates (db w)
         | Inr row \<Rightarrow>
             row = c\<lparr>ca_status := APPROVED, ca_processedAt := Some (clock w)\<rparr> \<and>
             emailCandidates (db w') = map (\<lambda>x. if ca_id x = i
               then x\<lparr>ca_status := APPROVED, ca_processedAt := Some (clock w)\<rparr> else x) (emailCandidates (db w)) \<and>
             (\<exists>auth. mailboxChanges (gmailLog w') = mailboxChanges (gmailLog w) @
               (if ru_actionType rule = js ''delete_candidate'' then [TrashMessage auth (ca_externalMessageId c)]
                else if ru_actionType rule = js ''spam_candidate''
                then [ModifyMessage auth (ca_externalMessageId c) [js ''SPAM'']] else [])))"
proof (cases "findOwned userId i (db w)")
  case None
  then show ?thesis using assms(2) by (simp add: run_approve)
next
  case (Some x)
  obtain c rule account where x: "x = (c, rule, account)" by (cases x)
  note found = Some [unfolded x]
  note c = findOwned_D(1,2) [OF found]
  note ok = dbInv_tables(7) [OF assms(1)]
  let ?acts = "ru_actionType rule = js ''delete_candidate'' \<or> ru_actionType rule = js ''spam_candidate''"
  let ?k = "if ru_actionType rule = js ''delete_candidate'' then DeleteMail else SpamMail"
  show ?thesis
  proof (cases "?acts \<and> em_providerType account = js ''gmail''")
    case False
    then show ?thesis using assms(2) found run_decide [OF ok c]
      by (auto simp: run_approve split: if_splits)
  next
    case True
    obtain y w1 where y: "applyAction E (ca_emailAccountId c) (ca_externalMessageId c) ?k w = (y, w1)"
      by (cases "applyAction E (ca_emailAccountId c) (ca_externalMessageId c) ?k w")
    note kept = gmail.apply_candidates [OF y]
    show ?thesis
    proof (cases y)
      case (Inl e)
      then show ?thesis using assms(2) found True y kept(1) by (auto simp: run_approve)
    next
      case (Inr u)
      then obtain auth where calls: "mailboxChanges (gmailLog w1) = mailboxChanges (gmailLog w) @
          [case ?k of DeleteMail \<Rightarrow> TrashMessage auth (ca_externalMessageId c)
            | SpamMail \<Rightarrow> ModifyMessage auth (ca_externalMessageId c) [js ''SPAM'']]"
        using applyAction_calls y by fastforce
      have "(r, w') = decide i APPROVED w1" using assms(2) found True y Inr by (simp add: run_approve)
      then show ?thesis using found calls True c ok run_decide [of w1 c i APPROVED]
        by (auto simp: kept(1,5))
    qed
  qed
qed

text \<open>
  approving does to the mailbox what the rule says, once, and only then marks the candidate. A
  candidate of another user counts as not found. When the approval succeeds, the changes made to
  mailboxes are one move to the trash for a deleting rule, one label for a spam rule and none
  otherwise, each on the message of the candidate, and exactly this candidate is approved. When it
  fails, no candidate changes, so that it can be approved again.
\<close>

theorem approve_exact:
  assumes "dbInv (db w)" and "approve E userId i w = (r, w')"
  shows "case findOwned userId i (db w) of
      None \<Rightarrow> r = Inl (NotFoundException CandidateNotFound) \<and> w' = w
    | Some (c, rule, account) \<Rightarrow>
        (case r of
           Inl e \<Rightarrow> emailCandidates (db w') = emailCandidates (db w)
         | Inr row \<Rightarrow>
             row = c\<lparr>ca_status := APPROVED, ca_processedAt := Some (clock w)\<rparr> \<and>
             emailCandidates (db w') = map (\<lambda>x. if ca_id x = i
               then x\<lparr>ca_status := APPROVED, ca_processedAt := Some (clock w)\<rparr> else x) (emailCandidates (db w)) \<and>
             (\<exists>auth. mailboxChanges (gmailLog w') = mailboxChanges (gmailLog w) @
               (if ru_actionType rule = js ''delete_candidate'' then [TrashMessage auth (ca_externalMessageId c)]
                else if ru_actionType rule = js ''spam_candidate''
                then [ModifyMessage auth (ca_externalMessageId c) [js ''SPAM'']] else [])))"
  using assms by (rule approve_result)

end
