(* ===== verification/History.thy ===== *)
theory History
  imports Server CandidatesProperties
begin

text \<open>
  Where a key in the store comes from, and which calls change a mailbox. The three interpretations
  use the locales of \<open>Server\<close> on: the keys held stay within a given set, the changes of the mailboxes
  stay as they are, another session stays as it is. The lemmas then look at the five remaining
  routes.
\<close>

section \<open>Keys, mailboxes, other sessions\<close>

definition keysWithin :: "(jsstring \<times> byte list) set \<Rightarrow> world \<Rightarrow> bool" where
  "keysWithin K w \<longleftrightarrow> (\<forall>s e. keyStore w s = Some e \<longrightarrow> (s, ue_key e) \<in> K)"

definition heldKeys :: "world \<Rightarrow> (jsstring \<times> byte list) set" where
  "heldKeys w = {(s, ue_key e) | s e. keyStore w s = Some e}"

lemma keysWithin_held: "keysWithin (heldKeys w) w"
  by (auto simp: keysWithin_def heldKeys_def)

interpretation held: mailbox_invariant "keysWithin K" sid for K sid
  by unfold_locales
    (auto simp: keysWithin_def storeTouch_def storeUpdateAutoLockMinutes_def storeDelete_def Let_def
      split: option.splits if_splits)

interpretation mailbox: key_invariant "sameMailbox l" sid for l sid
  by unfold_locales (auto simp: sameMailbox_def mailboxChanges_def)

definition bystander :: "jsstring \<Rightarrow> jsstring \<Rightarrow> session_data \<Rightarrow> unlock_entry option \<Rightarrow> world \<Rightarrow> bool" where
  "bystander other sid s k w \<longleftrightarrow> (if other = sid then True else sessions w other = s \<and> keyStore w other = k)"

interpretation bystander: key_invariant "bystander other sid s k" sid for other sid s k
  by unfold_locales
    (auto simp: bystander_def storeTouch_def storeUpdateAutoLockMinutes_def storeDelete_def storeSet_def Let_def
      split: option.splits if_splits)

interpretation bystander_approves: mailbox_invariant "bystander other sid s k" sid for other sid s k
  by unfold_locales (simp add: bystander_def)

lemma bystander_handle:
  assumes "other \<noteq> sid"
  shows "sessions (handle E sid req w) other = sessions w other"
    and "keyStore (handle E sid req w) other = keyStore w other"
proof -
  let ?I = "bystander other sid (sessions w other) (keyStore w other)"
  have start: "?I w" by (simp add: bystander_def)
  have "?I (handle E sid req w)"
  proof (cases "approves req")
    case True
    then have "\<not> putsKey req" by (cases req) simp_all
    then show ?thesis using start by (rule bystander_approves.handle_keeps_approve)
  next
    case False
    then show ?thesis using start by (rule bystander.handle_keeps_key)
  qed
  then show "sessions (handle E sid req w) other = sessions w other"
    and "keyStore (handle E sid req w) other = keyStore w other"
    using assms by (simp_all add: bystander_def)
qed

section \<open>Where a key comes from\<close>

text \<open>\<open>opensWith E password sid w key\<close>: the password is the master password of the user of the
  session, and the key is the one derived from it.\<close>

definition opensWith :: "env \<Rightarrow> jsstring option \<Rightarrow> jsstring \<Rightarrow> world \<Rightarrow> byte list \<Rightarrow> bool" where
  "opensWith E password sid w key \<longleftrightarrow>
     (\<exists>p u. password = Some p \<and> u \<in> set (users (db w)) \<and> s_userId (sessions w sid) = Some (u_id u) \<and>
        argon2Verify E (u_masterPasswordHash u) p \<and> deriveKey E p (u_masterKdfSalt u) = Inr key)"

fun passwordOf :: "request \<Rightarrow> jsstring option" where
  "passwordOf (PostMasterPasswordSetup password) = password"
| "passwordOf (PostMasterPasswordChange _ new) = new"
| "passwordOf (PostUnlock password) = password"
| "passwordOf (PostWebauthnAuthenticate _ password) = password"
| "passwordOf _ = None"

text \<open>What holds of the key of a session after a request: it was there, or the password gave it.\<close>

definition keyFrom :: "env \<Rightarrow> jsstring option \<Rightarrow> jsstring \<Rightarrow> world \<Rightarrow> world \<Rightarrow> bool" where
  "keyFrom E password sid w w' \<longleftrightarrow>
     (\<forall>e. keyStore w' sid = Some e \<longrightarrow> (sid, ue_key e) \<in> heldKeys w \<or> opensWith E password sid w' (ue_key e))"

lemma keyFrom_within: "keysWithin (heldKeys w) w' \<Longrightarrow> keyFrom E p sid w w'"
  by (auto simp: keyFrom_def keysWithin_def)

lemma keyFrom_after:
  assumes "keysWithin (heldKeys w) v" and "keyFrom E p sid v w'"
  shows "keyFrom E p sid w w'"
  using assms by (fastforce simp: keyFrom_def keysWithin_def heldKeys_def)

lemma held_step: "preserves (keysWithin K) m \<Longrightarrow> m w = (r, v) \<Longrightarrow> keysWithin K w \<Longrightarrow> keysWithin K v"
  by (rule preservesD)

lemma keyFrom_unlock:
  assumes "unlock E sid userId password w = (r, w')" and "s_userId (sessions w sid) = Some userId"
  shows "keyFrom E password sid w w'"
  using assms
  by (auto simp: run_unlock keyFrom_def heldKeys_def opensWith_def storeSet_def
      dest!: findUser_D split: option.splits if_splits sum.splits)

lemma keyFrom_unlockRoute: "keyFrom E password sid w (stateAfter (unlockRoute E sid password) w)"
proof (cases "s_userId (sessions w sid)")
  case None
  then show ?thesis
    by (intro keyFrom_within) (simp add: stateAfter_def unlockRoute_def run_bindA run_loggedInGuard keysWithin_held)
next
  case (Some u)
  obtain r w' where run: "unlock E sid u password w = (r, w')" by (cases "unlock E sid u password w")
  show ?thesis using keyFrom_unlock [OF run Some] keyFrom_within [OF keysWithin_held] run Some
    by (simp add: stateAfter_def unlockRoute_def run_bindA run_loggedInGuard)
qed

lemma keyFrom_setupRoute:
  assumes "argon2Law E"
  shows "keyFrom E password sid w (stateAfter (setupRoute E sid password) w)"
proof (cases "truthy (s_userId (sessions w sid)) \<or> s_pendingGoogle (sessions w sid) = None \<or> tooShort password")
  case True
  then show ?thesis
    by (intro keyFrom_within) (simp add: stateAfter_def setupRoute_def setup_refused keysWithin_held)
next
  case False
  then obtain g p where g: "s_pendingGoogle (sessions w sid) = Some g" and p: "password = Some p" "8 \<le> length p"
    by (auto simp: tooShort_iff)
  have "argon2Verify E (argon2Hash E opts n p) p" for opts n using assms by (simp add: argon2Law_def)
  moreover have "users d' = users d @ [u]" if "createUser u d = Inr d'" for u d d'
    using that by (auto simp: createUser_def createRow_def split: sum.splits if_splits)
  ultimately show ?thesis using False p
    by (auto simp: stateAfter_def setupRoute_def run_setupMasterPassword [OF _ g] Let_def keyFrom_def heldKeys_def
        opensWith_def storeSet_def split: sum.split)
qed

lemma changeBody_user:
  assumes "changeBody E oldKey newKey rows userId hash salt w = (Inr n, w')"
  shows "\<exists>u \<in> set (users (db w')). u_id u = userId \<and> u_masterPasswordHash u = hash \<and> u_masterKdfSalt u = salt"
proof -
  obtain v d r where "updateUser userId (\<lambda>x. x\<lparr>u_masterPasswordHash := hash, u_masterKdfSalt := salt\<rparr>) (db v) = Inr (r, d)"
    and w': "w' = v\<lparr>db := snd (deleteDevicesOf userId d)\<rparr>"
    using assms by (auto simp: changeBody_def run_bindA run_dbWriteR run_dbWriteAll split: prod.splits sum.splits)
  then have "r \<in> set (users d) \<and> u_id r = userId \<and> u_masterPasswordHash r = hash \<and> u_masterKdfSalt r = salt"
    by (auto simp: updateUser_def split: sum.splits elim!: updateRow_Inr dest!: find_Some_D)
  then show ?thesis unfolding w' by (auto simp: deleteDevicesOf_def)
qed

lemma keyFrom_change:
  assumes "argon2Law E" and "changeMasterPassword E sid userId cur new w = (r, w')"
    and "s_userId (sessions w sid) = Some userId"
  shows "keyFrom E new sid w w'"
proof (cases r)
  case (Inl e)
  then have "w' = w\<lparr>draws := draws w'\<rparr>" using assms(2) by (intro changeMasterPassword_fails) simp
  then show ?thesis by (intro keyFrom_within) (metis held.at_draws keysWithin_held)
next
  case (Inr n)
  let ?w = "w\<lparr>draws := Suc (Suc (draws w))\<rparr>"
  obtain u p oldKey newKey rows salt w2 where "findUser userId (db w) = Some u" and p: "new = Some p" and key: "deriveKey E p salt = Inr newKey"
    and b: "changeBody E oldKey newKey rows userId (argon2Hash E ARGON2ID_OPTIONS (Suc (draws w)) p) salt ?w = (Inr n, w2)"
    and w': "w' = w2\<lparr>keyStore := storeSet sid newKey (u_autoLockMinutes u) (clock w2) (keyStore w2),
                 sessions := (sessions w2)(sid := (sessions w2 sid)\<lparr>s_unlocked := True\<rparr>)\<rparr>"
    by (rule changeMasterPassword_succeeds [OF assms(2) [unfolded Inr]])
  have "onlyDb ?w w2" by (rule preservesD [OF changeBody_onlyDb onlyDb_refl b])
  then have "s_userId (sessions w2 sid) = Some userId" using assms(3) by (simp add: onlyDb_def)
  moreover have "argon2Verify E (argon2Hash E opts m p) p" for opts m using assms(1) by (simp add: argon2Law_def)
  ultimately show ?thesis using changeBody_user [OF b] key
    by (auto simp: w' keyFrom_def opensWith_def storeSet_def p)
qed

text \<open>After the guard the key in the store is still one of those held before.\<close>

lemma keyFrom_changeRoute:
  assumes "argon2Law E"
  shows "keyFrom E new sid w (stateAfter (changeRoute E sid cur new) w)"
proof -
  obtain g v where g: "unlockedGuard sid w = (g, v)" by (cases "unlockedGuard sid w")
  have v: "keysWithin (heldKeys w) v" by (rule held_step [OF held.guards(2) g keysWithin_held])
  show ?thesis
  proof (cases g)
    case (Inl e)
    then show ?thesis using v by (intro keyFrom_within) (simp add: stateAfter_def changeRoute_def run_bindA g)
  next
    case (Inr x)
    obtain userId key where x: "x = (userId, key)" by (cases x)
    obtain r w' where run: "changeMasterPassword E sid userId cur new v = (r, w')"
      by (cases "changeMasterPassword E sid userId cur new v")
    have "s_userId (sessions v sid) = Some userId"
      using g Inr x by (cases "s_userId (sessions w sid)") (auto simp: run_unlockedGuard split: if_splits bool.splits option.splits)
    then have "keyFrom E new sid v w'" by (rule keyFrom_change [OF assms run])
    then show ?thesis using run by (simp add: stateAfter_def changeRoute_def run_bindA g Inr x keyFrom_after [OF v])
  qed
qed

lemma keyFrom_authenticate: "keyFrom E password sid w (stateAfter (webauthnAuthenticate E sid response password) w)"
proof -
  let ?prefix = "bindA (takeChallenge sid CallAuthenticateOptionsFirst) (\<lambda>ch. verifyAuthentication E ch response)"
  have "preserves (keysWithin (heldKeys w)) ?prefix"
    by (intro preserves_intros held.takeChallenge held.verifyAuthentication)
  moreover obtain g v where g: "?prefix w = (g, v)" by (cases "?prefix w")
  ultimately have v: "keysWithin (heldKeys w) v" using keysWithin_held by (rule held_step)
  have route: "webauthnAuthenticate E sid response password w =
      bindA ?prefix (\<lambda>device. bindA (setSession sid (\<lambda>s. s\<lparr>s_userId := Some (td_userId device)\<rparr>)) (\<lambda>_.
        unlock E sid (td_userId device) password)) w"
    by (simp add: webauthnAuthenticate_def run_bindA split: prod.split sum.split)
  show ?thesis
  proof (cases g)
    case (Inl e)
    then show ?thesis using v g by (intro keyFrom_within) (simp add: stateAfter_def route run_bindA)
  next
    case (Inr device)
    let ?v = "v\<lparr>sessions := (sessions v)(sid := (sessions v sid)\<lparr>s_userId := Some (td_userId device)\<rparr>)\<rparr>"
    obtain r w' where run: "unlock E sid (td_userId device) password ?v = (r, w')"
      by (cases "unlock E sid (td_userId device) password ?v")
    have "keyFrom E password sid ?v w'" by (rule keyFrom_unlock [OF run]) simp
    moreover have "keysWithin (heldKeys w) ?v" by (rule held.at_session [OF v])
    ultimately have "keyFrom E password sid w w'" by (rule keyFrom_after [rotated])
    then show ?thesis using g Inr run by (simp add: stateAfter_def route run_bindA run_setSession)
  qed
qed

lemma keyFrom_handle:
  assumes "argon2Law E"
  shows "keyFrom E (passwordOf req) sid w (handle E sid req w)"
proof (cases "putsKey req")
  case True
  then show ?thesis
    by (cases req) (simp_all add: keyFrom_setupRoute keyFrom_changeRoute assms keyFrom_unlockRoute keyFrom_authenticate)
next
  case False
  then show ?thesis by (intro keyFrom_within held.handle_keeps_approve keysWithin_held)
qed

section \<open>Keys and mailboxes along a run\<close>

text \<open>A request of the session among the events opened it with a password that gives the key.\<close>

definition opened :: "env \<Rightarrow> world \<Rightarrow> event list \<Rightarrow> jsstring \<Rightarrow> byte list \<Rightarrow> bool" where
  "opened E w evs sid key \<longleftrightarrow>
     (\<exists>before req after v. evs = before @ Request sid req # after \<and> steps E w before v \<and>
        opensWith E (passwordOf req) sid (handle E sid req v) key)"

lemma opened_append: "opened E w evs sid key \<Longrightarrow> opened E w (evs @ evs2) sid key"
  unfolding opened_def by (metis append.assoc append_Cons)

lemma opened_now:
  assumes "steps E w evs v" and "opensWith E (passwordOf req) sid (handle E sid req v) key"
  shows "opened E w (evs @ [Request sid req]) sid key"
  using assms unfolding opened_def by blast

lemma keys_opened:
  assumes "argon2Law E" and "steps E w0 evs w"
  shows "keyStore w sid = Some e \<Longrightarrow> (sid, ue_key e) \<in> heldKeys w0 \<or> opened E w0 evs sid (ue_key e)"
  using assms(2)
proof (induction arbitrary: e rule: steps.induct)
  case (steps_refl w)
  then show ?case by (auto simp: heldKeys_def)
next
  case (steps_snoc w evs v ev w')
  have before: "(sid, k) \<in> heldKeys w \<or> opened E w (evs @ [ev]) sid k" if "(sid, k) \<in> heldKeys v" for k
    using that steps_snoc.IH opened_append by (fastforce simp: heldKeys_def)
  show ?case
  proof (cases ev)
    case (Request s req)
    then have w': "w' = handle E s req v" using steps_snoc.hyps(2) by simp
    show ?thesis
    proof (cases "s = sid")
      case True
      then show ?thesis using keyFrom_handle [OF assms(1), of req sid v] steps_snoc.prems before
          opened_now [OF steps_snoc.hyps(1)] Request unfolding keyFrom_def w' by blast
    next
      case False
      then show ?thesis using steps_snoc.prems before bystander_handle(2) [of sid s E req v]
        by (auto simp: w' heldKeys_def)
    qed
  next
    case (TimePasses ms)
    then show ?thesis using steps_snoc.hyps(2) steps_snoc.prems before by (auto simp: heldKeys_def)
  next
    case ScheduledScan
    then have "keysWithin (heldKeys v) w'" using steps_snoc.hyps(2) keysWithin_held
      by (auto intro: preserves_stateAfter [OF held.candidate_routes(6)])
    then show ?thesis using steps_snoc.prems before by (auto simp: keysWithin_def)
  next
    case Restart
    then show ?thesis using steps_snoc.hyps(2) steps_snoc.prems by simp
  qed
qed

text \<open>The approval of a candidate makes at most one changing call, on the message of the candidate.\<close>

lemma applyAction_change:
  assumes "applyAction E a m action w = (r, w')"
  shows "\<exists>auth. mailboxChanges (gmailLog w') = mailboxChanges (gmailLog w) \<or>
    mailboxChanges (gmailLog w') = mailboxChanges (gmailLog w) @
      [case action of DeleteMail \<Rightarrow> TrashMessage auth m | SpamMail \<Rightarrow> ModifyMessage auth m [js ''SPAM'']]"
proof -
  obtain g v where g: "getAuthorizedClient E a w = (g, v)" by (cases "getAuthorizedClient E a w")
  have "mailboxChanges (gmailLog v) = mailboxChanges (gmailLog w)"
    by (rule mailboxChanges_keeps [OF sameMailbox_getAuthorizedClient g])
  then show ?thesis using assms g
    by (cases g; cases action) (auto simp: applyAction_def run_bindA run_callGmail mailboxChanges_def)
qed

lemma approve_change:
  assumes "approve E userId i w = (r, w')" and "mailboxChanges (gmailLog w') \<noteq> mailboxChanges (gmailLog w)"
  shows "\<exists>c rule account auth. findOwned userId i (db w) = Some (c, rule, account) \<and>
    (ru_actionType rule = js ''delete_candidate'' \<and>
       mailboxChanges (gmailLog w') = mailboxChanges (gmailLog w) @ [TrashMessage auth (ca_externalMessageId c)] \<or>
     ru_actionType rule = js ''spam_candidate'' \<and>
       mailboxChanges (gmailLog w') = mailboxChanges (gmailLog w) @ [ModifyMessage auth (ca_externalMessageId c) [js ''SPAM'']])"
proof -
  have dec: "mailboxChanges (gmailLog v') = mailboxChanges (gmailLog v)" if "decide i APPROVED v = (x, v')" for v x v'
    by (rule mailboxChanges_keeps [OF mailbox.decide that])
  have app: "mailboxChanges (gmailLog v) = mailboxChanges (gmailLog w) \<or>
    (\<exists>auth. mailboxChanges (gmailLog v) = mailboxChanges (gmailLog w) @
      [case action of DeleteMail \<Rightarrow> TrashMessage auth m | SpamMail \<Rightarrow> ModifyMessage auth m [js ''SPAM'']])"
    if "applyAction E a m action w = (x, v)" for a m action x v
    using applyAction_change [OF that] by auto
  obtain c rule account where f: "findOwned userId i (db w) = Some (c, rule, account)"
    using assms by (cases "findOwned userId i (db w)") (auto simp: run_approve)
  obtain x v where v: "applyAction E (ca_emailAccountId c) (ca_externalMessageId c)
      (if ru_actionType rule = js ''delete_candidate'' then DeleteMail else SpamMail) w = (x, v)"
    by (cases "applyAction E (ca_emailAccountId c) (ca_externalMessageId c)
      (if ru_actionType rule = js ''delete_candidate'' then DeleteMail else SpamMail) w")
  show ?thesis using assms f v app [OF v]
    by (cases x) (auto simp: run_approve dest!: dec split: if_splits)
qed

end
