(* ===== verification/MailProperties.thy ===== *)
theory MailProperties
  imports CandidatesProperties
begin

text \<open>
  The other guarantees of the mail side: what the lists and summaries show, how an exclusion and the
  refresh of a token work, and the witnesses of the scan and the decision.
\<close>

section \<open>Deciding and listing\<close>

text \<open>
  excluding a candidate of one's own marks exactly this one, calls no mail service and leaves
  everything else alone; a candidate of another user counts as not found.
\<close>

theorem exclude_exact:
  assumes "dbInv (db w)"
  shows "exclude userId i w = (case findOwned userId i (db w) of
      None \<Rightarrow> (Inl (NotFoundException CandidateNotFound), w)
    | Some (c, rule, account) \<Rightarrow>
        (Inr (c\<lparr>ca_status := EXCLUDED, ca_processedAt := Some (clock w)\<rparr>),
         w\<lparr>db := (db w)\<lparr>emailCandidates := map (\<lambda>x. if ca_id x = i
           then x\<lparr>ca_status := EXCLUDED, ca_processedAt := Some (clock w)\<rparr> else x) (emailCandidates (db w))\<rparr>\<rparr>))"
proof (cases "findOwned userId i (db w)")
  case None
  then show ?thesis by (simp add: exclude_def act_simps)
next
  case (Some x)
  obtain c rule account where x: "x = (c, rule, account)" by (cases x)
  show ?thesis
    using run_decide [OF dbInv_tables(7) [OF assms] findOwned_D(1,2) [OF Some [unfolded x]], of EXCLUDED]
    by (simp add: exclude_def act_simps Some x)
qed

text \<open>
  the waiting list of a user holds exactly the pending candidates of his own mail accounts,
  each once, the latest mail first, and with each the action of its rule.
\<close>

theorem findPending_complete:
  assumes "dbInv (db w)"
  shows "\<exists>rows. findPending userId w = (Inr rows, w) \<and> distinct (map (ca_id \<circ> fst) rows) \<and>
    fst ` set rows = {c \<in> set (emailCandidates (db w)). ca_status c = PENDING \<and>
      ownedAccount userId (ca_emailAccountId c) (db w)} \<and>
    sorted_wrt (\<lambda>a b. ca_receivedAt (fst b) \<le> ca_receivedAt (fst a)) rows \<and>
    (\<forall>(c, action) \<in> set rows. \<exists>r \<in> set (emailRules (db w)). ru_id r = ca_ruleId c \<and> action = ru_actionType r)"
proof -
  let ?P = "\<lambda>c. ca_status c = PENDING \<and> ownedAccount userId (ca_emailAccountId c) (db w)"
  let ?cs = "newestFirst ca_receivedAt (filter ?P (emailCandidates (db w)))"
  let ?rows = "map (\<lambda>c. (c, actionTypeOf (db w) c)) ?cs"
  have set: "set ?cs = {c \<in> set (emailCandidates (db w)). ?P c}" by (simp add: newestFirst_def)
  have "distinct (map ca_id (emailCandidates (db w)))"
    by (rule candidate_table.ok_distinct [OF dbInv_tables(7) [OF assms]])
  then have "distinct (map ca_id (filter ?P (emailCandidates (db w))))" by (rule distinct_map_filter)
  then have "distinct (map ca_id ?cs)"
    by (simp add: newestFirst_def distinct_map)
  then have dist: "distinct (map (ca_id \<circ> fst) ?rows)" by (simp add: comp_def)
  have "sorted_wrt (\<lambda>a b. ca_receivedAt b \<le> ca_receivedAt a) ?cs"
    using sorted_sort_key [of "\<lambda>c. - ca_receivedAt c" "filter ?P (emailCandidates (db w))"]
    by (simp add: newestFirst_def sorted_map)
  then have sorted: "sorted_wrt (\<lambda>a b. ca_receivedAt (fst b) \<le> ca_receivedAt (fst a)) ?rows" by (simp add: sorted_wrt_map)
  have act: "\<exists>r \<in> set (emailRules (db w)). ru_id r = ca_ruleId c \<and> actionTypeOf (db w) c = ru_actionType r"
    if "c \<in> set (emailCandidates (db w))" for c
  proof -
    have "ca_ruleId c \<in> ru_id ` set (emailRules (db w))"
      by (rule subsetD [OF dbInv_refs(6) [OF assms] imageI [OF that]])
    then have "ruleOf c (db w) \<noteq> None" by (auto simp: ruleOf_def find_None_iff)
    then show ?thesis by (auto simp: actionTypeOf_def ruleOf_def dest: find_Some_D)
  qed
  show ?thesis
  proof (intro exI [of _ ?rows] conjI)
    show "findPending userId w = (Inr ?rows, w)" by (simp add: findPending_def act_simps)
    show "fst ` set ?rows = {c \<in> set (emailCandidates (db w)). ?P c}"
      unfolding set_map image_image fst_conv image_ident by (rule set)
    show "\<forall>(c, action) \<in> set ?rows. \<exists>r \<in> set (emailRules (db w)). ru_id r = ca_ruleId c \<and> action = ru_actionType r"
      unfolding set_map set by (auto dest: act)
  qed (rule dist, rule sorted)
qed

lemma count_groupCount: "orElse (map_of (groupCount f rows) k) 0 = length (filter (\<lambda>r. f r = k) rows)"
  by (auto simp: map_of_groupCount filter_empty_conv)

text \<open>
  the summary lists every mail account of the user once, with the number of approved candidates
  of this account whose rule marks mails as important.
\<close>

theorem importantSummary_exact:
  "importantSummary userId w =
     (Inr (map (\<lambda>a. \<lparr>sm_emailAccountId = em_id a, sm_displayName = em_displayName a,
         sm_importantCount = length (filter (\<lambda>c. ca_emailAccountId c = em_id a \<and> ca_status c = APPROVED \<and>
           actionTypeOf (db w) c = js ''important'') (emailCandidates (db w)))\<rparr>)
        (filter (\<lambda>a. em_userId a = userId) (emailAccounts (db w)))), w)"
proof -
  let ?P = "\<lambda>c. ca_status c = APPROVED \<and> actionTypeOf (db w) c = js ''important'' \<and>
      ownedAccount userId (ca_emailAccountId c) (db w)"
  have "orElse (map_of (groupCount ca_emailAccountId (filter ?P (emailCandidates (db w)))) (em_id a)) 0 =
      length (filter (\<lambda>c. ca_emailAccountId c = em_id a \<and> ca_status c = APPROVED \<and>
        actionTypeOf (db w) c = js ''important'') (emailCandidates (db w)))"
    if "a \<in> set (emailAccounts (db w))" "em_userId a = userId" for a
  proof -
    have own: "ownedAccount userId (em_id a) (db w)" using that by (auto simp: ownedAccount_def)
    have "filter (\<lambda>c. ca_emailAccountId c = em_id a) (filter ?P (emailCandidates (db w))) =
        filter (\<lambda>c. ca_emailAccountId c = em_id a \<and> ca_status c = APPROVED \<and>
          actionTypeOf (db w) c = js ''important'') (emailCandidates (db w))"
      unfolding filter_filter using own by (intro filter_cong refl) auto
    then show ?thesis by (simp only: count_groupCount)
  qed
  then show ?thesis by (simp add: importantSummary_def act_simps)
qed

text \<open>
  the summary of the notifications counts the pending candidates of every mail account of every
  user, and asks for no session: whoever calls it learns of the accounts of all users.
\<close>

theorem notifications_of_all_users:
  "\<exists>rows. summaryRoute w = (Inr rows, w) \<and> distinct (map fst rows) \<and>
     (\<forall>k n. (k, n) \<in> set rows \<longleftrightarrow>
        0 < n \<and> n = length (filter (\<lambda>c. ca_emailAccountId c = k \<and> ca_status c = PENDING) (emailCandidates (db w))))"
proof -
  let ?cs = "filter (\<lambda>c. ca_status c = PENDING) (emailCandidates (db w))"
  have "(k, n) \<in> set (groupCount ca_emailAccountId ?cs) \<longleftrightarrow>
      k \<in> ca_emailAccountId ` set ?cs \<and> n = length (filter (\<lambda>c. ca_emailAccountId c = k) ?cs)" for k n
    by (auto simp: groupCount_def)
  moreover have "k \<in> ca_emailAccountId ` set ?cs \<longleftrightarrow> 0 < length (filter (\<lambda>c. ca_emailAccountId c = k) ?cs)" for k
    by (auto simp: filter_empty_conv)
  moreover have "filter (\<lambda>c. ca_emailAccountId c = k) ?cs =
      filter (\<lambda>c. ca_emailAccountId c = k \<and> ca_status c = PENDING) (emailCandidates (db w))" for k
    by (auto intro!: filter_cong)
  moreover have "distinct (map fst (groupCount ca_emailAccountId ?cs))" by (simp add: groupCount_def comp_def)
  ultimately show ?thesis
    by (intro exI [of _ "groupCount ca_emailAccountId ?cs"])
      (auto simp: summaryRoute_def notificationsSummary_def act_simps)
qed

section \<open>Tokens\<close>

text \<open>
  an access token the client library has renewed is kept for the next call. When the stored
  tokens of an account can be read, the client that is returned is the one the library made of
  them; if its access token is a new one, the account afterwards holds it under the key of the
  server, with its expiry, and nothing else has changed, the refresh token in particular.
\<close>

theorem token_refresh_exact:
  assumes "goodPlatform E" and "tokenKeyInit E = Inr key" and "dbInv (db w)"
    and "account \<in> set (emailAccounts (db w))"
    and "aesDecrypt E (em_encryptedAccessToken account) key = Inr access"
    and "aesDecrypt E (em_encryptedRefreshToken account) key = Inr refresh"
    and "getAccessToken E (clock w) \<lparr>cr_accessToken = Some access, cr_refreshToken = Some refresh,
           cr_expiryDate = em_tokenExpiresAt account\<rparr> = Inr fresh"
    and "wellFormed (orElse (cr_accessToken fresh) [])"
  shows "if truthy (cr_accessToken fresh) \<and> cr_accessToken fresh \<noteq> Some access
    then \<exists>sealed. aesDecrypt E sealed key = Inr (the (cr_accessToken fresh)) \<and>
      getAuthorizedClient E (em_id account) w =
        (Inr fresh, w\<lparr>draws := Suc (draws w), db := (db w)\<lparr>emailAccounts := map (\<lambda>a. if em_id a = em_id account
           then a\<lparr>em_encryptedAccessToken := sealed, em_tokenExpiresAt := storedExpiry (cr_expiryDate fresh)\<rparr> else a)
           (emailAccounts (db w))\<rparr>\<rparr>)
    else getAuthorizedClient E (em_id account) w = (Inr fresh, w)"
proof -
  have key: "length key = 32" "tokenKey E = key"
    using assms(2) tokenKeyInit_length by (simp_all add: tokenKey_def)
  have find: "find (\<lambda>a. em_id a = em_id account) (emailAccounts (db w)) = Some account"
    by (rule email_account_table.ok_find [OF dbInv_tables(4) [OF assms(3)] assms(4)])
  show ?thesis
  proof (cases "truthy (cr_accessToken fresh) \<and> cr_accessToken fresh \<noteq> Some access")
    case False
    then show ?thesis using assms(5-7) key find
      by (auto simp: getAuthorizedClient_def act_simps Let_def)
  next
    case True
    then obtain t where t: "cr_accessToken fresh = Some t" by (cases "cr_accessToken fresh") auto
    obtain sealed where sealed: "aesEncrypt E (draws w) t key = Inr sealed"
      using aes.enc_total assms(1) key(1) by blast
    have dec: "aesDecrypt E sealed key = Inr t"
      using aes.dec_enc [OF _ _ sealed] assms(1,8) key(1) t by simp
    have "updateEmailAccount (em_id account)
        (\<lambda>a. a\<lparr>em_encryptedAccessToken := sealed, em_tokenExpiresAt := storedExpiry (cr_expiryDate fresh)\<rparr>) (db w) =
        Inr (account\<lparr>em_encryptedAccessToken := sealed, em_tokenExpiresAt := storedExpiry (cr_expiryDate fresh)\<rparr>,
          (db w)\<lparr>emailAccounts := map (\<lambda>a. if em_id a = em_id account
           then a\<lparr>em_encryptedAccessToken := sealed, em_tokenExpiresAt := storedExpiry (cr_expiryDate fresh)\<rparr> else a)
           (emailAccounts (db w))\<rparr>)"
      by (rule updateEmailAccount_ok [OF assms(3) find]) simp
    then have "getAuthorizedClient E (em_id account) w =
        (Inr fresh, w\<lparr>draws := Suc (draws w), db := (db w)\<lparr>emailAccounts := map (\<lambda>a. if em_id a = em_id account
           then a\<lparr>em_encryptedAccessToken := sealed, em_tokenExpiresAt := storedExpiry (cr_expiryDate fresh)\<rparr> else a)
           (emailAccounts (db w))\<rparr>\<rparr>)"
      using True assms(5-7) key find sealed t by (simp add: getAuthorizedClient_def act_simps Let_def)
    with dec t show ?thesis unfolding if_P [OF True] by (intro exI [of _ sealed] conjI) simp_all
  qed
qed

section \<open>Witnesses\<close>

text \<open>The demo platform with another mailbox or another token service.\<close>

lemma other_mailbox [simp]:
  "aesDecrypt (E\<lparr>gmailGet := g\<rparr>) = aesDecrypt E" "tokenKey (E\<lparr>gmailGet := g\<rparr>) = tokenKey E"
  "aesDecrypt (E\<lparr>getAccessToken := f\<rparr>) = aesDecrypt E" "tokenKeyInit (E\<lparr>getAccessToken := f\<rparr>) = tokenKeyInit E"
  by (simp_all add: fun_eq_iff aesDecrypt_def tokenKey_def tokenKeyInit_def Let_def)

lemma other_tokens: "goodPlatform (E\<lparr>getAccessToken := f\<rparr>) = goodPlatform E"
  by (simp add: goodPlatform_def gcmLaw_def randomLaw_def)

lemma demo_tokens:
  "aesDecrypt demoEnv (em_encryptedAccessToken demoMailAccount) (tokenKey demoEnv) = Inr (js ''access'')"
  "aesDecrypt demoEnv (em_encryptedRefreshToken demoMailAccount) (tokenKey demoEnv) = Inr (js ''refresh'')"
  by (simp_all add: demoMailAccount_def demo_open length_tokenKey_demo)

definition demoCredentials :: credentials where
  "demoCredentials = \<lparr>cr_accessToken = Some (js ''access''), cr_refreshToken = Some (js ''refresh''), cr_expiryDate = None\<rparr>"

lemma demo_client_db:
  assumes "db w = db demoWorld"
  shows "getAuthorizedClient (demoEnv\<lparr>gmailGet := g\<rparr>) (js ''e1'') w = (Inr demoCredentials, w)"
proof -
  have "find (\<lambda>a. em_id a = js ''e1'') (emailAccounts (db w)) = Some demoMailAccount"
    by (simp add: assms demoWorld_def demoDb_def demoMailAccount_def)
  moreover have "getAccessToken demoEnv t c = Inr c" for t c by (simp add: demoEnv_def)
  moreover have "em_tokenExpiresAt demoMailAccount = None" by (simp add: demoMailAccount_def)
  ultimately show ?thesis
    using demo_tokens by (simp add: getAuthorizedClient_def act_simps Let_def demoCredentials_def)
qed

lemmas demo_client = demo_client_db [OF refl]

lemma demo_applyAction:
  assumes "db w = db demoWorld"
  shows "applyAction demoEnv (js ''e1'') (js ''m0'') DeleteMail w =
    (Inr (), w\<lparr>gmailLog := gmailLog w @ [TrashMessage demoCredentials (js ''m0'')]\<rparr>)"
proof -
  have "gmailTrash demoEnv h auth i = Inr ()" for h auth i by (simp add: demoEnv_def)
  then show ?thesis using demo_client_db [OF assms, of "gmailGet demoEnv"] by (simp add: applyAction_def act_simps)
qed

definition demoListed :: "world" where
  "demoListed = demoWorld\<lparr>gmailLog := [ListMessages demoCredentials (js ''newer_than:7d'') 50,
     GetMessage demoCredentials (js ''m1'') (js ''metadata'') [js ''From'', js ''Subject'', js ''Date'']]\<rparr>"

lemma demo_list:
  "listCandidateMessages (demoEnv\<lparr>gmailGet := (\<lambda>h c i f hs. Inr m)\<rparr>) (js ''e1'') demoWorld =
     (Inr [toRawMailMessage (demoEnv\<lparr>gmailGet := (\<lambda>h c i f hs. Inr m)\<rparr>) m], demoListed)"
proof -
  have "gmailList demoEnv h c q k = Inr (Some [js ''m1''])" for h c q k by (simp add: demoEnv_def)
  moreover have "gmailLog demoWorld = []" by (simp add: demoWorld_def)
  ultimately show ?thesis
    by (simp add: listCandidateMessages_def act_simps demo_client fetchMessage_def demoListed_def Let_def)
qed

lemma demo_listed: "listCandidateMessages demoEnv (js ''e1'') demoWorld = (Inr [toRawMailMessage demoEnv demoMessage], demoListed)"
proof -
  have "demoEnv\<lparr>gmailGet := (\<lambda>h c i f hs. Inr demoMessage)\<rparr> = demoEnv" by (simp add: demoEnv_def)
  then show ?thesis using demo_list [of demoMessage] by simp
qed

lemma demo_activeRules:
  "activeRules (js ''e1'') (db demoWorld) = [\<lparr>rc_rule = demoRule, rc_conditions = [demoCondition]\<rparr>]"
  by (simp add: activeRules_def withConditions_def conditionsOf_def demoWorld_def demoDb_def demoRule_def demoCondition_def)

lemma demo_matches:
  assumes "rm_sender m = js ''shop''" and "\<And>s. toLowerCase E s = s"
  shows "messageMatchesRule E m \<lparr>rc_rule = demoRule, rc_conditions = [demoCondition]\<rparr> = Inr True"
  using assms
  by (simp add: messageMatchesRule_def evaluateCondition_def demoRule_def demoCondition_def stringField_def
      needleIn_def includesStr_sublist)

lemma demo_raw:
  "rm_sender (toRawMailMessage demoEnv demoMessage) = js ''shop''"
  "rm_externalMessageId (toRawMailMessage demoEnv demoMessage) = js ''m1''"
  "rm_receivedAt (toRawMailMessage demoEnv demoMessage) \<noteq> None"
  by (simp_all add: toRawMailMessage_def headerOf_def demoEnv_def demoMessage_def)

lemma scan_account_exact_witness:
  "\<exists>new n. scanAccount demoEnv demoMailAccount () (demoWorld, noCounters) =
      (Inr (), (demoListed\<lparr>draws := n, db := (db demoListed)\<lparr>emailCandidates := demoCandidate # new\<rparr>\<rparr>,
         \<lparr>scannedAccounts = 1, createdCandidates = length new, failedAccounts = 0\<rparr>)) \<and>
    candidateKey ` set new = {(js ''r1'', js ''m1'')}"
proof -
  have acc: "demoMailAccount \<in> set (emailAccounts (db demoWorld))" "em_providerType demoMailAccount = js ''gmail''"
    "em_id demoMailAccount = js ''e1''"
    by (simp_all add: demoWorld_def demoDb_def demoMailAccount_def)
  have rules: "activeRules (em_id demoMailAccount) (db demoWorld) \<noteq> []" by (simp add: acc demo_activeRules)
  have listed: "listCandidateMessages demoEnv (em_id demoMailAccount) demoWorld =
      (Inr [toRawMailMessage demoEnv demoMessage], demoListed)" by (simp add: acc demo_listed)
  have "js ''k1'' \<noteq> uuid demoEnv n" for n by (cases n) (simp_all add: demoEnv_def js_def)
  moreover have "inj (uuid demoEnv)" by (simp add: demoEnv_def inj_def)
  ultimately have fresh: "freshCandidates demoEnv demoListed"
    by (simp add: freshCandidates_def demoListed_def demoWorld_def demoDb_def demoCandidate_def)
  have match: "messageMatchesRule demoEnv (toRawMailMessage demoEnv demoMessage)
      \<lparr>rc_rule = demoRule, rc_conditions = [demoCondition]\<rparr> = Inr True"
    by (rule demo_matches [OF demo_raw(1)]) (simp add: demoEnv_def)
  then have ok: "\<forall>m \<in> set [toRawMailMessage demoEnv demoMessage]. rm_receivedAt m \<noteq> None \<and>
      (\<forall>rule \<in> set (activeRules (em_id demoMailAccount) (db demoWorld)). \<exists>b. messageMatchesRule demoEnv m rule = Inr b)"
    using demo_raw(3) by (auto simp: acc demo_activeRules intro: exI [of _ True])
  have old: "emailCandidates (db demoWorld) = [demoCandidate]" by (simp add: demoWorld_def demoDb_def)
  have keys: "{(ru_id (rc_rule rule), rm_externalMessageId m) | m rule. m \<in> set [toRawMailMessage demoEnv demoMessage] \<and>
         rule \<in> set (activeRules (em_id demoMailAccount) (db demoWorld)) \<and> messageMatchesRule demoEnv m rule = Inr True} -
      candidateKey ` set (emailCandidates (db demoWorld)) = {(js ''r1'', js ''m1'')}"
    using match by (auto simp: acc demo_activeRules old candidateKey_def demoCandidate_def demo_raw(2)) (simp_all add: demoRule_def)
  show ?thesis
    using scan_account_exact [OF worldInv_demoWorld acc(1,2) rules listed fresh ok, of noCounters]
    unfolding keys unfolding old by (elim exE conjE, intro exI conjI) (assumption | simp add: noCounters_def)+
qed


lemma demo_findOwned: "findOwned (js ''u1'') (js ''k1'') (db demoWorld) = Some (demoCandidate, demoRule, demoMailAccount)"
  by (simp add: findOwned_def ruleOf_def accountOf_def ownedAccount_def demoWorld_def demoDb_def demo_rows)

lemma dbInv_demoWorld: "dbInv (db demoWorld)"
  using worldInv_demoWorld by (simp add: worldInv_def)

lemma approve_exact_witness:
  "\<exists>row w' auth. approve demoEnv (js ''u1'') (js ''k1'') demoWorld = (Inr row, w') \<and> ca_status row = APPROVED \<and>
     mailboxChanges (gmailLog w') = [TrashMessage auth (js ''m0'')]"
proof -
  have c: "demoCandidate \<in> set (emailCandidates (db demoWorld))" "ca_id demoCandidate = js ''k1''"
    "ca_emailAccountId demoCandidate = js ''e1''" "ca_externalMessageId demoCandidate = js ''m0''"
    "ru_actionType demoRule = js ''delete_candidate''" "em_providerType demoMailAccount = js ''gmail''"
    by (simp_all add: demoWorld_def demoDb_def demoCandidate_def demoRule_def demoMailAccount_def)
  have "\<exists>row w'. approve demoEnv (js ''u1'') (js ''k1'') demoWorld = (Inr row, w')"
    using c demo_applyAction [OF refl] run_decide [of "demoWorld\<lparr>gmailLog := gmailLog demoWorld @ [TrashMessage demoCredentials (js ''m0'')]\<rparr>"
        demoCandidate "js ''k1''" APPROVED] dbInv_tables(7) [OF dbInv_demoWorld]
    by (simp add: run_approve demo_findOwned)
  then obtain row w' where run: "approve demoEnv (js ''u1'') (js ''k1'') demoWorld = (Inr row, w')" by blast
  have "mailboxChanges (gmailLog demoWorld) = []" by (simp add: demoWorld_def mailboxChanges_def)
  with approve_exact [OF dbInv_demoWorld run] run show ?thesis
    by (auto simp: demo_findOwned c)
qed

lemma exclude_exact_witness:
  "fst (exclude (js ''u1'') (js ''k1'') demoWorld) =
     Inr (demoCandidate\<lparr>ca_status := EXCLUDED, ca_processedAt := Some 60000\<rparr>) \<and>
   exclude (js ''u2'') (js ''k1'') demoWorld = (Inl (NotFoundException CandidateNotFound), demoWorld)"
proof -
  have "clock demoWorld = 60000" by (simp add: demoWorld_def)
  moreover have "findOwned (js ''u2'') (js ''k1'') (db demoWorld) = None"
    by (simp add: findOwned_def ownedAccount_def demoWorld_def demoDb_def demo_rows)
  ultimately show ?thesis by (simp add: exclude_exact [OF dbInv_demoWorld] demo_findOwned)
qed

lemma findPending_complete_witness:
  "\<exists>rows. findPending (js ''u1'') demoWorld = (Inr rows, demoWorld) \<and> fst ` set rows = {demoCandidate}"
proof -
  have "{c \<in> set (emailCandidates (db demoWorld)). ca_status c = PENDING \<and>
      ownedAccount (js ''u1'') (ca_emailAccountId c) (db demoWorld)} = {demoCandidate}"
    by (auto simp: ownedAccount_def demoWorld_def demoDb_def demo_rows)
  with findPending_complete [OF dbInv_demoWorld, of "js ''u1''"] show ?thesis by metis
qed

lemma token_refresh_exact_witness:
  "\<exists>sealed w'. getAuthorizedClient
      (demoEnv\<lparr>getAccessToken := (\<lambda>now c. Inr (c\<lparr>cr_accessToken := Some (js ''new'')\<rparr>))\<rparr>) (js ''e1'') demoWorld =
        (Inr (demoCredentials\<lparr>cr_accessToken := Some (js ''new'')\<rparr>), w') \<and>
     emailAccounts (db w') = [demoMailAccount\<lparr>em_encryptedAccessToken := sealed\<rparr>] \<and>
     aesDecrypt demoEnv sealed (replicate 32 7) = Inr (js ''new'')"
proof -
  let ?E = "demoEnv\<lparr>getAccessToken := (\<lambda>now c. Inr (c\<lparr>cr_accessToken := Some (js ''new'')\<rparr>))\<rparr>"
  have good: "goodPlatform ?E" by (simp add: other_tokens goodPlatform_demo)
  have key: "tokenKeyInit ?E = Inr (replicate 32 7)" by (simp add: tokenKey_demo)
  have acc: "demoMailAccount \<in> set (emailAccounts (db demoWorld))" "emailAccounts (db demoWorld) = [demoMailAccount]"
    "em_id demoMailAccount = js ''e1''" "em_tokenExpiresAt demoMailAccount = None"
    by (simp_all add: demoWorld_def demoDb_def demoMailAccount_def)
  have toks: "aesDecrypt ?E (em_encryptedAccessToken demoMailAccount) (replicate 32 7) = Inr (js ''access'')"
    "aesDecrypt ?E (em_encryptedRefreshToken demoMailAccount) (replicate 32 7) = Inr (js ''refresh'')"
    using demo_tokens by (simp_all add: tokenKey_demo)
  have fresh: "getAccessToken ?E (clock demoWorld) \<lparr>cr_accessToken = Some (js ''access''), cr_refreshToken = Some (js ''refresh''),
      cr_expiryDate = em_tokenExpiresAt demoMailAccount\<rparr> = Inr (demoCredentials\<lparr>cr_accessToken := Some (js ''new'')\<rparr>)"
    by (simp add: demoCredentials_def acc)
  have wf: "wellFormed (orElse (cr_accessToken (demoCredentials\<lparr>cr_accessToken := Some (js ''new'')\<rparr>)) [])" by simp
  have "demoMailAccount\<lparr>em_encryptedAccessToken := s, em_tokenExpiresAt := None\<rparr> = demoMailAccount\<lparr>em_encryptedAccessToken := s\<rparr>" for s
    by (simp add: demoMailAccount_def)
  with token_refresh_exact [OF good key dbInv_demoWorld acc(1) toks fresh wf] show ?thesis
    by (auto simp: acc storedExpiry_def demoCredentials_def)
qed

end
