(* ===== verification/AccountsProperties.thy ===== *)
theory AccountsProperties
  imports Accounts
begin

text \<open>
  What the operations on password entries guarantee: creation, update and removal row by row, the
  separation of the users, and the backup as a round trip.
\<close>

section \<open>Properties\<close>

lemma if_then: "(if P then A else B) \<Longrightarrow> P \<Longrightarrow> A"
  by simp

lemma if_else: "(if P then A else B) \<Longrightarrow> \<not> P \<Longrightarrow> B"
  by simp

text \<open>
  creating an entry from a complete body that names no owner. When the user already has an
  entry for the same site and login, the request is a conflict and the table is unchanged; otherwise
  one row of that user is appended, and reading it with the same key gives the password back.
\<close>

theorem create_exact:
  assumes "goodPlatform E" and "length key = 32" and "userId \<in> u_id ` set (users (db w))"
    and "\<not> rejected E data" and "completeBody data" and "bd_id data = None" and "bd_userId data = None"
    and "bd_password data = Some (JStr p)" and "wellFormed p"
    and "\<forall>a \<in> set (accounts (db w)). ac_id a \<noteq> uuid E (Suc (draws w))"
  shows "if \<exists>a \<in> set (accounts (db w)). ac_userId a = userId \<and>
        Some (ac_urlOrAppName a) = bd_urlOrAppName data \<and> Some (ac_loginId a) = bd_loginId data
    then \<exists>n. accountsCreate E userId key data w = (Inl (ConflictException AccountAlreadyExists), w\<lparr>draws := n\<rparr>)
    else \<exists>row n. accountsCreate E userId key data w =
        (Inr row, w\<lparr>db := (db w)\<lparr>accounts := accounts (db w) @ [row]\<rparr>, draws := n\<rparr>) \<and>
      ac_userId row = userId \<and>
      (\<forall>v. accounts (db v) = accounts (db w) @ [row] \<longrightarrow>
         accountsFindOne E userId (ac_id row) key v = (Inr (accountDetail row p), v))"
proof -
  obtain c row where c: "aesEncrypt E (draws w) p key = Inr c"
    and row: "newAccountRow userId data (uuid E (Suc (draws w))) c (clock w) = Some row"
    and run: "accountsCreate E userId key data w =
      (let w1 = w\<lparr>draws := Suc (draws w) + 1\<rparr> in
       case createAccount row (db w) of
         Inl e \<Rightarrow> (Inl (conflictOr (PrismaError e)), w1) | Inr d \<Rightarrow> (Inr row, w1\<lparr>db := d\<rparr>))"
    using run_create [OF assms(1,2,4,8,5), of w userId] assms(6) by auto
  note fields = newAccountRow_fields [OF row]
  have clash: "account_clash a row \<longleftrightarrow> ac_userId a = userId \<and>
        Some (ac_urlOrAppName a) = bd_urlOrAppName data \<and> Some (ac_loginId a) = bd_loginId data"
    if "a \<in> set (accounts (db w))" for a
    using that fields assms(7,10) by (auto simp: account_clash_def)
  have read: "accountsFindOne E userId (ac_id row) key v = (Inr (accountDetail row p), v)"
    if "\<forall>a \<in> set (accounts (db w)). \<not> account_clash a row" "accounts (db v) = accounts (db w) @ [row]" for v
  proof -
    have "findOwnAccount (ac_userId row) (ac_id row) (db v) = Some row"
      using findOwn_created [OF that(1)] that(2) by (simp add: findOwnAccount_def)
    moreover have "aesDecrypt E (ac_encryptedPassword row) key = Inr p"
      using aes.dec_enc [OF _ assms(9) c] assms(1,2) fields(3) by simp
    ultimately show ?thesis using fields(2) assms(7) by (simp add: accountsFindOne_def act_simps)
  qed
  show ?thesis
  proof (cases "\<exists>a \<in> set (accounts (db w)). account_clash a row")
    case True
    then have "accountsCreate E userId key data w =
        (Inl (ConflictException AccountAlreadyExists), w\<lparr>draws := Suc (draws w) + 1\<rparr>)"
      by (simp add: run createAccount_cases conflictOr_def)
    then show ?thesis using True clash by auto
  next
    case False
    then have "accountsCreate E userId key data w =
        (Inr row, w\<lparr>db := (db w)\<lparr>accounts := accounts (db w) @ [row]\<rparr>, draws := Suc (draws w) + 1\<rparr>)"
      using assms(3,7) fields(2) by (simp add: run createAccount_cases)
    moreover have "\<not> (\<exists>a \<in> set (accounts (db w)). ac_userId a = userId \<and>
        Some (ac_urlOrAppName a) = bd_urlOrAppName data \<and> Some (ac_loginId a) = bd_loginId data)"
      using False clash by blast
    ultimately show ?thesis using False read fields(2) assms(7) by (auto simp del: add_Suc)
  qed
qed

definition demoBody :: account_body where
  "demoBody =
     \<lparr>bd_id = None, bd_userId = None, bd_serviceName = Some (js ''Bank''), bd_urlOrAppName = Some (js ''bank.example''),
      bd_category = Some (js ''etc''), bd_loginId = Some (js ''me''), bd_encryptedPassword = None,
      bd_customFields = None, bd_memo = None, bd_createdAt = None, bd_updatedAt = None,
      bd_password = Some (JStr (js ''secret'')), bd_invalid = False\<rparr>"

lemma demo_uuid: "js ''a1'' \<noteq> uuid demoEnv n \<and> js ''a2'' \<noteq> uuid demoEnv n"
  by (cases n) (simp_all add: demoEnv_def js_def)

lemma create_exact_witness:
  "\<exists>row w'. accountsCreate demoEnv (js ''u1'') demoUserKey demoBody demoWorld = (Inr row, w') \<and>
     ac_userId row = js ''u1'' \<and>
     fst (accountsCreate demoEnv (js ''u1'') demoUserKey (demoBody\<lparr>bd_urlOrAppName := Some (js ''shop.example'')\<rparr>) demoWorld) =
       Inl (ConflictException AccountAlreadyExists)"
proof -
  have fresh: "\<forall>a \<in> set (accounts (db demoWorld)). ac_id a \<noteq> uuid demoEnv (Suc (draws demoWorld))"
    using demo_uuid by (simp add: demoWorld_def demoDb_def demoAccount_def)
  have u: "js ''u1'' \<in> u_id ` set (users (db demoWorld))"
    by (simp add: demo_defs)
  have b: "\<not> rejected demoEnv demoBody" "completeBody demoBody" "bd_id demoBody = None" "bd_userId demoBody = None"
    "bd_password demoBody = Some (JStr (js ''secret''))"
    by (simp_all add: demoBody_def rejected_def completeBody_def)
  let ?b = "demoBody\<lparr>bd_urlOrAppName := Some (js ''shop.example'')\<rparr>"
  have b': "\<not> rejected demoEnv ?b" "completeBody ?b" "bd_id ?b = None" "bd_userId ?b = None"
    "bd_password ?b = Some (JStr (js ''secret''))"
    by (simp_all add: demoBody_def rejected_def completeBody_def)
  have "\<not> (\<exists>a \<in> set (accounts (db demoWorld)). ac_userId a = js ''u1'' \<and>
        Some (ac_urlOrAppName a) = bd_urlOrAppName demoBody \<and> Some (ac_loginId a) = bd_loginId demoBody)"
    and "\<exists>a \<in> set (accounts (db demoWorld)). ac_userId a = js ''u1'' \<and>
        Some (ac_urlOrAppName a) = bd_urlOrAppName ?b \<and> Some (ac_loginId a) = bd_loginId ?b"
    by (simp_all add: demo_defs demoBody_def)
  note new = if_else [OF create_exact [OF goodPlatform_demo length_demoUserKey u b wellFormed_js fresh] this(1)]
    and old = if_then [OF create_exact [OF goodPlatform_demo length_demoUserKey u b' wellFormed_js fresh] this(2)]
  from new obtain row n where "accountsCreate demoEnv (js ''u1'') demoUserKey demoBody demoWorld =
      (Inr row, demoWorld\<lparr>db := (db demoWorld)\<lparr>accounts := accounts (db demoWorld) @ [row]\<rparr>, draws := n\<rparr>)"
    and "ac_userId row = js ''u1''" by blast
  moreover from old have "fst (accountsCreate demoEnv (js ''u1'') demoUserKey ?b demoWorld) =
      Inl (ConflictException AccountAlreadyExists)" by (elim exE) simp
  ultimately show ?thesis by blast
qed



text \<open>
  the list is complete and in order: it shows exactly the entries of the user that pass the
  category and the search text, each as often as it is stored, the newest first.
\<close>

theorem findAll_complete:
  "\<exists>rows. accountsFindAll E userId category q w = (Inr (map accountView rows), w) \<and>
     mset rows = mset (filter (accountWhere E userId category q) (accounts (db w))) \<and>
     sorted_wrt (\<lambda>a b. ac_createdAt a \<ge> ac_createdAt b) rows"
proof -
  let ?rows = "newestFirst ac_createdAt (filter (accountWhere E userId category q) (accounts (db w)))"
  have "sorted (map (\<lambda>r. - ac_createdAt r) ?rows)"
    unfolding newestFirst_def by (rule sorted_sort_key)
  then have "sorted_wrt (\<lambda>a b. ac_createdAt a \<ge> ac_createdAt b) ?rows"
    by (simp add: sorted_map)
  then show ?thesis
    by (intro exI [of _ ?rows]) (simp add: accountsFindAll_def act_simps newestFirst_def mset_filter)
qed

lemma run_encryptGiven:
  assumes "goodPlatform E" and "length key = 32"
    and "bd_password data = map_option JStr pw" and "\<forall>p. pw = Some p \<longrightarrow> wellFormed p"
  shows "\<exists>enc n. (if bd_password data \<noteq> None \<and> truthyJson (the (bd_password data))
       then bindA (encryptValue E (bd_password data) key) (\<lambda>c. ret (Some c)) else ret None) w = (Inr enc, w\<lparr>draws := n\<rparr>) \<and>
    (if truthy pw then \<exists>c. enc = Some c \<and> aesDecrypt E c key = Inr (the pw) else enc = None)"
proof (cases "truthy pw")
  case True
  then obtain p where p: "pw = Some p" "p \<noteq> []" by (cases pw) auto
  obtain c where c: "aesEncrypt E (draws w) p key = Inr c" using aes.enc_total assms(1,2) by blast
  have "wellFormed p" using assms(4) p by simp
  then have "aesDecrypt E c key = Inr p" using aes.dec_enc [OF _ _ c] assms(1,2) by simp
  then show ?thesis using p c assms(3)
    by (intro exI [of _ "Some c"] exI [of _ "Suc (draws w)"]) (simp_all add: encryptValue_def act_simps)
next
  case False
  then have "\<not> (bd_password data \<noteq> None \<and> truthyJson (the (bd_password data)))"
    using assms(3) by (cases pw) auto
  then show ?thesis using False
    by (intro exI [of _ None] exI [of _ "draws w"]) (auto simp: act_simps)
qed

lemma updateAccount_own:
  assumes "dbInv d" and "findOwnAccount userId i d = Some a" and "ac_id (f a) = i" and "ac_userId (f a) = userId"
  shows "updateAccount i f d =
      (if \<exists>b \<in> set (accounts d). b \<noteq> a \<and> ac_userId b = userId \<and>
          ac_urlOrAppName b = ac_urlOrAppName (f a) \<and> ac_loginId b = ac_loginId (f a) then Inl P2002
       else Inr (f a, d\<lparr>accounts := map (\<lambda>x. if x = a then f a else x) (accounts d)\<rparr>))"
proof -
  note ok = dbInv_tables(3) [OF assms(1)]
  have a: "a \<in> set (accounts d)" "ac_id a = i" "ac_userId a = userId"
    using findOwn_D [OF assms(2)] by simp_all
  have only: "ac_id x = i \<longleftrightarrow> x = a" if "x \<in> set (accounts d)" for x
    using account_table.ok_same_key [OF ok that a(1)] a(2) by auto
  have find: "find (\<lambda>x. ac_id x = i) (accounts d) = Some a"
    using account_table.ok_find [OF ok a(1)] a(2) by simp
  have owner: "userId \<in> u_id ` set (users d)"
    using dbInv_refs(2) [OF assms(1)] a(1,3) by auto
  have "(\<exists>b \<in> set (accounts d). ac_id b \<noteq> i \<and> account_clash b (f a)) \<longleftrightarrow>
      (\<exists>b \<in> set (accounts d). b \<noteq> a \<and> ac_userId b = userId \<and>
        ac_urlOrAppName b = ac_urlOrAppName (f a) \<and> ac_loginId b = ac_loginId (f a))"
    using only assms(3,4) by (auto simp: account_clash_def)
  moreover have "map (\<lambda>x. if ac_id x = i then f x else x) (accounts d) =
      map (\<lambda>x. if x = a then f a else x) (accounts d)"
    using only by (intro map_cong) auto
  ultimately show ?thesis using find owner assms(3,4)
    by (simp add: updateAccount_def updateRow_def) blast
qed

lemma run_accountsUpdate:
  assumes "goodPlatform E" and "length key = 32" and "dbInv (db w)" and "findOwnAccount userId i (db w) = Some a"
    and "\<not> rejected E data" and "bd_id data = None" and "bd_userId data = None" and "bd_encryptedPassword data = None"
    and "bd_password data = map_option JStr pw" and "\<forall>p. pw = Some p \<longrightarrow> wellFormed p"
  shows "\<exists>enc n. let row = changedRow data enc (clock w) a in
      accountsUpdate E userId i key data w =
        (if \<exists>b \<in> set (accounts (db w)). b \<noteq> a \<and> ac_userId b = userId \<and>
            ac_urlOrAppName b = ac_urlOrAppName row \<and> ac_loginId b = ac_loginId row
         then (Inl (ConflictException AccountAlreadyExists), w\<lparr>draws := n\<rparr>)
         else (Inr row, w\<lparr>db := (db w)\<lparr>accounts := map (\<lambda>x. if x = a then row else x) (accounts (db w))\<rparr>, draws := n\<rparr>)) \<and>
      (if truthy pw then aesDecrypt E (ac_encryptedPassword row) key = Inr (the pw)
       else ac_encryptedPassword row = ac_encryptedPassword a)"
proof -
  obtain enc n where enc: "(if bd_password data \<noteq> None \<and> truthyJson (the (bd_password data))
       then bindA (encryptValue E (bd_password data) key) (\<lambda>c. ret (Some c)) else ret None) w = (Inr enc, w\<lparr>draws := n\<rparr>)"
    and pw: "if truthy pw then \<exists>c. enc = Some c \<and> aesDecrypt E c key = Inr (the pw) else enc = None"
    using run_encryptGiven [OF assms(1,2,9,10)] by blast
  let ?f = "changedRow data enc (clock w)"
  have "ac_id (?f a) = i" "ac_userId (?f a) = userId"
    using findOwn_D [OF assms(4)] assms(6,7) by (simp_all add: changedRow_def)
  note up = updateAccount_own [of "db w" userId i a ?f, OF assms(3,4) this]
  have run: "accountsUpdate E userId i key data w =
      (case updateAccount i ?f (db w) of
         Inl e \<Rightarrow> (Inl (conflictOr (PrismaError e)), w\<lparr>draws := n\<rparr>)
       | Inr (row, d) \<Rightarrow> (Inr row, w\<lparr>draws := n, db := d\<rparr>))"
    using assms(4,5) enc
    by (simp add: accountsUpdate_def run_bindA [of "if b then m else m'" for b m m'] act_simps split: sum.split)
  have "if truthy pw then aesDecrypt E (ac_encryptedPassword (?f a)) key = Inr (the pw)
     else ac_encryptedPassword (?f a) = ac_encryptedPassword a"
    using pw assms(8) by (auto simp: changedRow_def split: if_splits)
  then show ?thesis
    by (intro exI [of _ enc] exI [of _ n]) (simp add: Let_def run up conflictOr_def, blast)
qed

text \<open>
  an update that names neither id nor owner nor ciphertext. It keeps id and owner of the entry
  and leaves every other row alone; without a password the stored ciphertext stays, with one the
  entry decrypts to the new password. Moving the entry onto the site and login of another entry of
  the user is a conflict that changes nothing.
\<close>

theorem update_exact:
  assumes "goodPlatform E" and "length key = 32" and "dbInv (db w)" and "findOwnAccount userId i (db w) = Some a"
    and "\<not> rejected E data" and "bd_id data = None" and "bd_userId data = None" and "bd_encryptedPassword data = None"
    and "bd_password data = map_option JStr pw" and "\<forall>p. pw = Some p \<longrightarrow> wellFormed p"
  shows "if \<exists>b \<in> set (accounts (db w)). b \<noteq> a \<and> ac_userId b = userId \<and>
        ac_urlOrAppName b = orElse (bd_urlOrAppName data) (ac_urlOrAppName a) \<and>
        ac_loginId b = orElse (bd_loginId data) (ac_loginId a)
    then \<exists>n. accountsUpdate E userId i key data w = (Inl (ConflictException AccountAlreadyExists), w\<lparr>draws := n\<rparr>)
    else \<exists>row n. accountsUpdate E userId i key data w =
        (Inr row, w\<lparr>db := (db w)\<lparr>accounts := map (\<lambda>x. if x = a then row else x) (accounts (db w))\<rparr>, draws := n\<rparr>) \<and>
      ac_id row = i \<and> ac_userId row = userId \<and>
      ac_serviceName row = orElse (bd_serviceName data) (ac_serviceName a) \<and>
      (if truthy pw then aesDecrypt E (ac_encryptedPassword row) key = Inr (the pw)
       else ac_encryptedPassword row = ac_encryptedPassword a)"
proof -
  obtain enc n row where row: "row = changedRow data enc (clock w) a"
    and run: "accountsUpdate E userId i key data w =
      (if \<exists>b \<in> set (accounts (db w)). b \<noteq> a \<and> ac_userId b = userId \<and>
          ac_urlOrAppName b = ac_urlOrAppName row \<and> ac_loginId b = ac_loginId row
       then (Inl (ConflictException AccountAlreadyExists), w\<lparr>draws := n\<rparr>)
       else (Inr row, w\<lparr>db := (db w)\<lparr>accounts := map (\<lambda>x. if x = a then row else x) (accounts (db w))\<rparr>, draws := n\<rparr>))"
    and pw: "if truthy pw then aesDecrypt E (ac_encryptedPassword row) key = Inr (the pw)
       else ac_encryptedPassword row = ac_encryptedPassword a"
    using run_accountsUpdate [OF assms] unfolding Let_def by blast
  have "ac_id row = i" "ac_userId row = userId" "ac_serviceName row = orElse (bd_serviceName data) (ac_serviceName a)"
    "ac_urlOrAppName row = orElse (bd_urlOrAppName data) (ac_urlOrAppName a)"
    "ac_loginId row = orElse (bd_loginId data) (ac_loginId a)"
    using findOwn_D [OF assms(4)] assms(6,7) by (simp_all add: row changedRow_def)
  with run pw show ?thesis by auto
qed

lemma update_exact_witness:
  "\<exists>row w'. accountsUpdate demoEnv (js ''u1'') (js ''a1'') demoUserKey (demoBody\<lparr>bd_password := None\<rparr>) demoWorld = (Inr row, w') \<and>
     ac_serviceName row = js ''Bank'' \<and> ac_encryptedPassword row = demoSeal (js ''pw'') demoUserKey"
proof -
  let ?a = "demoAccount (js ''a1'') (js ''u1'')" and ?b = "demoBody\<lparr>bd_password := None\<rparr>"
  have db: "dbInv (db demoWorld)" using dbInv_demoDb by (simp add: demoWorld_def)
  have a: "findOwnAccount (js ''u1'') (js ''a1'') (db demoWorld) = Some ?a"
    by (simp add: findOwnAccount_def demoWorld_def demoDb_def demoAccount_def)
  have b: "\<not> rejected demoEnv ?b" "bd_id ?b = None" "bd_userId ?b = None" "bd_encryptedPassword ?b = None"
    "bd_password ?b = map_option JStr None" "\<forall>p. None = Some p \<longrightarrow> wellFormed p"
    by (simp_all add: demoBody_def rejected_def)
  have "\<not> (\<exists>b \<in> set (accounts (db demoWorld)). b \<noteq> ?a \<and> ac_userId b = js ''u1'' \<and>
        ac_urlOrAppName b = orElse (bd_urlOrAppName ?b) (ac_urlOrAppName ?a) \<and>
        ac_loginId b = orElse (bd_loginId ?b) (ac_loginId ?a))"
    by (simp add: demoWorld_def demoDb_def demoAccount_def demoBody_def)
  from if_else [OF update_exact [OF goodPlatform_demo length_demoUserKey db a b] this]
  obtain row n where "accountsUpdate demoEnv (js ''u1'') (js ''a1'') demoUserKey ?b demoWorld =
      (Inr row, demoWorld\<lparr>db := (db demoWorld)\<lparr>accounts := map (\<lambda>x. if x = ?a then row else x) (accounts (db demoWorld))\<rparr>, draws := n\<rparr>)"
    and "ac_serviceName row = orElse (bd_serviceName ?b) (ac_serviceName ?a)"
    and "ac_encryptedPassword row = ac_encryptedPassword ?a" by auto
  then show ?thesis by (intro exI [of _ row]) (simp add: demoBody_def demoAccount_def)
qed

text \<open>
  removal. An entry of the user goes, and only that one; an id that is not an entry of the user
  is answered with not found.
\<close>

theorem accountsRemove_exact:
  assumes "dbInv (db w)"
  shows "accountsRemove userId i w =
    (case findOwnAccount userId i (db w) of
       None \<Rightarrow> (Inl (NotFoundException AccountNotFound), w)
     | Some a \<Rightarrow> (Inr (), w\<lparr>db := (db w)\<lparr>accounts := removeAll a (accounts (db w))\<rparr>\<rparr>))"
proof (cases "findOwnAccount userId i (db w)")
  case None
  then show ?thesis by (simp add: accountsRemove_def act_simps)
next
  case (Some a)
  note ok = dbInv_tables(3) [OF assms]
  have a: "a \<in> set (accounts (db w))" "ac_id a = i" using findOwn_D [OF Some] by simp_all
  have "find (\<lambda>x. ac_id x = i) (accounts (db w)) = Some a"
    using account_table.ok_find [OF ok a(1)] a(2) by simp
  moreover have "filter (\<lambda>x. ac_id x \<noteq> i) (accounts (db w)) = removeAll a (accounts (db w))"
    unfolding removeAll_filter_not_eq
    using account_table.ok_same_key [OF ok _ a(1)] a(2) by (intro filter_cong) auto
  ultimately show ?thesis using Some
    by (simp add: accountsRemove_def act_simps deleteAccount_def deleteRow_def)
qed

lemma accountsRemove_exact_witness:
  "accountsRemove (js ''u1'') (js ''a1'') demoWorld =
     (Inr (), demoWorld\<lparr>db := demoDb\<lparr>accounts := [demoAccount (js ''a2'') (js ''u2'')]\<rparr>\<rparr>)"
proof -
  have "dbInv (db demoWorld)" using dbInv_demoDb by (simp add: demoWorld_def)
  from accountsRemove_exact [OF this, of "js ''u1''" "js ''a1''"] show ?thesis
    by (simp add: findOwnAccount_def demoWorld_def demoDb_def demoAccount_def)
qed

text \<open>
  C38: the body of a creation can name the owner. With the id of another user in it, the entry is
  stored in the vault of that user, encrypted under the key of the session that sent it.
\<close>

theorem create_in_foreign_vault:
  assumes "goodPlatform E" and "length key = 32" and "other \<in> u_id ` set (users (db w))"
    and "\<not> rejected E data" and "completeBody data" and "bd_userId data = Some other"
    and "bd_password data = Some (JStr p)"
    and "\<forall>a \<in> set (accounts (db w)). ac_id a \<noteq> orElse (bd_id data) (uuid E (Suc (draws w)))"
    and "\<forall>a \<in> set (accounts (db w)). ac_userId a = other \<longrightarrow> Some (ac_urlOrAppName a) \<noteq> bd_urlOrAppName data"
  shows "\<exists>row w'. accountsCreate E userId key data w = (Inr row, w') \<and> ac_userId row = other \<and>
    accounts (db w') = accounts (db w) @ [row]"
proof -
  obtain c row where row: "newAccountRow userId data (orElse (bd_id data) (uuid E (Suc (draws w)))) c (clock w) = Some row"
    and run: "accountsCreate E userId key data w =
      (let w1 = w\<lparr>draws := Suc (draws w) + (if bd_id data = None then 1 else 0)\<rparr> in
       case createAccount row (db w) of
         Inl e \<Rightarrow> (Inl (conflictOr (PrismaError e)), w1) | Inr d \<Rightarrow> (Inr row, w1\<lparr>db := d\<rparr>))"
    using run_create [OF assms(1,2,4,7,5), of w userId] by auto
  note fields = newAccountRow_fields [OF row]
  have "\<not> (\<exists>a \<in> set (accounts (db w)). account_clash a row)"
    using fields assms(6,8,9) by (auto simp: account_clash_def)
  then show ?thesis using run fields(2) assms(3,6) by (simp add: createAccount_cases)
qed

lemma create_in_foreign_vault_witness:
  "\<exists>row w'. accountsCreate demoEnv (js ''u1'') demoUserKey (demoBody\<lparr>bd_userId := Some (js ''u2'')\<rparr>) demoWorld = (Inr row, w') \<and>
     ac_userId row = js ''u2''"
proof -
  let ?b = "demoBody\<lparr>bd_userId := Some (js ''u2'')\<rparr>"
  have u: "js ''u2'' \<in> u_id ` set (users (db demoWorld))" by (simp add: demo_defs)
  have b: "\<not> rejected demoEnv ?b" "completeBody ?b" "bd_userId ?b = Some (js ''u2'')" "bd_password ?b = Some (JStr (js ''secret''))"
    by (simp_all add: demoBody_def rejected_def completeBody_def)
  have fresh: "\<forall>a \<in> set (accounts (db demoWorld)). ac_id a \<noteq> orElse (bd_id ?b) (uuid demoEnv (Suc (draws demoWorld)))"
    using demo_uuid by (simp add: demoWorld_def demoDb_def demoAccount_def demoBody_def)
  have url: "\<forall>a \<in> set (accounts (db demoWorld)). ac_userId a = js ''u2'' \<longrightarrow> Some (ac_urlOrAppName a) \<noteq> bd_urlOrAppName ?b"
    by (simp add: demoWorld_def demoDb_def demoAccount_def demoBody_def)
  show ?thesis
    using create_in_foreign_vault [OF goodPlatform_demo length_demoUserKey u b fresh url, of "js ''u1''"] by blast
qed

end
