(* ===== verification/RulesProperties.thy ===== *)
theory RulesProperties
  imports Rules
begin

text \<open>
  What the rule service guarantees: a stored rule reads back with its conditions, a change replaces
  exactly what the body gives, and every operation is confined to the mail accounts of the user.
\<close>

section \<open>Properties\<close>

lemma conditionsOf_append: "conditionsOf i (d\<lparr>ruleConditions := xs @ ys\<rparr>) =
    filter (\<lambda>c. co_ruleId c = i) xs @ filter (\<lambda>c. co_ruleId c = i) ys"
  by (simp add: conditionsOf_def)

text \<open>
  a change of a rule applies to a rule of the user's own mail accounts, sets the columns the
  body gives and, when the body brings conditions, makes exactly these the conditions of the rule,
  in their order, in place of all the old ones (for conditions that do not name their ids). A foreign rule counts as not found, a body the
  database client rejects changes nothing, and no other rule or condition is touched in any case.
\<close>

theorem rules_update_exact:
  assumes "worldInv w" and "freshConditions E (draws w) (db w)"
    and "list_all (\<lambda>c. ci_id c = None) (orElse (rb_conditions data) [])"
  shows "case findOwnRule userId i (db w) of
      None \<Rightarrow> rulesUpdate E userId i data w = (Inl (NotFoundException RuleNotFound), w)
    | Some r \<Rightarrow>
        if rb_invalid data then rulesUpdate E userId i data w = (Inl (PrismaError PValidation), w)
        else \<exists>cs n. rulesUpdate E userId i data w =
            (Inr \<lparr>rc_rule = changedRule data r, rc_conditions = filter (\<lambda>c. co_ruleId c = i) cs\<rparr>,
             w\<lparr>db := (db w)\<lparr>emailRules := map (\<lambda>x. if ru_id x = i then changedRule data x else x) (emailRules (db w)),
                             ruleConditions := cs\<rparr>, draws := n\<rparr>) \<and>
          filter (\<lambda>c. co_ruleId c \<noteq> i) cs = filter (\<lambda>c. co_ruleId c \<noteq> i) (ruleConditions (db w)) \<and>
          (case rb_conditions data of
             None \<Rightarrow> cs = ruleConditions (db w)
           | Some given \<Rightarrow> map inputOf (filter (\<lambda>c. co_ruleId c = i) cs) = given)"
proof (cases "findOwnRule userId i (db w)")
  case None
  then show ?thesis by (simp add: rulesUpdate_def act_simps)
next
  case (Some r)
  note r = findOwnRule_D [OF Some]
  have inv: "dbInv (db w)" using assms(1) by (simp add: worldInv_def)
  define old where "old = (case rb_conditions data of None \<Rightarrow> ruleConditions (db w)
    | Some _ \<Rightarrow> filter (\<lambda>c. co_ruleId c \<noteq> i) (ruleConditions (db w)))"
  let ?d1 = "(db w)\<lparr>ruleConditions := old\<rparr>"
  let ?m = "bindA (throwIf (rb_invalid data) (PrismaError PValidation)) (\<lambda>_.
        bindA (dbWriteR (updateRule i (changedRule data))) (\<lambda>row.
        bindA (insertConditions E i (orElse (rb_conditions data) [])) (\<lambda>_.
        dbQuery (\<lambda>d. withConditions d row))))"
  have start: "rulesUpdate E userId i data w = (case ?m (w\<lparr>db := ?d1\<rparr>) of
      (Inl e, w') \<Rightarrow> (Inl e, w'\<lparr>db := db w\<rparr>) | (Inr x, w') \<Rightarrow> (Inr x, w'))"
    using Some by (cases "rb_conditions data")
      (simp_all add: rulesUpdate_def act_simps old_def deleteConditionsOf_def split: prod.splits)
  show ?thesis
  proof (cases "rb_invalid data")
    case True
    then show ?thesis using Some start by (simp add: act_simps)
  next
    case False
    let ?d2 = "?d1\<lparr>emailRules := map (\<lambda>x. if ru_id x = i then changedRule data x else x) (emailRules ?d1)\<rparr>"
    let ?w2 = "w\<lparr>db := ?d2\<rparr>"
    have "dbInv ?d1"
      using dbInv_deleteConditionsOf [OF inv, of i] inv
      by (cases "rb_conditions data") (simp_all add: old_def deleteConditionsOf_def)
    then have up: "updateRule i (changedRule data) ?d1 = Inr (changedRule data r, ?d2)"
      using r by (intro updateRule_ok) simp_all
    have "freshConditions E (draws ?w2) (db ?w2)"
      using assms(2) by (auto simp: freshConditions_def old_def split: option.splits)
    moreover have "i \<in> ru_id ` set (emailRules (db ?w2))"
      using r(1,2) image_update_key [of ru_id "changedRule data" "\<lambda>x. ru_id x = i" "emailRules (db w)"]
      by (simp del: set_map) blast
    ultimately obtain new where ins: "insertConditions E i (orElse (rb_conditions data) []) ?w2 =
        (Inr (), ?w2\<lparr>db := (db ?w2)\<lparr>ruleConditions := old @ new\<rparr>, draws := draws w + length (orElse (rb_conditions data) [])\<rparr>)"
      and new: "map inputOf new = orElse (rb_conditions data) []" "\<forall>c \<in> set new. co_ruleId c = i"
      using run_insertConditions [of E ?w2 i "orElse (rb_conditions data) []"] assms(3) by auto
    have split: "filter (\<lambda>c. co_ruleId c \<noteq> i) new = []" "filter (\<lambda>c. co_ruleId c = i) new = new"
      using new(2) by (auto simp: filter_id_conv filter_empty_conv)
    have run: "rulesUpdate E userId i data w =
        (Inr \<lparr>rc_rule = changedRule data r, rc_conditions = filter (\<lambda>c. co_ruleId c = i) (old @ new)\<rparr>,
         w\<lparr>db := (db w)\<lparr>emailRules := map (\<lambda>x. if ru_id x = i then changedRule data x else x) (emailRules (db w)),
                         ruleConditions := old @ new\<rparr>,
           draws := draws w + length (orElse (rb_conditions data) [])\<rparr>)"
      using False up ins r(2) by (simp add: start act_simps withConditions_def conditionsOf_def)
    have kept: "filter (\<lambda>c. co_ruleId c \<noteq> i) (old @ new) = filter (\<lambda>c. co_ruleId c \<noteq> i) (ruleConditions (db w))"
      using split by (simp add: old_def split: option.split)
    have given: "case rb_conditions data of None \<Rightarrow> old @ new = ruleConditions (db w)
        | Some given \<Rightarrow> map inputOf (filter (\<lambda>c. co_ruleId c = i) (old @ new)) = given"
      using split new by (cases "rb_conditions data") (simp_all add: old_def)
    show ?thesis unfolding Some option.case if_not_P [OF False]
      using run kept given by (intro exI conjI)
  qed
qed

lemma rulesCreate_runs:
  assumes "dbInv (db w)" and "freshConditions E (draws w) (db w)"
    and "\<forall>r \<in> set (emailRules (db w)). ru_id r \<noteq> uuid E (draws w)"
    and "rb_emailAccountId data = Some a" and "rb_actionType data = Some act" and "\<not> rb_invalid data"
    and "list_all (\<lambda>c. ci_id c = None) (orElse (rb_conditions data) [])" and "ownedAccount userId a (db w)"
  shows "\<exists>rule new n. let d = (db w)\<lparr>emailRules := emailRules (db w) @ [rule],
        ruleConditions := ruleConditions (db w) @ new\<rparr> in
      rulesCreate E userId data w = (Inr (withConditions d rule), w\<lparr>db := d, draws := n\<rparr>) \<and>
      conditionsOf (ru_id rule) d = new \<and> map inputOf new = orElse (rb_conditions data) [] \<and>
      (\<forall>r \<in> set (emailRules (db w)). withConditions d r = withConditions (db w) r) \<and>
      rule = \<lparr>ru_id = uuid E (draws w), ru_emailAccountId = a, ru_logicalOperator = orElse (rb_logicalOperator data) OpAND,
        ru_actionType = act, ru_isActive = True, ru_createdAt = clock w\<rparr>"
proof -
  have found: "find (\<lambda>x. em_id x = a \<and> em_userId x = userId) (emailAccounts (db w)) \<noteq> None"
    using assms(8) by (auto simp: find_None_iff ownedAccount_def)
  let ?i = "uuid E (draws w)"
  let ?rule = "\<lparr>ru_id = ?i, ru_emailAccountId = a, ru_logicalOperator = orElse (rb_logicalOperator data) OpAND,
      ru_actionType = act, ru_isActive = True, ru_createdAt = clock w\<rparr>"
  let ?w = "w\<lparr>draws := Suc (draws w), db := (db w)\<lparr>emailRules := emailRules (db w) @ [?rule]\<rparr>\<rparr>"
  have new_rule: "createRule ?rule (db w) = Inr ((db w)\<lparr>emailRules := emailRules (db w) @ [?rule]\<rparr>)"
    using assms(3,8) by (auto simp: createRule_def createRow_def rule_clash_def ownedAccount_def)
  have "freshConditions E (draws ?w) (db ?w)" using assms(2) by (simp add: freshConditions_def)
  then obtain new where ins: "insertConditions E ?i (orElse (rb_conditions data) []) ?w =
      (Inr (), ?w\<lparr>db := (db ?w)\<lparr>ruleConditions := ruleConditions (db w) @ new\<rparr>,
                  draws := Suc (draws w) + length (orElse (rb_conditions data) [])\<rparr>)"
    and new: "map inputOf new = orElse (rb_conditions data) []" "\<forall>c \<in> set new. co_ruleId c = ?i"
    using run_insertConditions [of E ?w ?i "orElse (rb_conditions data) []"] assms(7) by auto
  let ?d = "(db w)\<lparr>emailRules := emailRules (db w) @ [?rule], ruleConditions := ruleConditions (db w) @ new\<rparr>"
  have none: "filter (\<lambda>c. co_ruleId c = ?i) (ruleConditions (db w)) = []"
    using dbInv_refs(5) [OF assms(1)] assms(3) by (auto simp: filter_empty_conv)
  have own: "conditionsOf ?i ?d = new" using none new(2) by (simp add: conditionsOf_append filter_id_conv)
  have old: "withConditions ?d r = withConditions (db w) r" if "r \<in> set (emailRules (db w))" for r
  proof -
    have "filter (\<lambda>c. co_ruleId c = ru_id r) new = []"
      using that assms(3) new(2) by (auto simp: filter_empty_conv)
    then show ?thesis by (simp add: withConditions_def conditionsOf_def)
  qed
  have run: "rulesCreate E userId data w = (Inr (withConditions ?d ?rule),
      w\<lparr>db := ?d, draws := Suc (draws w) + length (orElse (rb_conditions data) [])\<rparr>)"
    using found assms(4-6) new_rule ins by (simp add: rulesCreate_def act_simps Let_def)
  show ?thesis
    by (intro exI [of _ ?rule] exI [of _ new] exI [of _ "Suc (draws w) + length (orElse (rb_conditions data) [])"])
      (use run own old new(1) in \<open>simp add: Let_def\<close>)
qed

text \<open>
  a rule can be created exactly on a mail account of the user. It is stored as active with the
  operator and action of the body (\<open>AND\<close> when none is given), and the list of the user's rules then
  ends with it, together with exactly the conditions of the body in their order.
\<close>

theorem rules_create_listed:
  assumes "dbInv (db w)" and "freshConditions E (draws w) (db w)"
    and "\<forall>r \<in> set (emailRules (db w)). ru_id r \<noteq> uuid E (draws w)"
    and "rb_emailAccountId data = Some a" and "rb_actionType data = Some act" and "\<not> rb_invalid data"
    and "list_all (\<lambda>c. ci_id c = None) (orElse (rb_conditions data) [])"
  shows "if ownedAccount userId a (db w)
    then \<exists>row rule w'. rulesCreate E userId data w = (Inr row, w') \<and> rc_rule row = rule \<and>
      emailRules (db w') = emailRules (db w) @ [rule] \<and>
      ru_emailAccountId rule = a \<and> ru_actionType rule = act \<and> ru_isActive rule \<and>
      ru_logicalOperator rule = orElse (rb_logicalOperator data) OpAND \<and>
      map inputOf (rc_conditions row) = orElse (rb_conditions data) [] \<and>
      (\<exists>rows. fst (rulesFindAll userId (Some a) w) = Inr rows \<and>
              fst (rulesFindAll userId (Some a) w') = Inr (rows @ [row]))
    else rulesCreate E userId data w = (Inl (NotFoundException EmailAccountNotFound), w)"
proof (cases "ownedAccount userId a (db w)")
  case False
  then have "find (\<lambda>x. em_id x = a \<and> em_userId x = userId) (emailAccounts (db w)) = None"
    by (auto simp: find_None_iff ownedAccount_def)
  then show ?thesis using False assms(4) by (simp add: rulesCreate_def act_simps)
next
  case True
  from rulesCreate_runs [OF assms True] obtain rule new n d where
    d: "d = (db w)\<lparr>emailRules := emailRules (db w) @ [rule], ruleConditions := ruleConditions (db w) @ new\<rparr>"
    and run: "rulesCreate E userId data w = (Inr (withConditions d rule), w\<lparr>db := d, draws := n\<rparr>)"
    and own: "conditionsOf (ru_id rule) d = new" "map inputOf new = orElse (rb_conditions data) []"
    and old: "\<forall>r \<in> set (emailRules (db w)). withConditions d r = withConditions (db w) r"
    and rule: "rule = \<lparr>ru_id = uuid E (draws w), ru_emailAccountId = a,
      ru_logicalOperator = orElse (rb_logicalOperator data) OpAND, ru_actionType = act, ru_isActive = True,
      ru_createdAt = clock w\<rparr>"
    unfolding Let_def by blast
  let ?p = "\<lambda>r. ownedAccount userId (ru_emailAccountId r) (db w) \<and> (if truthy (Some a) then ru_emailAccountId r = a else True)"
  have list: "fst (rulesFindAll userId (Some a) w) = Inr (map (withConditions (db w)) (filter ?p (emailRules (db w))))"
    by (simp add: rulesFindAll_def act_simps)
  have same: "map (withConditions d) (filter ?p (emailRules (db w))) = map (withConditions (db w)) (filter ?p (emailRules (db w)))"
    using old by (intro map_cong refl) simp
  have "fst (rulesFindAll userId (Some a) (w\<lparr>db := d, draws := n\<rparr>)) =
      Inr (map (withConditions (db w)) (filter ?p (emailRules (db w))) @ [withConditions d rule])"
    using True same rule by (cases "a = []") (simp_all add: rulesFindAll_def act_simps d)
  with run list own True show ?thesis
    by (intro if_P [THEN iffD2, OF True] exI conjI) (auto simp: withConditions_def d rule)
qed

text \<open>
  a user can delete exactly the rules of his own mail accounts; with the rule go its conditions
  and its candidates, pending or handled, and nothing else.
\<close>

theorem rulesRemove_exact:
  "case findOwnRule userId i (db w) of
      None \<Rightarrow> rulesRemove userId i w = (Inl (NotFoundException RuleNotFound), w)
    | Some r \<Rightarrow> rulesRemove userId i w =
        (Inr (), w\<lparr>db := (db w)\<lparr>emailRules := filter (\<lambda>x. ru_id x \<noteq> i) (emailRules (db w)),
           ruleConditions := filter (\<lambda>c. co_ruleId c \<noteq> i) (ruleConditions (db w)),
           emailCandidates := filter (\<lambda>c. ca_ruleId c \<noteq> i) (emailCandidates (db w))\<rparr>\<rparr>)"
proof (cases "findOwnRule userId i (db w)")
  case None
  then show ?thesis by (simp add: rulesRemove_def act_simps)
next
  case (Some r)
  note r = findOwnRule_D [OF Some]
  then have "find (\<lambda>r. ru_id r = i) (emailRules (db w)) \<noteq> None" by (auto simp: find_None_iff)
  moreover have "ru_id ` set (filter (\<lambda>r. ru_id r = i) (emailRules (db w))) = {i}" using r by auto
  ultimately show ?thesis using Some
    by (auto simp: rulesRemove_def act_simps deleteRule_def cascadeRules_def)
qed

section \<open>Witnesses\<close>

definition demoRuleBody :: rule_body where
  "demoRuleBody =
     \<lparr>rb_emailAccountId = Some (js ''e1''), rb_logicalOperator = None, rb_actionType = Some (js ''important''),
      rb_isActive = None,
      rb_conditions = Some [\<lparr>ci_id = None, ci_conditionType = js ''has_emoji'', ci_conditionValue = JObj []\<rparr>], rb_invalid = False\<rparr>"

lemma demo_freshConditions: "freshConditions demoEnv (draws demoWorld) (db demoWorld)"
  by (auto simp: freshConditions_def demoEnv_def demoWorld_def demoDb_def demoCondition_def js_def inj_def)

lemma demo_findOwnRule: "findOwnRule (js ''u1'') (js ''r1'') (db demoWorld) = Some demoRule"
  by (simp add: findOwnRule_def ownedAccount_def demoWorld_def demoDb_def demoRule_def demoMailAccount_def)

lemma rules_update_exact_witness:
  "\<exists>row w'. rulesUpdate demoEnv (js ''u1'') (js ''r1'') demoRuleBody demoWorld = (Inr row, w') \<and>
     ru_actionType (rc_rule row) = js ''important'' \<and> map inputOf (rc_conditions row) = the (rb_conditions demoRuleBody)"
proof -
  have none: "list_all (\<lambda>c. ci_id c = None) (orElse (rb_conditions demoRuleBody) [])" by (simp add: demoRuleBody_def)
  have "\<not> rb_invalid demoRuleBody" "rb_conditions demoRuleBody = Some (the (rb_conditions demoRuleBody))"
    "ru_actionType (changedRule demoRuleBody demoRule) = js ''important''"
    by (simp_all add: demoRuleBody_def changedRule_def)
  then show ?thesis
    using rules_update_exact [OF worldInv_demoWorld demo_freshConditions none, of "js ''u1''" "js ''r1''"]
    unfolding demo_findOwnRule by (cases "rb_conditions demoRuleBody") auto
qed

lemma rules_create_listed_witness:
  "\<exists>row w'. rulesCreate demoEnv (js ''u1'') demoRuleBody demoWorld = (Inr row, w') \<and>
     emailRules (db w') = [demoRule, rc_rule row] \<and> ru_actionType (rc_rule row) = js ''important''"
proof -
  have inv: "dbInv (db demoWorld)" using worldInv_demoWorld by (simp add: worldInv_def)
  have "\<forall>r \<in> set (emailRules (db demoWorld)). ru_id r \<noteq> uuid demoEnv (draws demoWorld)"
    by (simp add: demoWorld_def demoDb_def demoRule_def demoEnv_def js_def)
  note exact = rules_create_listed [OF inv demo_freshConditions this, of demoRuleBody "js ''e1''" "js ''important''" "js ''u1''"]
  have "ownedAccount (js ''u1'') (js ''e1'') (db demoWorld)" "emailRules (db demoWorld) = [demoRule]"
    by (simp_all add: ownedAccount_def demoWorld_def demoDb_def demoMailAccount_def)
  with exact show ?thesis by (auto simp: demoRuleBody_def)
qed

end
