(* ===== verification/WebCrypto.thy ===== *)
theory WebCrypto
  imports Encoding
begin

text \<open>
  How the browser keeps a master password for a device: \<open>apps/web/src/lib/webauthn-crypto.ts\<close> and
  \<open>webauthn-storage.ts\<close>. The password is sealed under a key derived from the secret that the
  authenticator gives out for this credential, and the sealed form stays in the IndexedDB of the
  browser. WebCrypto, the randomness, the authenticator and a fault of IndexedDB are parameters
  (the record \<open>browser\<close>); \<open>btoa\<close>, \<open>atob\<close>, \<open>TextEncoder\<close> and \<open>TextDecoder\<close> are defined.
\<close>

section \<open>Base64 and text of the browser\<close>

text \<open>\<open>atob\<close> (the forgiving decoder of the HTML standard): white space is skipped, up to two signs of
  padding go when the length is a multiple of four; what is left must be in the alphabet and not
  have one character too many.\<close>

definition asciiSpace :: "16 word \<Rightarrow> bool" where
  "asciiSpace u \<longleftrightarrow> u \<in> {9, 10, 12, 13, 32}"

definition stripPad :: "jsstring \<Rightarrow> jsstring" where
  "stripPad s = (if s \<noteq> [] \<and> last s = base64Pad then butlast s else s)"

definition inAlphabet :: "16 word \<Rightarrow> bool" where
  "inAlphabet u \<longleftrightarrow> base64Value u \<noteq> None \<and> u \<noteq> 45 \<and> u \<noteq> 95"

definition fromBase64 :: "jsstring \<Rightarrow> byte list option" where
  "fromBase64 base64 =
     (let t = filter (\<lambda>u. \<not> asciiSpace u) base64;
          data = (if length t mod 4 = 0 then stripPad (stripPad t) else t) in
      if length data mod 4 = 1 \<or> \<not> list_all inAlphabet data then None
      else Some (base64Decode data))"

definition toBase64 :: "byte list \<Rightarrow> jsstring" where
  "toBase64 buffer = base64Encode buffer"

text \<open>\<open>new TextDecoder().decode\<close> drops a byte order mark at the start.\<close>

definition textDecode :: "byte list \<Rightarrow> jsstring" where
  "textDecode bs = (if take 3 bs = [0xEF, 0xBB, 0xBF] then utf8Decode (drop 3 bs) else utf8Decode bs)"

lemma inAlphabet_char: "n < 64 \<Longrightarrow> inAlphabet (base64Char n)"
  using base64_char_value(1) [of n] unat_base64Char [of n]
  by (auto simp: inAlphabet_def dest!: arg_cong [where f = unat] split: if_splits)

lemma inAlphabet_plain: "inAlphabet u \<Longrightarrow> \<not> asciiSpace u" "inAlphabet u \<Longrightarrow> u \<noteq> base64Pad"
  by (auto simp: inAlphabet_def asciiSpace_def base64Value_def base64Pad_def)

text \<open>What the encoder writes: characters of the alphabet, then the padding.\<close>

definition padded :: "jsstring \<Rightarrow> jsstring \<Rightarrow> nat \<Rightarrow> bool" where
  "padded s body k \<longleftrightarrow> s = body @ replicate k base64Pad \<and> k \<le> 2 \<and> list_all inAlphabet body \<and>
     (length body + k) mod 4 = 0 \<and> length body mod 4 \<noteq> 1"

lemma base64Encode_padded: "\<exists>body k. padded (base64Encode bs) body k"
proof (induction bs rule: base64Encode.induct)
  case 1
  have "padded (base64Encode []) [] 0" by (simp add: padded_def)
  then show ?case by blast
next
  case (2 a)
  have "padded (base64Encode [a]) [base64Char (unat a div 4), base64Char (unat a mod 4 * 16)] 2"
    by (simp add: padded_def inAlphabet_char base64_sextets numeral_2_eq_2)
  then show ?case by blast
next
  case (3 a b)
  have "padded (base64Encode [a, b]) [base64Char (unat a div 4), base64Char (unat a mod 4 * 16 + unat b div 16),
      base64Char (unat b mod 16 * 4)] 1"
    by (simp add: padded_def inAlphabet_char base64_sextets)
  then show ?case by blast
next
  case (4 a b c bs)
  then obtain body k where "padded (base64Encode bs) body k" by blast
  then have "padded (base64Encode (a # b # c # bs)) ([base64Char (unat a div 4),
      base64Char (unat a mod 4 * 16 + unat b div 16), base64Char (unat b mod 16 * 4 + unat c div 64),
      base64Char (unat c mod 64)] @ body) k"
    by (simp add: padded_def inAlphabet_char base64_sextets)
  then show ?case by blast
qed

lemma stripPad_padded:
  assumes "list_all inAlphabet body" and "k \<le> 2"
  shows "stripPad (stripPad (body @ replicate k base64Pad)) = body"
proof -
  have last: "last body \<noteq> base64Pad" if "body \<noteq> []"
    using assms(1) that inAlphabet_plain(2) [of "last body"] by (auto simp: list_all_iff)
  consider "k = 0" | "k = 1" | "k = 2" using assms(2) by linarith
  then show ?thesis
    by cases (use last in \<open>auto simp: stripPad_def numeral_2_eq_2 butlast_append\<close>)
qed

lemma base64Decode_padded:
  "padded s body k \<Longrightarrow> base64Decode s = base64Decode body"
  by (simp add: padded_def base64Decode_def List.map_filter_def base64Value_pad)

lemma fromBase64_toBase64 [simp]: "fromBase64 (toBase64 bs) = Some bs"
proof -
  obtain body k where s: "padded (base64Encode bs) body k" using base64Encode_padded by blast
  then have "list_all inAlphabet body" by (simp add: padded_def)
  then have keep: "filter (\<lambda>u. \<not> asciiSpace u) (body @ replicate k base64Pad) = body @ replicate k base64Pad"
    using inAlphabet_plain(1) by (auto simp: filter_id_conv list_all_iff asciiSpace_def base64Pad_def)
  have "base64Decode body = bs" using base64Decode_padded [OF s] by simp
  moreover have "stripPad (stripPad (body @ replicate k base64Pad)) = body"
    using s by (intro stripPad_padded) (simp_all add: padded_def)
  ultimately show ?thesis using s keep
    by (simp add: fromBase64_def toBase64_def padded_def Let_def)
qed

text \<open>A text without lone surrogates that does not start with a byte order mark comes back.\<close>

lemma textDecode_utf8Encode:
  assumes "wellFormed s" and "take 1 s \<noteq> [0xFEFF]"
  shows "textDecode (utf8Encode s) = s"
proof (cases "take 3 (utf8Encode s) = [0xEF, 0xBB, 0xBF]")
  case False
  then show ?thesis using assms(1) by (simp add: textDecode_def)
next
  case True
  let ?rest = "drop 3 (utf8Encode s)"
  have bytes: "utf8Encode s = [0xEF, 0xBB, 0xBF] @ ?rest" by (metis True append_take_drop_id)
  have "utf8CodePoints ([0xEF, 0xBB, 0xBF] @ ?rest) = 0xFEFF # utf8CodePoints ?rest"
    using utf8_three [of 15 59 63 ?rest] by (simp add: byteOf_def)
  moreover have "utf8CodePoints (utf8Encode s) = codePoints s"
    using assms(1) by (simp add: utf8Encode_def utf8CodePoints_utf8Encode wellFormed_def codePoints_bound)
  ultimately have "codePoints s = 0xFEFF # utf8CodePoints ?rest" using bytes by metis
  then have "s = utf16_of 0xFEFF @ concat (map utf16_of (utf8CodePoints ?rest))"
    by (metis codePoints_inverse concat.simps(2) list.map(2))
  moreover have "utf16_of 0xFEFF = [0xFEFF]" by (simp add: utf16_of_def codeUnit_def)
  ultimately obtain t where "s = 0xFEFF # t" by (metis append_Cons)
  then have "take 1 s = [0xFEFF]" by simp
  then show ?thesis using assms(2) by simp
qed

section \<open>What the browser provides\<close>

text \<open>
  The options a page hands to the authenticator are those of the server, or options of its own; the
  secret (\<open>prf\<close>) the authenticator returns with an assertion may be missing.
\<close>

record registration =
  rg_id :: jsstring
  rg_response :: json
  rg_prfEnabled :: bool

record assertion =
  as_id :: jsstring
  as_body :: json
  as_prf :: "byte list option"

record browser =
  hkdf :: "byte list \<Rightarrow> byte list \<Rightarrow> byte list \<Rightarrow> byte list"
  sha256 :: "byte list \<Rightarrow> byte list"
  subtleEncrypt :: "byte list \<Rightarrow> byte list \<Rightarrow> byte list \<Rightarrow> byte list"
  subtleDecrypt :: "byte list \<Rightarrow> byte list \<Rightarrow> byte list \<Rightarrow> byte list option"
  getRandomValues :: "nat \<Rightarrow> nat \<Rightarrow> byte list"
  base64Url :: "byte list \<Rightarrow> jsstring"
  supportsWebAuthn :: bool
  startRegistration :: "nat \<Rightarrow> jsstring \<Rightarrow> json \<Rightarrow> exn + registration"
  startAuthentication :: "nat \<Rightarrow> jsstring \<Rightarrow> json \<Rightarrow> byte list \<Rightarrow> exn + assertion"
  indexedDbFault :: "exn option"

text \<open>AES-GCM of WebCrypto, with a key of 256 bits and an initialisation vector of 12 bytes.\<close>

definition subtleLaw :: "browser \<Rightarrow> bool" where
  "subtleLaw B \<longleftrightarrow>
     (\<forall>n k. length (getRandomValues B n k) = k) \<and> (\<forall>secret salt info. length (hkdf B secret salt info) = 32) \<and>
     (\<forall>key iv m. length key = 32 \<longrightarrow> length iv = 12 \<longrightarrow> subtleDecrypt B key iv (subtleEncrypt B key iv m) = Some m)"

section \<open>Sealing the master password\<close>

definition HKDF_INFO :: "byte list" where
  "HKDF_INFO = utf8Encode (js ''account-manager:webauthn-master-password-wrap:v1'')"

definition HKDF_SALT :: "byte list" where
  "HKDF_SALT = utf8Encode (js ''account-manager:webauthn-prf-salt:v1'')"

definition getPrfEvalSalt :: "browser \<Rightarrow> byte list" where
  "getPrfEvalSalt B = sha256 B HKDF_SALT"

definition deriveWrappingKey :: "browser \<Rightarrow> byte list \<Rightarrow> byte list" where
  "deriveWrappingKey B prfOutput = hkdf B prfOutput HKDF_SALT HKDF_INFO"

record wrapped_secret =
  wr_iv :: jsstring
  wr_ciphertext :: jsstring

text \<open>The first argument after \<open>B\<close> is the number of the draw that yields the initialisation vector.\<close>

definition wrapMasterPassword :: "browser \<Rightarrow> nat \<Rightarrow> byte list \<Rightarrow> jsstring \<Rightarrow> wrapped_secret" where
  "wrapMasterPassword B n prfOutput masterPassword =
     (let key = deriveWrappingKey B prfOutput;
          iv = getRandomValues B n 12;
          ciphertext = subtleEncrypt B key iv (utf8Encode masterPassword) in
      \<lparr>wr_iv = toBase64 iv, wr_ciphertext = toBase64 ciphertext\<rparr>)"

text \<open>Text that is no base64, and data that the key does not open, make the browser throw.\<close>

definition unwrapMasterPassword :: "browser \<Rightarrow> byte list \<Rightarrow> wrapped_secret \<Rightarrow> exn + jsstring" where
  "unwrapMasterPassword B prfOutput wrapped =
     (let key = deriveWrappingKey B prfOutput in
      case fromBase64 (wr_iv wrapped) of
        None \<Rightarrow> Inl CryptoError
      | Some iv \<Rightarrow>
          (case fromBase64 (wr_ciphertext wrapped) of
             None \<Rightarrow> Inl CryptoError
           | Some ciphertext \<Rightarrow>
               (case subtleDecrypt B key iv ciphertext of
                  None \<Rightarrow> Inl CryptoError
                | Some plaintext \<Rightarrow> Inr (textDecode plaintext))))"

section \<open>The store of this browser\<close>

text \<open>The object store, keyed by \<open>credentialId\<close>: putting an entry replaces one with the same key.\<close>

record wrapped_master_password =
  wm_credentialId :: jsstring
  wm_wrapped :: wrapped_secret

definition storePut :: "wrapped_master_password \<Rightarrow> wrapped_master_password list \<Rightarrow> wrapped_master_password list" where
  "storePut entry st = filter (\<lambda>e. wm_credentialId e \<noteq> wm_credentialId entry) st @ [entry]"

definition storeRead :: "jsstring \<Rightarrow> wrapped_master_password list \<Rightarrow> wrapped_master_password option" where
  "storeRead credentialId st = find (\<lambda>e. wm_credentialId e = credentialId) st"

definition storeRemove :: "jsstring \<Rightarrow> wrapped_master_password list \<Rightarrow> wrapped_master_password list" where
  "storeRemove credentialId st = filter (\<lambda>e. wm_credentialId e \<noteq> credentialId) st"

section \<open>Properties\<close>

lemma storeRead_put:
  "storeRead c (storePut e st) = (if c = wm_credentialId e then Some e else storeRead c st)"
proof -
  have "find (\<lambda>x. wm_credentialId x = c) (filter (\<lambda>x. wm_credentialId x \<noteq> k) st @ [e]) =
      (if c = wm_credentialId e then Some e else find (\<lambda>x. wm_credentialId x = c) st)"
    if "k = wm_credentialId e" for k
    using that by (induction st) auto
  then show ?thesis by (simp add: storeRead_def storePut_def)
qed

lemma storeRead_remove: "storeRead c (storeRemove d st) = (if c = d then None else storeRead c st)"
  by (induction st) (auto simp: storeRead_def storeRemove_def)

lemma unwrapped:
  assumes "subtleLaw B" and "wellFormed password" and "take 1 password \<noteq> [0xFEFF]"
  shows "unwrapMasterPassword B prf (wrapMasterPassword B n prf password) = Inr password"
  using assms
  by (simp add: unwrapMasterPassword_def wrapMasterPassword_def Let_def subtleLaw_def deriveWrappingKey_def
      textDecode_utf8Encode)

text \<open>
  a master password sealed for a device comes back from the secret it was sealed with. The sealed
  form survives base64 on both sides, whatever bytes the cipher produced. Two kinds of text are the
  exception: lone surrogates, and a byte order mark at the start, which the decoder drops.
\<close>

theorem unwrap_wrap:
  assumes "subtleLaw B" and "wellFormed password" and "take 1 password \<noteq> [0xFEFF]"
  shows "unwrapMasterPassword B prf (wrapMasterPassword B n prf password) = Inr password"
  by (rule unwrapped [OF assms])

section \<open>An instance\<close>

text \<open>A browser whose cipher leaves the text as it is, with an authenticator that holds one credential.\<close>

definition demoBrowser :: browser where
  "demoBrowser =
     \<lparr>hkdf = (\<lambda>secret salt info. replicate 32 1), sha256 = (\<lambda>bs. []),
      subtleEncrypt = (\<lambda>key iv m. m), subtleDecrypt = (\<lambda>key iv c. Some c),
      getRandomValues = (\<lambda>n k. replicate k 0), base64Url = base64Encode, supportsWebAuthn = True,
      startRegistration = (\<lambda>n ch body. Inr \<lparr>rg_id = js ''cred'', rg_response = JNull, rg_prfEnabled = True\<rparr>),
      startAuthentication = (\<lambda>n ch body salt. Inr \<lparr>as_id = js ''cred'', as_body = JStr ch, as_prf = Some [1]\<rparr>),
      indexedDbFault = None\<rparr>"

lemma subtleLaw_demo: "subtleLaw demoBrowser"
  by (simp add: subtleLaw_def demoBrowser_def)

lemma unwrap_wrap_witness:
  "unwrapMasterPassword demoBrowser [1] (wrapMasterPassword demoBrowser 0 [1] (js ''password'')) = Inr (js ''password'')"
proof -
  have "take 1 (js ''password'') \<noteq> [0xFEFF]" by (simp add: js_def of_char_def)
  from unwrap_wrap [OF subtleLaw_demo wellFormed_js this] show ?thesis .
qed

end
