(* ===== verification/Browser.thy ===== *)
theory Browser
  imports WebCrypto WebAuthn
begin

text \<open>
  The browser side of a trusted device: \<open>apps/web/src/lib/webauthn.ts\<close>, the handlers of the login page
  \<open>app/login/page.tsx\<close> and the gate \<open>proxy.ts\<close> in front of every page. A page runs over the state of the
  server, the store of this browser and a count of the draws it makes; \<open>apiFetch\<close> runs a route of the
  server for the session of the browser's cookie and throws what the route throws.
\<close>

section \<open>State of a page\<close>

record page =
  server :: world
  stored :: "wrapped_master_password list"
  drawn :: nat

type_synonym 'a on_page = "(page, 'a) act"

definition apiFetch :: "'a action \<Rightarrow> 'a on_page" where
  "apiFetch m = (\<lambda>p. case m (server p) of (r, w) \<Rightarrow> (r, p\<lparr>server := w\<rparr>))"

definition nextRandom :: "nat on_page" where
  "nextRandom = (\<lambda>p. (Inr (drawn p), p\<lparr>drawn := Suc (drawn p)\<rparr>))"

section \<open>IndexedDB\<close>

definition openDb :: "browser \<Rightarrow> unit on_page" where
  "openDb B = (case indexedDbFault B of None \<Rightarrow> ret () | Some e \<Rightarrow> throw e)"

definition saveWrappedMasterPassword :: "browser \<Rightarrow> wrapped_master_password \<Rightarrow> unit on_page" where
  "saveWrappedMasterPassword B entry =
     bindA (openDb B) (\<lambda>_. modify (\<lambda>p. p\<lparr>stored := storePut entry (stored p)\<rparr>))"

definition getWrappedMasterPassword :: "browser \<Rightarrow> jsstring \<Rightarrow> wrapped_master_password option on_page" where
  "getWrappedMasterPassword B credentialId =
     bindA (openDb B) (\<lambda>_. gets (\<lambda>p. storeRead credentialId (stored p)))"

definition listWrappedCredentialIds :: "browser \<Rightarrow> jsstring list on_page" where
  "listWrappedCredentialIds B = bindA (openDb B) (\<lambda>_. gets (\<lambda>p. map wm_credentialId (stored p)))"

definition deleteWrappedMasterPassword :: "browser \<Rightarrow> jsstring \<Rightarrow> unit on_page" where
  "deleteWrappedMasterPassword B credentialId =
     bindA (openDb B) (\<lambda>_. modify (\<lambda>p. p\<lparr>stored := storeRemove credentialId (stored p)\<rparr>))"

section \<open>Devices\<close>

definition isWebAuthnSupported :: "browser \<Rightarrow> bool" where
  "isWebAuthnSupported B = supportsWebAuthn B"

definition hasStoredDevice :: "browser \<Rightarrow> bool on_page" where
  "hasStoredDevice B =
     (if \<not> isWebAuthnSupported B then ret False
      else bindA (listWrappedCredentialIds B) (\<lambda>ids. ret (length ids > 0)))"

text \<open>
  After the registration the new credential is asked once more, for its secret. The challenge of this
  second request is drawn in the browser and never checked.
\<close>

definition primingOptions :: "jsstring \<Rightarrow> json" where
  "primingOptions credentialId =
     JObj [(js ''allowCredentials'', JArr [JObj [(js ''id'', JStr credentialId), (js ''type'', JStr (js ''public-key''))]]),
           (js ''userVerification'', JStr (js ''required''))]"

definition primeThisDevice :: "browser \<Rightarrow> jsstring \<Rightarrow> jsstring \<Rightarrow> unit on_page" where
  "primeThisDevice B credentialId masterPassword =
     bindA nextRandom (\<lambda>n.
     bindA nextRandom (\<lambda>k.
     bindA (liftE (startAuthentication B k (base64Url B (getRandomValues B n 32))
              (primingOptions credentialId) (getPrfEvalSalt B))) (\<lambda>primingAssertion.
       case as_prf primingAssertion of
         None \<Rightarrow> ret ()
       | Some prfOutput \<Rightarrow>
           bindA nextRandom (\<lambda>m.
           saveWrappedMasterPassword B
             \<lparr>wm_credentialId = credentialId, wm_wrapped = wrapMasterPassword B m prfOutput masterPassword\<rparr>))))"

definition registerThisDevice ::
  "browser \<Rightarrow> env \<Rightarrow> jsstring \<Rightarrow> jsstring \<Rightarrow> jsstring \<Rightarrow> (jsstring \<times> bool) on_page" where
  "registerThisDevice B E sid deviceLabel masterPassword =
     bindA (apiFetch (webauthnRegisterOptions E sid)) (\<lambda>options.
     bindA nextRandom (\<lambda>n.
     bindA (liftE (startRegistration B n (wo_challenge options) (wo_body options))) (\<lambda>regResponse.
     bindA (apiFetch (webauthnRegister E sid (Some deviceLabel) (rg_response regResponse))) (\<lambda>(deviceId, _).
     bindA (if rg_prfEnabled regResponse then primeThisDevice B (rg_id regResponse) masterPassword else ret ()) (\<lambda>_.
     ret (deviceId, rg_prfEnabled regResponse))))))"

definition authenticateWithStoredDevice :: "browser \<Rightarrow> env \<Rightarrow> jsstring \<Rightarrow> (auth_response \<times> jsstring) on_page" where
  "authenticateWithStoredDevice B E sid =
     bindA (apiFetch (webauthnAuthenticateOptions E sid)) (\<lambda>options.
     bindA nextRandom (\<lambda>n.
     bindA (liftE (startAuthentication B n (wo_challenge options) (wo_body options) (getPrfEvalSalt B))) (\<lambda>assertion.
     bindA (getWrappedMasterPassword B (as_id assertion)) (\<lambda>wrapped.
       case (wrapped, as_prf assertion) of
         (Some entry, Some prfOutput) \<Rightarrow>
           bindA (liftE (unwrapMasterPassword B prfOutput (wm_wrapped entry))) (\<lambda>password.
           ret (\<lparr>ar_id = as_id assertion, ar_body = as_body assertion\<rparr>, password))
       | _ \<Rightarrow> throw (Error StoredDeviceNotFound)))))"

definition forgetThisDevice :: "browser \<Rightarrow> jsstring \<Rightarrow> unit on_page" where
  "forgetThisDevice B credentialId = deleteWrappedMasterPassword B credentialId"

section \<open>The login page\<close>

text \<open>What a handler of the page ends with: it moves on, or it shows the message of an error.\<close>

datatype outcome = GoTo jsstring | ShowError exn

definition guarded :: "outcome on_page \<Rightarrow> outcome on_page" where
  "guarded m = catchA m (\<lambda>e. ret (ShowError e))"

definition handleGoogleLogin :: "env \<Rightarrow> jsstring \<Rightarrow> outcome on_page" where
  "handleGoogleLogin E sid = guarded (bindA (apiFetch (googleStart E sid)) (\<lambda>url. ret (GoTo url)))"

definition handlePasswordSubmit :: "env \<Rightarrow> jsstring \<Rightarrow> jsstring option \<Rightarrow> jsstring \<Rightarrow> outcome on_page" where
  "handlePasswordSubmit E sid step password =
     guarded
       (bindA (if step = Some (js ''setup'')
               then bindA (apiFetch (setupRoute E sid (Some password))) (\<lambda>_. ret ())
               else apiFetch (unlockRoute E sid (Some password))) (\<lambda>_.
        ret (GoTo (js ''/''))))"

definition handleBiometricUnlock :: "browser \<Rightarrow> env \<Rightarrow> jsstring \<Rightarrow> outcome on_page" where
  "handleBiometricUnlock B E sid =
     guarded
       (bindA (authenticateWithStoredDevice B E sid) (\<lambda>(response, password).
        bindA (apiFetch (webauthnAuthenticate E sid (Some response) (Some password))) (\<lambda>_.
        ret (GoTo (js ''/'')))))"

section \<open>The gate in front of the pages\<close>

datatype gate = ToLogin | ToUnlock | ToPage

text \<open>\<open>reached\<close> tells whether the request to the server gets an answer at all.\<close>

definition proxy :: "bool \<Rightarrow> jsstring \<Rightarrow> gate on_page" where
  "proxy reached sid =
     bindA (if \<not> reached then ret None
            else catchA (bindA (apiFetch (meRoute sid)) (\<lambda>session. ret (Some session))) (\<lambda>_. ret None)) (\<lambda>session.
       case session of
         None \<Rightarrow> ret ToLogin
       | Some (userId, unlocked) \<Rightarrow>
           if \<not> truthy userId then ret ToLogin
           else if \<not> unlocked then ret ToUnlock
           else ret ToPage)"

end
