(* ===== verification/AuthProperties.thy ===== *)
theory AuthProperties
  imports Auth
begin

text \<open>
  What login, locking and the change of the master password guarantee, each property with a
  witness on the concrete server of the theory \<open>Demo\<close>.
\<close>

section \<open>Properties\<close>

text \<open>
  the state of the Google login is accepted once. A callback whose state is missing or is not
  the one the session holds is refused and changes nothing; one whose state matches uses it up,
  whether the login succeeds or not, so that no later callback of the session is accepted until a
  new login is started.
\<close>

theorem oauth_state_single_use:
  "if truthy state \<and> state = s_oauthState (sessions w sid)
   then let w' = snd (handleGoogleCallback E sid code state w) in
     s_oauthState (sessions w' sid) = None \<and>
     (\<forall>code2 state2. handleGoogleCallback E sid code2 state2 w' =
        (Inl (BadRequestException OAuthStateMismatch), w'))
   else handleGoogleCallback E sid code state w = (Inl (BadRequestException OAuthStateMismatch), w)"
proof (cases "truthy state \<and> state = s_oauthState (sessions w sid)")
  case True
  then have used: "s_oauthState (sessions (snd (handleGoogleCallback E sid code state w)) sid) = None"
    by (auto simp: run_handleGoogleCallback Let_def split: sum.split option.split)
  have "handleGoogleCallback E sid code2 state2 v = (Inl (BadRequestException OAuthStateMismatch), v)"
    if "s_oauthState (sessions v sid) = None" for code2 state2 v
    using that by (cases state2) (simp_all add: run_handleGoogleCallback)
  then show ?thesis using True used by (auto simp: Let_def)
next
  case False
  then show ?thesis by (auto simp: run_handleGoogleCallback)
qed

text \<open>
  a callback logs a session in only as a user whose Google subject is the verified one, and
  always leaves the session locked.
\<close>

theorem callback_logs_in_locked:
  assumes "handleGoogleCallback E sid code state w = (Inr LoggedIn, w')"
  shows "\<exists>profile u. exchangeCodeForProfile E code = Inr profile \<and> u \<in> set (users (db w)) \<and>
    u_googleSubId u = gp_sub profile \<and> s_userId (sessions w' sid) = Some (u_id u) \<and>
    \<not> s_unlocked (sessions w' sid) \<and> keyStore w' = keyStore w \<and> db w' = db w"
  using assms
  by (auto simp: run_handleGoogleCallback Let_def split: if_splits sum.splits option.splits dest!: find_Some_D)

lemma callback_logs_in_locked_witness:
  "s_userId (sessions (snd (handleGoogleCallback demoEnv (js ''s2'') (Some (js ''g1'')) (Some (js ''st''))
     (demoWorld\<lparr>sessions := (\<lambda>_. emptySession\<lparr>s_oauthState := Some (js ''st'')\<rparr>)\<rparr>))) (js ''s2'')) = Some (js ''u1'')"
proof -
  let ?w = "demoWorld\<lparr>sessions := (\<lambda>_. emptySession\<lparr>s_oauthState := Some (js ''st'')\<rparr>)\<rparr>"
  let ?r = "handleGoogleCallback demoEnv (js ''s2'') (Some (js ''g1'')) (Some (js ''st'')) ?w"
  have x: "exchangeCodeForProfile demoEnv (Some (js ''g1'')) = Inr \<lparr>gp_sub = js ''g1'', gp_email = js ''me''\<rparr>"
    by (simp add: exchangeCodeForProfile_def demoEnv_def)
  then have "?r = (Inr LoggedIn, snd ?r)"
    by (simp add: run_handleGoogleCallback demo_defs)
  from callback_logs_in_locked [OF this] show ?thesis
    unfolding x by (auto simp: demo_defs)
qed

text \<open>
  setting the master password up and unlocking with it are inverse. After a successful set-up
  the session is unlocked with a key of 32 bytes; unlocking any session with the same password
  then puts the same key in place, and with a password that does not verify it is refused and
  changes nothing.
\<close>

theorem setup_then_unlock:
  assumes "randomLaw E" and "argon2Law E"
    and "setupMasterPassword E sid (Some p) w = (Inr (userId, email), w')"
  shows "\<exists>key u. length key = 32 \<and> keyLive sid w' = Some key \<and> findUser userId (db w') = Some u \<and>
    s_userId (sessions w' sid) = Some userId \<and>
    (\<forall>sid2. \<exists>w2. unlock E sid2 userId (Some p) w' = (Inr (), w2) \<and> keyLive sid2 w2 = Some key) \<and>
    (\<forall>sid2 q. \<not> argon2Verify E (u_masterPasswordHash u) q \<longrightarrow>
       unlock E sid2 userId (Some q) w' = (Inl (UnauthorizedException MasterPasswordWrong), w'))"
proof -
  have "\<not> (truthy (s_userId (sessions w sid)) \<or> s_pendingGoogle (sessions w sid) = None \<or> tooShort (Some p))"
  proof
    assume "truthy (s_userId (sessions w sid)) \<or> s_pendingGoogle (sessions w sid) = None \<or> tooShort (Some p)"
    from setup_refused [OF this, of E] show False using assms(3) by simp
  qed
  then obtain g where ok: "\<not> truthy (s_userId (sessions w sid))" and g: "s_pendingGoogle (sessions w sid) = Some g"
    and p: "8 \<le> length p"
    using tooShort_iff [of "Some p"] by auto
  obtain key where key: "deriveKey E p (base64Encode (randomBytes E (draws w) 16)) = Inr key" "length key = 32"
    by (rule deriveKey_fresh [OF assms(1,2)])
  define u where "u = \<lparr>u_id = uuid E (Suc (Suc (draws w))), u_googleSubId = gp_sub g, u_googleEmail = gp_email g,
                u_masterPasswordHash = argon2Hash E ARGON2ID_OPTIONS (Suc (draws w)) p,
                u_masterKdfSalt = base64Encode (randomBytes E (draws w) 16), u_autoLockMinutes = 15,
                u_createdAt = clock w\<rparr>"
  obtain d where d: "createUser u (db w) = Inr d" and i: "userId = u_id u"
    and w': "w' = w\<lparr>draws := Suc (Suc (Suc (draws w))), db := d,
                sessions := (sessions w)(sid := (sessions w sid)\<lparr>s_pendingGoogle := None,
                  s_userId := Some (u_id u), s_unlocked := True\<rparr>),
                keyStore := storeSet sid key 15 (clock w) (keyStore w)\<rparr>"
    using assms(3) run_setupMasterPassword [OF ok g p, of E] key(1)
    by (auto simp: u_def Let_def split: sum.splits)
  have u: "findUser userId (db w') = Some u"
    using d user_table.find_created by (auto simp: findUser_def w' i createUser_def split: sum.splits)
  have verify: "argon2Verify E (u_masterPasswordHash u) p"
    using assms(2) by (simp add: u_def argon2Law_def)
  have derive: "deriveKey E p (u_masterKdfSalt u) = Inr key" using key(1) by (simp add: u_def)
  have live: "keyLive sid2 (x\<lparr>keyStore := storeSet sid2 key 15 (clock x) st, sessions := S\<rparr>) = Some key" for sid2 x st S
    by (simp add: keyLive_def storeSet_def)
  have "keyLive sid w' = Some key" by (simp add: w' keyLive_def storeSet_def)
  moreover have "unlock E sid2 userId (Some q) w' = (Inl (UnauthorizedException MasterPasswordWrong), w')"
    if "\<not> argon2Verify E (u_masterPasswordHash u) q" for sid2 q
    using that by (simp add: run_unlock u)
  moreover have "\<exists>w2. unlock E sid2 userId (Some p) w' = (Inr (), w2) \<and> keyLive sid2 w2 = Some key" for sid2
    using live [where x = w' and ?sid2.0 = sid2] verify derive by (simp add: run_unlock u) (simp add: u_def)
  moreover have "s_userId (sessions w' sid) = Some userId" by (simp add: w' i)
  ultimately show ?thesis using key(2) u by (intro exI [of _ key] exI [of _ u]) auto
qed

lemma setup_then_unlock_witness:
  "\<exists>userId w'. setupMasterPassword demoEnv (js ''s3'') (Some (js ''longenough''))
      (demoWorld\<lparr>sessions := (\<lambda>_. emptySession\<lparr>s_pendingGoogle := Some \<lparr>gp_sub = js ''g3'', gp_email = js ''x''\<rparr>\<rparr>)\<rparr>) =
      (Inr (userId, js ''x''), w') \<and>
    (\<exists>w2 key. unlock demoEnv (js ''s4'') userId (Some (js ''longenough'')) w' = (Inr (), w2) \<and>
       keyLive (js ''s4'') w2 = Some key \<and> keyLive (js ''s3'') w' = Some key)"
proof -
  let ?g = "\<lparr>gp_sub = js ''g3'', gp_email = js ''x''\<rparr>"
  let ?w = "demoWorld\<lparr>sessions := (\<lambda>_. emptySession\<lparr>s_pendingGoogle := Some ?g\<rparr>)\<rparr>"
  obtain key where key: "deriveKey demoEnv (js ''longenough'') (base64Encode (randomBytes demoEnv (draws ?w) 16)) = Inr key"
    by (rule deriveKey_fresh [OF randomLaw_demoEnv argon2Law_demoEnv])
  have "js ''u1'' \<noteq> uuid demoEnv n \<and> js ''u2'' \<noteq> uuid demoEnv n" for n
    by (cases n) (simp_all add: demoEnv_def js_def)
  then have "\<exists>i w'. setupMasterPassword demoEnv (js ''s3'') (Some (js ''longenough'')) ?w = (Inr (i, js ''x''), w')"
    using key by (subst run_setupMasterPassword [where g = ?g])
      (auto simp: demo_defs createUser_def createRow_def user_clash_def Let_def)
  then obtain i w' where *: "setupMasterPassword demoEnv (js ''s3'') (Some (js ''longenough'')) ?w = (Inr (i, js ''x''), w')"
    by blast
  then show ?thesis using setup_then_unlock [OF randomLaw_demoEnv argon2Law_demoEnv *] by blast
qed

text \<open>
  an unlock succeeds exactly when the user exists, the password verifies against the stored
  hash and a key can be derived; it then stores that key for this session with the lock time of
  the user. In every other case it throws and leaves the state of the server as it was.
\<close>

theorem unlock_exact:
  "(\<exists>u p key. findUser userId (db w) = Some u \<and> password = Some p \<and>
      argon2Verify E (u_masterPasswordHash u) p \<and> deriveKey E p (u_masterKdfSalt u) = Inr key \<and>
      unlock E sid userId password w =
        (Inr (), w\<lparr>keyStore := (keyStore w)(sid \<mapsto> \<lparr>ue_key = key, ue_autoLockMinutes = u_autoLockMinutes u,
                     ue_lastActivityAt = clock w\<rparr>),
                   sessions := (sessions w)(sid := (sessions w sid)\<lparr>s_unlocked := True\<rparr>)\<rparr>)) \<or>
   ((\<forall>u p key. findUser userId (db w) = Some u \<and> password = Some p \<and> argon2Verify E (u_masterPasswordHash u) p \<longrightarrow>
       deriveKey E p (u_masterKdfSalt u) \<noteq> Inr key) \<and>
    (\<exists>e. unlock E sid userId password w = (Inl e, w)))"
  by (cases "findUser userId (db w)"; cases password)
    (auto simp: run_unlock storeSet_def split: sum.split)

lemma unlock_exact_witness:
  "fst (unlock demoEnv (js ''s2'') (js ''u1'') (Some (js ''password'')) demoWorld) = Inr () \<and>
   fst (unlock demoEnv (js ''s2'') (js ''u1'') (Some (js ''wrong'')) demoWorld) =
     Inl (UnauthorizedException MasterPasswordWrong)"
proof -
  have u: "findUser (js ''u1'') (db demoWorld) = Some (demoUser (js ''u1'') (js ''g1''))"
    by (simp add: findUser_def demo_defs)
  have "argon2Verify demoEnv (104 # js ''password'') (js ''password'')" by (simp add: demoEnv_def)
  then have "fst (unlock demoEnv (js ''s2'') (js ''u1'') (Some (js ''password'')) demoWorld) = Inr ()"
    using unlock_exact [of "js ''u1''" demoWorld "Some (js ''password'')" demoEnv "js ''s2''"] u deriveKey_demo
    by (auto simp: demoUser_def)
  moreover have "fst (unlock demoEnv (js ''s2'') (js ''u1'') (Some (js ''wrong'')) demoWorld) =
     Inl (UnauthorizedException MasterPasswordWrong)"
    using u by (simp add: run_unlock demoUser_def demoEnv_def)
  ultimately show ?thesis ..
qed

text \<open>
  the lock time is accepted exactly when it is a whole number from 1 to 240; the setting then
  reads back as that number and applies at once to the key of the session. Anything else is a bad
  request that changes nothing.
\<close>

theorem lock_minutes_exact:
  assumes "dbInv (db w)" and "findUser userId (db w) = Some u"
  shows "(\<exists>m w'. v = JNum (Fin (of_int m)) \<and> 1 \<le> m \<and> m \<le> 240 \<and>
      updateAutoLockMinutes sid userId v w = (Inr (), w') \<and> fst (getSettings userId w') = Inr m \<and>
      keyStore w' = (keyStore w)(sid := map_option (\<lambda>e. e\<lparr>ue_autoLockMinutes := m\<rparr>) (keyStore w sid)) \<and>
      sessions w' = sessions w) \<or>
    ((\<forall>m. v = JNum (Fin (of_int m)) \<longrightarrow> m < 1 \<or> 240 < m) \<and>
      updateAutoLockMinutes sid userId v w = (Inl (BadRequestException AutoLockMinutesRange), w))"
proof (cases "lockMinutesOf v")
  case None
  then have "\<forall>m. v = JNum (Fin (of_int m)) \<longrightarrow> m < 1 \<or> 240 < m"
    using lockMinutesOf_iff [of v] by (metis not_less option.distinct(1))
  then show ?thesis using None by (simp add: updateAutoLockMinutes_def act_simps)
next
  case (Some m)
  then have m: "v = JNum (Fin (of_int m))" "1 \<le> m" "m \<le> 240" by (simp_all add: lockMinutesOf_iff)
  let ?f = "\<lambda>u. u\<lparr>u_autoLockMinutes := m\<rparr>"
  let ?d = "(db w)\<lparr>users := map (\<lambda>x. if u_id x = userId then ?f x else x) (users (db w))\<rparr>"
  have up: "updateUser userId ?f (db w) = Inr (?f u, ?d)"
    using assms(2) by (intro updateUser_ok assms(1)) (simp_all add: findUser_def)
  have "find (\<lambda>x. u_id x = userId) (users ?d) = map_option ?f (find (\<lambda>x. u_id x = userId) (users (db w)))"
    using find_map_update [of u_id ?f userId "users (db w)"] by simp
  then have find: "findUser userId ?d = Some (?f u)" using assms(2) by (simp only: findUser_def) simp
  let ?w = "w\<lparr>db := ?d, keyStore := storeUpdateAutoLockMinutes sid m (keyStore w)\<rparr>"
  have run: "updateAutoLockMinutes sid userId v w = (Inr (), ?w)"
    using Some up by (simp add: updateAutoLockMinutes_def act_simps)
  have "fst (getSettings userId ?w) = Inr m"
    using find by (simp add: getSettings_def act_simps)
  moreover have "storeUpdateAutoLockMinutes sid m (keyStore w) =
      (keyStore w)(sid := map_option (\<lambda>e. e\<lparr>ue_autoLockMinutes := m\<rparr>) (keyStore w sid))"
    by (rule ext) (simp add: storeUpdateAutoLockMinutes_def split: option.split)
  ultimately show ?thesis using m run by (intro disjI1 exI [of _ m] exI [of _ ?w]) simp
qed

lemma lock_minutes_exact_witness:
  "\<exists>w'. updateAutoLockMinutes (js ''s1'') (js ''u1'') (JNum (Fin 30)) demoWorld = (Inr (), w') \<and>
     fst (getSettings (js ''u1'') w') = Inr 30"
proof -
  have "findUser (js ''u1'') (db demoWorld) = Some (demoUser (js ''u1'') (js ''g1''))"
    by (simp add: findUser_def demo_defs)
  moreover have "dbInv (db demoWorld)" using dbInv_demoDb by (simp add: demoWorld_def)
  ultimately have "(\<exists>m w'. JNum (Fin 30) = JNum (Fin (of_int m)) \<and>
      updateAutoLockMinutes (js ''s1'') (js ''u1'') (JNum (Fin 30)) demoWorld = (Inr (), w') \<and>
      fst (getSettings (js ''u1'') w') = Inr m) \<or>
    (\<forall>m. JNum (Fin 30) = JNum (Fin (of_int m)) \<longrightarrow> m < 1 \<or> 240 < m)"
    using lock_minutes_exact [of demoWorld "js ''u1''" "demoUser (js ''u1'') (js ''g1'')" "JNum (Fin 30)" "js ''s1''"]
    by blast
  moreover have "\<not> (\<forall>m. JNum (Fin 30) = JNum (Fin (of_int m)) \<longrightarrow> m < 1 \<or> 240 < m)"
  proof
    assume "\<forall>m. JNum (Fin 30) = JNum (Fin (of_int m)) \<longrightarrow> m < 1 \<or> 240 < m"
    then have "JNum (Fin 30) = JNum (Fin (of_int 30)) \<longrightarrow> (30 :: int) < 1 \<or> 240 < (30 :: int)" by (rule spec)
    then show False by simp
  qed
  ultimately obtain m w' where m: "JNum (Fin 30) = JNum (Fin (of_int m))"
    and w': "updateAutoLockMinutes (js ''s1'') (js ''u1'') (JNum (Fin 30)) demoWorld = (Inr (), w')"
      "fst (getSettings (js ''u1'') w') = Inr m"
    by blast
  from m have "(of_int m :: rat) = of_int 30" by simp
  then have "m = 30" by (simp only: of_int_eq_iff)
  then show ?thesis using w' by blast
qed

lemma guard_passes:
  "(\<exists>x. fst (unlockedGuard sid w) = Inr x) \<longleftrightarrow>
     truthy (s_userId (sessions w sid)) \<and> s_unlocked (sessions w sid) \<and> keyLive sid w \<noteq> None"
  by (simp add: run_unlockedGuard split: bool.split option.split)

text \<open>
  \<open>/auth/me\<close> tells the truth: it reports a session as unlocked exactly when a request of
  that session made right afterwards would pass the unlocked guard, and it never unlocks.
\<close>

theorem me_reports_guard:
  assumes "worldInv w" and "meRoute sid w = (Inr (userId, unlocked), w')"
  shows "(unlocked \<longleftrightarrow> (\<exists>x. fst (unlockedGuard sid w') = Inr x)) \<and>
    (unlocked \<longleftrightarrow> (\<exists>x. fst (unlockedGuard sid w) = Inr x)) \<and> userId = s_userId (sessions w sid)"
proof -
  obtain r st where t: "storeTouch sid (clock w) (keyStore w) = (r, st)"
    by (cases "storeTouch sid (clock w) (keyStore w)")
  have r: "keyLive sid w = r" using t touch_keyLive [of sid w] by simp
  have "0 \<le> ue_autoLockMinutes e" if "keyStore w sid = Some e" for e
    using assms(1) that by (fastforce simp: worldInv_def keyStoreOk_def)
  then have again: "keyLive sid (w\<lparr>keyStore := st\<rparr>) = r"
    using t r by (auto simp: keyLive_def storeTouch_def Let_def split: option.splits if_splits)
  have u: "truthy (s_userId (sessions w sid))"
    using assms(2) by (auto simp: meRoute_def run_bindA run_loggedInGuard split: if_splits)
  have me: "meRoute sid w =
     (if \<not> s_unlocked (sessions w sid) then (Inr (s_userId (sessions w sid), False), w)
      else case r of
          None \<Rightarrow> (Inr (s_userId (sessions w sid), False),
            w\<lparr>keyStore := st, sessions := (sessions w)(sid := (sessions w sid)\<lparr>s_unlocked := False\<rparr>)\<rparr>)
        | Some _ \<Rightarrow> (Inr (s_userId (sessions w sid), True), w\<lparr>keyStore := st\<rparr>))"
    using t r u
    by (cases r) (simp_all add: meRoute_def act_simps run_loggedInGuard run_checkStillUnlocked Let_def)
  show ?thesis unfolding guard_passes
  proof (cases "s_unlocked (sessions w sid)")
    case True
    then show "(unlocked \<longleftrightarrow> truthy (s_userId (sessions w' sid)) \<and> s_unlocked (sessions w' sid) \<and> keyLive sid w' \<noteq> None) \<and>
      (unlocked \<longleftrightarrow> truthy (s_userId (sessions w sid)) \<and> s_unlocked (sessions w sid) \<and> keyLive sid w \<noteq> None) \<and>
      userId = s_userId (sessions w sid)"
      using assms(2) u again r by (cases r) (auto simp: me)
  next
    case False
    then show "(unlocked \<longleftrightarrow> truthy (s_userId (sessions w' sid)) \<and> s_unlocked (sessions w' sid) \<and> keyLive sid w' \<noteq> None) \<and>
      (unlocked \<longleftrightarrow> truthy (s_userId (sessions w sid)) \<and> s_unlocked (sessions w sid) \<and> keyLive sid w \<noteq> None) \<and>
      userId = s_userId (sessions w sid)"
      using assms(2) by (auto simp: me)
  qed
qed

lemma me_reports_guard_witness:
  "fst (meRoute (js ''s1'') demoWorld) = Inr (Some (js ''u1''), True) \<and>
   (\<exists>x. fst (unlockedGuard (js ''s1'') (snd (meRoute (js ''s1'') demoWorld))) = Inr x)"
proof -
  have *: "meRoute (js ''s1'') demoWorld = (Inr (Some (js ''u1''), True), snd (meRoute (js ''s1'') demoWorld))"
    by (simp add: meRoute_def act_simps run_loggedInGuard run_checkStillUnlocked Let_def keyLive_def demo_defs)
  then have "fst (meRoute (js ''s1'') demoWorld) = Inr (Some (js ''u1''), True)" by (metis fst_conv)
  then show ?thesis using me_reports_guard [OF worldInv_demoWorld *] by simp
qed

section \<open>The change of the master password\<close>

lemma list_all2_mapI: "(\<And>x. x \<in> set xs \<Longrightarrow> P x (f x)) \<Longrightarrow> list_all2 P xs (map f xs)"
  by (induction xs) auto


lemma demo_user: "findUser (js ''u1'') demoDb = Some (demoUser (js ''u1'') (js ''g1''))"
  by (simp add: findUser_def demo_defs)

lemma demo_verify: "argon2Verify demoEnv (u_masterPasswordHash (demoUser i g)) (js ''password'')"
  by (simp add: demoUser_def demoEnv_def)

lemma demo_derive: "deriveKey demoEnv (js ''password'') (u_masterKdfSalt (demoUser i g)) = Inr demoUserKey"
  by (simp add: demoUser_def deriveKey_demo)

lemma demo_decrypts:
  "\<forall>a \<in> set (accounts demoDb). ac_userId a = i \<longrightarrow>
     (\<exists>p. wellFormed p \<and> aesDecrypt demoEnv (ac_encryptedPassword a) demoUserKey = Inr p)"
proof -
  have "aesDecrypt demoEnv (demoSeal (js ''pw'') demoUserKey) demoUserKey = Inr (js ''pw'')"
    by (rule demo_open) (simp_all add: length_demoUserKey)
  then show ?thesis by (auto simp: demoDb_def demoAccount_def intro: exI [of _ "js ''pw''"])
qed


text \<open>
  C25: a change of the master password that fails, at whatever point, leaves the database, the
  keys in memory and every session as they were.
\<close>

theorem change_atomic:
  assumes "changeMasterPassword E sid userId cur new w = (Inl e, w')"
  shows "db w' = db w \<and> keyStore w' = keyStore w \<and> sessions w' = sessions w \<and> gmailLog w' = gmailLog w"
proof -
  have "w' = w\<lparr>draws := draws w'\<rparr>" using assms by (rule changeMasterPassword_fails)
  then show ?thesis by (cases w; cases w') simp
qed

lemma change_atomic_witness:
  "db (snd (changeMasterPassword demoEnv (js ''s1'') (js ''u1'') (Some (js ''wrong'')) (Some (js ''newpassword'')) demoWorld)) = demoDb"
proof -
  let ?r = "changeMasterPassword demoEnv (js ''s1'') (js ''u1'') (Some (js ''wrong'')) (Some (js ''newpassword'')) demoWorld"
  have "\<not> argon2Verify demoEnv (u_masterPasswordHash (demoUser i g)) (js ''wrong'')" for i g
    by (simp add: demoUser_def demoEnv_def)
  then have "?r = (Inl (UnauthorizedException CurrentMasterPasswordWrong), snd ?r)"
    using demo_user by (simp add: changeMasterPassword_def act_simps demoWorld_def)
  then have "db (snd ?r) = db demoWorld" using change_atomic by blast
  then show ?thesis by (simp add: demoWorld_def)
qed

text \<open>
  C36: a successful change only replaces the key of the session it was made in. Another session
  that was unlocked before still passes the guard afterwards, with the key derived from the old
  password, under which the stored passwords can no longer be read.
\<close>

theorem change_leaves_old_keys:
  assumes "changeMasterPassword E sid userId cur new w = (Inr n, w')" and "sid2 \<noteq> sid"
    and "fst (unlockedGuard sid2 w) = Inr (user2, oldKey)"
  shows "fst (unlockedGuard sid2 w') = Inr (user2, oldKey)"
proof -
  obtain u oldKey' newKey rows hash salt w2 where "findUser userId (db w) = Some u"
    and b: "changeBody E oldKey' newKey rows userId hash salt (w\<lparr>draws := Suc (Suc (draws w))\<rparr>) = (Inr n, w2)"
    and w': "w' = w2\<lparr>keyStore := storeSet sid newKey (u_autoLockMinutes u) (clock w2) (keyStore w2),
                 sessions := (sessions w2)(sid := (sessions w2 sid)\<lparr>s_unlocked := True\<rparr>)\<rparr>"
    by (rule changeMasterPassword_succeeds [OF assms(1)])
  have "onlyDb (w\<lparr>draws := Suc (Suc (draws w))\<rparr>) w2" by (rule preservesD [OF changeBody_onlyDb onlyDb_refl b])
  then have "sessions w' sid2 = sessions w sid2" and same: "keyStore w' sid2 = keyStore w sid2" "clock w' = clock w"
    using assms(2) by (simp_all add: w' onlyDb_def storeSet_def)
  moreover have "keyLive sid2 w' = keyLive sid2 w" by (simp only: keyLive_def same)
  ultimately show ?thesis using assms(3) by (simp add: unlockedGuard_pass)
qed

lemma change_leaves_old_keys_witness:
  "\<exists>n w'. changeMasterPassword demoEnv (js ''s2'') (js ''u1'') (Some (js ''password'')) (Some (js ''newpassword'')) demoWorld = (Inr n, w') \<and>
     fst (unlockedGuard (js ''s1'') w') = Inr (js ''u1'', demoUserKey)"
proof -
  obtain key where key: "deriveKey demoEnv (js ''newpassword'') (base64Encode (randomBytes demoEnv (draws demoWorld) 16)) = Inr key"
      "length key = 32"
    by (rule deriveKey_fresh [OF randomLaw_demoEnv argon2Law_demoEnv])
  have db: "db demoWorld = demoDb" by (simp add: demoWorld_def)
  have inv: "dbInv (db demoWorld)" and user: "findUser (js ''u1'') (db demoWorld) = Some (demoUser (js ''u1'') (js ''g1''))"
    using dbInv_demoDb demo_user by (simp_all add: db)
  have len: "8 \<le> length (js ''newpassword'')" by simp
  have dec: "\<forall>a \<in> set (filter (\<lambda>a. ac_userId a = js ''u1'') (accounts (db demoWorld))).
      \<exists>p. aesDecrypt demoEnv (ac_encryptedPassword a) demoUserKey = Inr p"
    using demo_decrypts [of "js ''u1''"] unfolding db set_filter by blast
  have "\<exists>n w'. changeMasterPassword demoEnv (js ''s2'') (js ''u1'') (Some (js ''password'')) (Some (js ''newpassword'')) demoWorld = (Inr n, w')"
    using run_changeMasterPassword [OF goodPlatform_demo inv user demo_verify len demo_derive key dec, of "js ''s2''"]
    by (elim exE conjE) (intro exI, assumption)
  moreover have "fst (unlockedGuard (js ''s1'') demoWorld) = Inr (js ''u1'', demoUserKey)"
    by (simp add: unlockedGuard_pass keyLive_def demo_defs)
  moreover have "js ''s1'' \<noteq> js ''s2''" by simp
  ultimately show ?thesis using change_leaves_old_keys by metis
qed

end
