(* ===== verification/BrowserProperties.thy ===== *)
theory BrowserProperties
  imports Browser AuthProperties
begin

text \<open>
  The browser and the server together: what the gate in front of the pages lets through, what a
  device registration stores, and that the login with a device ends in an unlocked session.
\<close>

lemma run_apiFetch [act_simps]:
  "apiFetch m p = (fst (m (server p)), p\<lparr>server := snd (m (server p))\<rparr>)"
  by (simp add: apiFetch_def split: prod.split)

lemma run_nextRandom [act_simps]: "nextRandom p = (Inr (drawn p), p\<lparr>drawn := Suc (drawn p)\<rparr>)"
  by (simp add: nextRandom_def)

lemma run_openDb [act_simps]:
  "openDb B p = (case indexedDbFault B of None \<Rightarrow> Inr () | Some e \<Rightarrow> Inl e, p)"
  by (cases "indexedDbFault B") (simp_all add: openDb_def act_simps)

section \<open>The gate\<close>

lemma proxy_result:
  "fst (proxy reached sid p) = Inr
     (if reached \<and> truthy (s_userId (sessions (server p) sid))
      then (if \<exists>x. fst (unlockedGuard sid (server p)) = Inr x then ToPage else ToUnlock) else ToLogin)"
proof -
  have "fst (meRoute sid w) =
     (if truthy (s_userId (sessions w sid))
      then Inr (s_userId (sessions w sid), s_unlocked (sessions w sid) \<and> keyLive sid w \<noteq> None)
      else Inl (UnauthorizedException LoginRequired))" for w
    by (simp add: meRoute_def run_bindA run_loggedInGuard run_checkStillUnlocked run_session run_ret Let_def split: option.split)
  then show ?thesis
    unfolding guard_passes
    by (cases "s_userId (sessions (server p) sid)") (auto simp: proxy_def act_simps)
qed

text \<open>
  the gate and the server agree. A page is shown exactly when a request of the same session would
  pass the unlocked guard; a session that is logged in but locked is sent to the unlock step, and every
  other one, or one whose server does not answer, to the login.
\<close>

theorem proxy_matches_guard:
  "fst (proxy reached sid p) = Inr
     (if reached \<and> truthy (s_userId (sessions (server p) sid))
      then (if \<exists>x. fst (unlockedGuard sid (server p)) = Inr x then ToPage else ToUnlock) else ToLogin)"
  by (rule proxy_result)

section \<open>Registration\<close>

lemma run_primeThisDevice:
  "primeThisDevice B cid password p =
     (let p2 = p\<lparr>drawn := Suc (Suc (drawn p))\<rparr> in
      case startAuthentication B (Suc (drawn p)) (base64Url B (getRandomValues B (drawn p) 32)) (primingOptions cid)
             (getPrfEvalSalt B) of
        Inl e \<Rightarrow> (Inl e, p2)
      | Inr a \<Rightarrow>
          (case as_prf a of
             None \<Rightarrow> (Inr (), p2)
           | Some prf \<Rightarrow>
               (case indexedDbFault B of
                  Some e \<Rightarrow> (Inl e, p2\<lparr>drawn := Suc (drawn p2)\<rparr>)
                | None \<Rightarrow> (Inr (), p2\<lparr>drawn := Suc (drawn p2), stored := storePut \<lparr>wm_credentialId = cid,
                    wm_wrapped = wrapMasterPassword B (drawn p2) prf password\<rparr> (stored p)\<rparr>))))"
  by (simp add: primeThisDevice_def saveWrappedMasterPassword_def act_simps Let_def split: sum.split option.split)

text \<open>Two actions that end alike and leave the same server, and entries for the same credentials.\<close>

definition alike :: "'a on_page \<Rightarrow> 'a on_page \<Rightarrow> bool" where
  "alike m n \<longleftrightarrow>
     (\<forall>p. fst (m p) = fst (n p) \<and> server (snd (m p)) = server (snd (n p)) \<and>
        map wm_credentialId (stored (snd (m p))) = map wm_credentialId (stored (snd (n p))))"

lemma alike_bindA: "(\<And>x. alike (f x) (g x)) \<Longrightarrow> alike (bindA m f) (bindA m g)"
  by (simp add: alike_def run_bindA split: prod.split sum.split)

lemma alike_first:
  assumes "alike m n"
  shows "alike (bindA m (\<lambda>_. ret y)) (bindA n (\<lambda>_. ret y))"
proof -
  have "fst (bindA m (\<lambda>_. ret y) p) = map_sum id (\<lambda>_. y) (fst (m p))" "snd (bindA m (\<lambda>_. ret y) p) = snd (m p)"
    for m :: "'a on_page" and p
    by (simp_all add: run_bindA run_ret split: prod.split sum.split)
  then show ?thesis using assms by (simp add: alike_def)
qed

lemma alike_primeThisDevice: "alike (primeThisDevice B cid password) (primeThisDevice B cid other)"
  by (simp add: alike_def run_primeThisDevice storePut_def Let_def split: sum.split option.split)

text \<open>
  registering a device does not check the master password, though the page asks for it \<open>to confirm\<close>.
  Whatever is typed, the registration ends in the same way, leaves the server in the same state and
  stores an entry for the same credential; with a wrong password the entry is useless.
\<close>

theorem registration_ignores_password:
  "fst (registerThisDevice B E sid label password p) = fst (registerThisDevice B E sid label other p) \<and>
   server (snd (registerThisDevice B E sid label password p)) = server (snd (registerThisDevice B E sid label other p)) \<and>
   map wm_credentialId (stored (snd (registerThisDevice B E sid label password p))) =
     map wm_credentialId (stored (snd (registerThisDevice B E sid label other p)))"
proof -
  have same: "alike m m" for m :: "'a on_page" by (simp add: alike_def)
  have "alike (registerThisDevice B E sid label password) (registerThisDevice B E sid label other)"
    unfolding registerThisDevice_def case_prod_unfold
    by (intro alike_bindA alike_first) (simp add: alike_primeThisDevice same)
  then show ?thesis unfolding alike_def by blast
qed

section \<open>Login with a device\<close>

text \<open>
  An authenticator that holds one credential: it registers under its id, and every assertion carries
  the signature for the challenge and the one secret of the credential. The library on the server
  accepts these signatures, and its challenges are not empty.
\<close>

definition holdsCredential :: "browser \<Rightarrow> jsstring \<Rightarrow> byte list \<Rightarrow> (jsstring \<Rightarrow> json) \<Rightarrow> bool" where
  "holdsCredential B cid secret sign \<longleftrightarrow>
     (\<forall>n ch body r. startRegistration B n ch body = Inr r \<longrightarrow> rg_id r = cid) \<and>
     (\<forall>n ch body. startAuthentication B n ch body (getPrfEvalSalt B) =
        Inr \<lparr>as_id = cid, as_body = sign ch, as_prf = Some secret\<rparr>)"

definition acceptsCredential :: "env \<Rightarrow> jsstring \<Rightarrow> (jsstring \<Rightarrow> json) \<Rightarrow> bool" where
  "acceptsCredential E cid sign \<longleftrightarrow>
     (\<forall>r ch c. verifyRegistrationResponse E r ch (RP_ORIGIN E) (RP_ID E) = Inr (Some c) \<longrightarrow> wc_id c = cid) \<and>
     (\<forall>ch c. wc_id c = cid \<longrightarrow> (\<exists>n. verifyAuthenticationResponse E \<lparr>ar_id = cid, ar_body = sign ch\<rparr> ch
        (RP_ORIGIN E) (RP_ID E) c = Inr (True, n))) \<and>
     (\<forall>n q. wo_challenge (generateAuthenticationOptions E n q) \<noteq> [])"

lemma acceptsCredential_D:
  "acceptsCredential E cid sign \<Longrightarrow> wc_id c = cid \<Longrightarrow>
   \<exists>n. verifyAuthenticationResponse E \<lparr>ar_id = cid, ar_body = sign ch\<rparr> ch (RP_ORIGIN E) (RP_ID E) c = Inr (True, n)"
  by (simp add: acceptsCredential_def)

text \<open>What a registration leaves on the server.\<close>

definition userStays :: "jsstring \<Rightarrow> user_row list \<Rightarrow> jsstring \<Rightarrow> world \<Rightarrow> bool" where
  "userStays sid us userId w \<longleftrightarrow> users (db w) = us \<and> s_userId (sessions w sid) = Some userId"

lemma userStays_effects:
  "(\<And>s. s_userId (f s) = s_userId s) \<Longrightarrow> preserves (userStays sid us u) (setSession sid f)"
  "preserves (userStays sid us u) (keyTouch sid)" "preserves (userStays sid us u) nextDraw"
  "preserves (userStays sid us u) (dbWrite (createDevice r))"
  by (auto simp: preserves_def userStays_def run_setSession run_keyTouch run_nextDraw run_dbWrite createDevice_def
      split: prod.split sum.split sum.splits)

lemma userStays_routes:
  "preserves (userStays sid us u) (unlockedGuard sid)" "preserves (userStays sid us u) (webauthnRegisterOptions E sid)"
  "preserves (userStays sid us u) (takeChallenge sid m)" "preserves (userStays sid us u) (verifyRegistration E v l ch r)"
proof -
  show guard: "preserves (userStays sid us u) (unlockedGuard sid)"
    unfolding unlockedGuard_def loggedInGuard_def currentUserId_def
    by (intro preserves_intros userStays_effects) (auto split: bool.split option.split intro!: preserves_intros userStays_effects)
  show "preserves (userStays sid us u) (webauthnRegisterOptions E sid)"
    unfolding webauthnRegisterOptions_def createRegistrationOptions_def
    by (intro preserves_intros userStays_effects guard) simp
  show "preserves (userStays sid us u) (takeChallenge sid m)"
    unfolding takeChallenge_def by (intro preserves_intros userStays_effects) simp
  show "preserves (userStays sid us u) (verifyRegistration E v l ch r)"
    unfolding verifyRegistration_def freshId_def Let_def by (intro preserves_intros userStays_effects)
qed

lemma verifyRegistration_ok:
  assumes "verifyRegistration E userId label ch response w = (Inr device, w')"
  shows "device \<in> set (trustedDevices (db w')) \<and> td_userId device = userId \<and>
    (\<exists>c. verifyRegistrationResponse E response ch (RP_ORIGIN E) (RP_ID E) = Inr (Some c) \<and>
       td_webauthnCredentialId device = wc_id c)"
  using assms
  by (auto simp: verifyRegistration_def act_simps Let_def createDevice_def createRow_def
      split: sum.splits option.splits if_splits)

lemma webauthnRegister_ok:
  assumes "webauthnRegister E sid label response w = (Inr x, w')" and "s_userId (sessions w sid) = Some userId"
  shows "users (db w') = users (db w) \<and> (\<exists>device \<in> set (trustedDevices (db w')). td_userId device = userId \<and>
    (\<exists>ch c. verifyRegistrationResponse E response ch (RP_ORIGIN E) (RP_ID E) = Inr (Some c) \<and>
       td_webauthnCredentialId device = wc_id c))"
proof -
  obtain u k v ch v2 device where g: "unlockedGuard sid w = (Inr (u, k), v)"
    and t: "takeChallenge sid CallRegisterOptionsFirst v = (Inr ch, v2)"
    and r: "verifyRegistration E u label ch response v2 = (Inr device, w')"
    using assms(1) by (auto simp: webauthnRegister_def run_bindA run_ret split: prod.splits sum.splits)
  have "fst (unlockedGuard sid w) = Inr (u, k)" using g by simp
  then have "u = userId" using assms(2) by (simp add: unlockedGuard_pass)
  moreover have "userStays sid (users (db w)) userId w" using assms(2) by (simp add: userStays_def)
  then have "userStays sid (users (db w)) userId w'"
    using userStays_routes(1,3,4) g t r by (metis preservesD)
  ultimately show ?thesis using verifyRegistration_ok [OF r] by (auto simp: userStays_def)
qed

lemma register_stores:
  assumes "worldInv (server p)" and "indexedDbFault B = None" and "holdsCredential B cid secret sign"
    and "acceptsCredential E cid sign" and "s_userId (sessions (server p) sid) = Some userId"
    and "registerThisDevice B E sid label password p = (Inr (d, True), p1)"
  shows "worldInv (server p1) \<and> users (db (server p1)) = users (db (server p)) \<and>
    (\<exists>device \<in> set (trustedDevices (db (server p1))). td_userId device = userId \<and> td_webauthnCredentialId device = cid) \<and>
    (\<exists>n. storeRead cid (stored p1) =
       Some \<lparr>wm_credentialId = cid, wm_wrapped = wrapMasterPassword B n secret password\<rparr>)"
proof -
  obtain options w1 where o: "webauthnRegisterOptions E sid (server p) = (Inr options, w1)"
    using assms(6) by (cases "webauthnRegisterOptions E sid (server p)"; cases "fst (webauthnRegisterOptions E sid (server p))")
      (auto simp: registerThisDevice_def run_bindA run_apiFetch)
  obtain reg where s: "startRegistration B (drawn p) (wo_challenge options) (wo_body options) = Inr reg"
    using assms(6) o by (cases "startRegistration B (drawn p) (wo_challenge options) (wo_body options)")
      (auto simp: registerThisDevice_def run_bindA run_apiFetch run_nextRandom run_liftE)
  obtain x w2 where r: "webauthnRegister E sid (Some label) (rg_response reg) w1 = (Inr x, w2)"
    using assms(6) o s by (cases "webauthnRegister E sid (Some label) (rg_response reg) w1";
        cases "fst (webauthnRegister E sid (Some label) (rg_response reg) w1)")
      (auto simp: registerThisDevice_def run_bindA run_apiFetch run_nextRandom run_liftE)
  let ?p2 = "p\<lparr>drawn := Suc (drawn p), server := w2\<rparr>"
  have prime: "rg_prfEnabled reg" "primeThisDevice B (rg_id reg) password ?p2 = (Inr (), p1)"
    using assms(6) o s r
    by (auto simp: registerThisDevice_def run_bindA run_apiFetch run_nextRandom run_liftE run_ret
        split: prod.splits sum.splits if_splits)
  have cid: "rg_id reg = cid" using assms(3) s by (simp add: holdsCredential_def)
  obtain b where "startAuthentication B (Suc (drawn ?p2)) (base64Url B (getRandomValues B (drawn ?p2) 32))
      (primingOptions cid) (getPrfEvalSalt B) = Inr \<lparr>as_id = cid, as_body = b, as_prf = Some secret\<rparr>"
    using assms(3) by (simp add: holdsCredential_def)
  then have p1: "server p1 = w2" "stored p1 = storePut \<lparr>wm_credentialId = cid,
      wm_wrapped = wrapMasterPassword B (Suc (Suc (Suc (drawn p)))) secret password\<rparr> (stored p)"
    using prime(2) by (auto simp: run_primeThisDevice cid Let_def assms(2))
  have "userStays sid (users (db (server p))) userId (server p)" using assms(5) by (simp add: userStays_def)
  then have w1: "userStays sid (users (db (server p))) userId w1"
    using userStays_routes(2) o by (metis preservesD)
  have "worldInv w1" by (rule preservesD [OF worldInv_webauthnRegisterOptions assms(1) o])
  then have "worldInv w2" using r by (rule preservesD [OF worldInv_webauthnRegister])
  moreover have "users (db w2) = users (db (server p)) \<and>
      (\<exists>device \<in> set (trustedDevices (db w2)). td_userId device = userId \<and> td_webauthnCredentialId device = cid)"
    using webauthnRegister_ok [OF r] w1 assms(4) unfolding userStays_def acceptsCredential_def by metis
  moreover have "storeRead cid (stored p1) = Some \<lparr>wm_credentialId = cid,
      wm_wrapped = wrapMasterPassword B (Suc (Suc (Suc (drawn p)))) secret password\<rparr>"
    by (simp add: p1(2) storeRead_put)
  ultimately show ?thesis using p1(1) by blast
qed

lemma find_the_one:
  assumes "x \<in> set xs" and "P x" and "\<And>y. y \<in> set xs \<Longrightarrow> P y \<Longrightarrow> y = x"
  shows "find P xs = Some x"
proof (cases "find P xs")
  case None
  then show ?thesis using find_None_D [OF None assms(1)] assms(2) by simp
next
  case (Some y)
  then show ?thesis using assms(3) [of y] find_Some_D [OF Some] by simp
qed

text \<open>One answer of the authenticator to a fresh challenge of the server.\<close>

lemma authenticate_accepted:
  assumes "dbInv (db w)" and "device \<in> set (trustedDevices (db w))" and "td_webauthnCredentialId device = cid"
    and "acceptsCredential E cid sign" and "s_currentWebauthnChallenge (sessions w sid) = Some ch" and "ch \<noteq> []"
  shows "\<exists>n. webauthnAuthenticate E sid (Some \<lparr>ar_id = cid, ar_body = sign ch\<rparr>) password w =
    unlock E sid (td_userId device) password (w\<lparr>db := (db w)\<lparr>trustedDevices := map (\<lambda>x. if td_id x = td_id device
        then x\<lparr>td_counter := n, td_lastUsedAt := Some (clock w)\<rparr> else x) (trustedDevices (db w))\<rparr>,
      sessions := (sessions w)(sid := (sessions w sid)\<lparr>s_currentWebauthnChallenge := None,
        s_userId := Some (td_userId device)\<rparr>)\<rparr>)"
proof -
  let ?r = "\<lparr>ar_id = cid, ar_body = sign ch\<rparr>"
  let ?w1 = "w\<lparr>sessions := (sessions w)(sid := (sessions w sid)\<lparr>s_currentWebauthnChallenge := None\<rparr>)\<rparr>"
  have ok: "okTable device_clash (trustedDevices (db w))" by (rule dbInv_tables(2) [OF assms(1)])
  have find: "find (\<lambda>x. td_webauthnCredentialId x = cid) (trustedDevices (db w)) = Some device"
  proof (rule find_the_one [OF assms(2), where P = "\<lambda>x. td_webauthnCredentialId x = cid", OF assms(3)])
    fix x assume x: "x \<in> set (trustedDevices (db w))" "td_webauthnCredentialId x = cid"
    show "x = device" using x(2) assms(3) by (intro device_table.ok_clash_eq [OF ok x(1) assms(2)]) (simp add: device_clash_def)
  qed
  let ?c = "\<lparr>wc_id = td_webauthnCredentialId device, wc_publicKey = base64Decode (td_webauthnPublicKey device),
      wc_counter = td_counter device\<rparr>"
  obtain n where n: "verifyAuthenticationResponse E ?r ch (RP_ORIGIN E) (RP_ID E) ?c = Inr (True, n)"
    using acceptsCredential_D [OF assms(4), of ?c ch] assms(3) by auto
  let ?f = "\<lambda>x. x\<lparr>td_counter := n, td_lastUsedAt := Some (clock w)\<rparr>"
  have "updateDevice (td_id device) ?f (db w) = Inr (?f device, (db w)\<lparr>trustedDevices :=
      map (\<lambda>x. if td_id x = td_id device then ?f x else x) (trustedDevices (db w))\<rparr>)"
    by (rule updateDevice_ok [OF assms(1) device_table.ok_find [OF ok assms(2)]]) simp_all
  then show ?thesis using n find assms(5,6)
    by (intro exI [of _ n]) (simp add: webauthnAuthenticate_def verifyAuthentication_def act_simps Let_def assms(3))
qed


section \<open>Witness\<close>

definition demoPage :: page where
  "demoPage = \<lparr>server = demoWorld, stored = [], drawn = 0\<rparr>"

lemma demo_options:
  "\<exists>options w. webauthnRegisterOptions demoEnv (js ''s1'') demoWorld = (Inr options, w) \<and> db w = demoDb \<and>
     sessions w (js ''s1'') = demoSession\<lparr>s_currentWebauthnChallenge := Some [99]\<rparr> \<and>
     keyLive (js ''s1'') w = Some demoUserKey"
proof -
  have "wo_challenge (generateRegistrationOptions demoEnv 0 q) = [99]" for q by (simp add: demoEnv_def)
  then show ?thesis
    by (simp add: webauthnRegisterOptions_def createRegistrationOptions_def act_simps run_unlockedGuard keyLive_def
        demoWorld_def demoSession_def emptySession_def demo_user storeTouch_def)
qed

lemma demo_registered:
  assumes "db w = demoDb" and "sessions w (js ''s1'') = demoSession\<lparr>s_currentWebauthnChallenge := Some [99]\<rparr>"
    and "keyLive (js ''s1'') w = Some demoUserKey"
  shows "\<exists>x w'. webauthnRegister demoEnv (js ''s1'') (Some (js ''phone'')) JNull w = (Inr x, w')"
proof -
  have "verifyRegistrationResponse demoEnv r ch orig rp =
      Inr (Some \<lparr>wc_id = js ''cred'', wc_publicKey = [1, 2, 3], wc_counter = 0\<rparr>)" for r ch orig rp
    by (simp add: demoEnv_def)
  moreover have "js ''d1'' \<noteq> uuid demoEnv n" for n by (cases n) (simp_all add: demoEnv_def js_def)
  ultimately show ?thesis using assms
    by (simp add: webauthnRegister_def verifyRegistration_def act_simps run_unlockedGuard Let_def demoSession_def
        createDevice_def createRow_def demoDb_def device_clash_def demoDevice_def demoUser_def)
qed

lemma demo_register:
  "\<exists>d p1. registerThisDevice demoBrowser demoEnv (js ''s1'') (js ''phone'') (js ''password'') demoPage = (Inr (d, True), p1)"
proof -
  obtain options w1 where o: "webauthnRegisterOptions demoEnv (js ''s1'') demoWorld = (Inr options, w1)" "db w1 = demoDb"
    "sessions w1 (js ''s1'') = demoSession\<lparr>s_currentWebauthnChallenge := Some [99]\<rparr>"
    "keyLive (js ''s1'') w1 = Some demoUserKey"
    using demo_options by blast
  obtain x w2 where "webauthnRegister demoEnv (js ''s1'') (Some (js ''phone'')) JNull w1 = (Inr x, w2)"
    using demo_registered [OF o(2-4)] by blast
  with o(1) show ?thesis
    by (cases x) (simp add: registerThisDevice_def act_simps demoPage_def demoBrowser_def run_primeThisDevice Let_def)
qed


end
