(* ===== verification/RuleForm.thy ===== *)
theory RuleForm
  imports Browser RulesProperties "HOL-Library.AList"
begin

text \<open>
  The page of the mail rules, \<open>app/(app)/mail/rules/page.tsx\<close>: the form a rule is made and changed
  with, and the handlers around it. A condition in the form is a JavaScript object, kept as its fields
  in order: a condition of a stored rule comes in with every column of its row. What a user can do is
  what the form offers, so the bounds the server leaves to the form are a fact about it.
\<close>

section \<open>The state of the form\<close>

type_synonym form_condition = "(jsstring \<times> json) list"

definition CONDITION_TYPES :: "jsstring list" where
  "CONDITION_TYPES =
     [js ''sender'', js ''subject_keyword'', js ''body_keyword'', js ''has_emoji'', js ''has_attachment'']"

definition ACTION_TYPES :: "jsstring list" where
  "ACTION_TYPES = [js ''delete_candidate'', js ''spam_candidate'', js ''important'']"

text \<open>A condition as \<open>findAll\<close> sends it, and the one a new line of the form starts with.\<close>

definition conditionFields :: "condition_row \<Rightarrow> form_condition" where
  "conditionFields c =
     [(js ''id'', JStr (co_id c)), (js ''ruleId'', JStr (co_ruleId c)),
      (js ''conditionType'', JStr (co_conditionType c)), (js ''conditionValue'', co_conditionValue c)]"

definition newCondition :: form_condition where
  "newCondition = [(js ''conditionType'', JStr (js ''sender'')), (js ''conditionValue'', JObj [])]"

record rule_form =
  fm_emailAccountId :: jsstring
  fm_initialRule :: "rule_with_conditions option"
  fm_conditions :: "form_condition list"
  fm_error :: "exn option"

definition ruleForm :: "jsstring \<Rightarrow> rule_with_conditions option \<Rightarrow> rule_form" where
  "ruleForm emailAccountId initialRule =
     \<lparr>fm_emailAccountId = emailAccountId, fm_initialRule = initialRule,
      fm_conditions = (case initialRule of None \<Rightarrow> [newCondition] | Some r \<Rightarrow> map conditionFields (rc_conditions r)),
      fm_error = None\<rparr>"

section \<open>Editing\<close>

text \<open>\<open>{ ...c, ...patch }\<close>: a field that exists keeps its place, a new one comes last.\<close>

definition spread :: "form_condition \<Rightarrow> form_condition \<Rightarrow> form_condition" where
  "spread c patch = fold (\<lambda>(k, v). AList.update k v) patch c"

definition updateCondition :: "nat \<Rightarrow> form_condition \<Rightarrow> rule_form \<Rightarrow> rule_form" where
  "updateCondition index patch f =
     f\<lparr>fm_conditions := map (\<lambda>(i, c). if i = index then spread c patch else c) (enumerate 0 (fm_conditions f))\<rparr>"

definition addCondition :: "rule_form \<Rightarrow> rule_form" where
  "addCondition f =
     (if length (fm_conditions f) \<ge> 5 then f else f\<lparr>fm_conditions := fm_conditions f @ [newCondition]\<rparr>)"

definition removeCondition :: "nat \<Rightarrow> rule_form \<Rightarrow> rule_form" where
  "removeCondition index f =
     f\<lparr>fm_conditions := map snd (filter (\<lambda>(i, _). i \<noteq> index) (enumerate 0 (fm_conditions f)))\<rparr>"

definition conditionTypeOf :: "form_condition \<Rightarrow> json option" where
  "conditionTypeOf c = map_of c (js ''conditionType'')"

datatype form_event =
    TypeChosen nat jsstring
  | TextTyped nat jsstring
  | AddClicked
  | RemoveClicked nat

text \<open>
  The controls the form renders: the type of every line, a text field for a sender or a keyword, the
  button that adds a line below five and the one that removes a line above one.
\<close>

fun offered :: "rule_form \<Rightarrow> form_event \<Rightarrow> bool" where
  "offered f (TypeChosen i t) \<longleftrightarrow> i < length (fm_conditions f) \<and> t \<in> set CONDITION_TYPES"
| "offered f (TextTyped i s) \<longleftrightarrow>
     i < length (fm_conditions f) \<and>
     conditionTypeOf (fm_conditions f ! i) \<in>
       {Some (JStr (js ''sender'')), Some (JStr (js ''subject_keyword'')), Some (JStr (js ''body_keyword''))}"
| "offered f AddClicked \<longleftrightarrow> length (fm_conditions f) < 5"
| "offered f (RemoveClicked i) \<longleftrightarrow> i < length (fm_conditions f) \<and> length (fm_conditions f) > 1"

fun onEvent :: "form_event \<Rightarrow> rule_form \<Rightarrow> rule_form" where
  "onEvent (TypeChosen i t) f =
     updateCondition i [(js ''conditionType'', JStr t), (js ''conditionValue'', JObj [])] f"
| "onEvent (TextTyped i s) f =
     updateCondition i
       [(js ''conditionValue'',
         JObj [(if conditionTypeOf (fm_conditions f ! i) = Some (JStr (js ''sender'')) then js ''domain''
                else js ''contains'', JStr s)])] f"
| "onEvent AddClicked f = addCondition f"
| "onEvent (RemoveClicked i) f = removeCondition i f"

text \<open>An edit is a sequence of events that are offered when they happen.\<close>

inductive edited :: "rule_form \<Rightarrow> form_event list \<Rightarrow> rule_form \<Rightarrow> bool" where
  edited_refl: "edited f [] f"
| edited_step: "edited f evs g \<Longrightarrow> offered g ev \<Longrightarrow> edited f (evs @ [ev]) (onEvent ev g)"

section \<open>Submitting\<close>

text \<open>
  The choice of the operator is rendered, and so part of the form data, only above one condition.
  \<open>action\<close> and \<open>op\<close> are what the two selections show.
\<close>

definition formData :: "rule_form \<Rightarrow> jsstring \<Rightarrow> jsstring \<Rightarrow> string \<Rightarrow> jsstring option" where
  "formData f action op k =
     (if k = ''actionType'' then Some action
      else if k = ''logicalOperator'' \<and> length (fm_conditions f) > 1 then Some op
      else None)"

definition payload :: "rule_form \<Rightarrow> (string \<Rightarrow> jsstring option) \<Rightarrow> json" where
  "payload f form =
     JObj [(js ''emailAccountId'', JStr (fm_emailAccountId f)),
           (js ''actionType'', (case form ''actionType'' of None \<Rightarrow> JNull | Some s \<Rightarrow> JStr s)),
           (js ''logicalOperator'', JStr (orElse (form ''logicalOperator'') (js ''AND''))),
           (js ''conditions'', JArr (map JObj (fm_conditions f)))]"

text \<open>The new state of the form, and whether \<open>onSaved\<close> is called.\<close>

definition handleSubmit ::
  "env \<Rightarrow> jsstring \<Rightarrow> jsstring \<Rightarrow> jsstring \<Rightarrow> rule_form \<Rightarrow> (rule_form \<times> bool) on_page" where
  "handleSubmit E sid action op f =
     (let f = f\<lparr>fm_error := None\<rparr>; body = payload f (formData f action op) in
      catchA
        (case fm_initialRule f of
           Some rule \<Rightarrow>
             bindA (apiFetch (rulesUpdateRoute E sid (ru_id (rc_rule rule)) body)) (\<lambda>_. ret (f, True))
         | None \<Rightarrow>
             bindA (apiFetch (rulesCreateRoute E sid body)) (\<lambda>_.
             ret (f\<lparr>fm_conditions := [newCondition]\<rparr>, True)))
        (\<lambda>err. ret (f\<lparr>fm_error := Some err\<rparr>, False)))"

section \<open>The page\<close>

record rules_view =
  rv_accounts :: "email_account_view list option"
  rv_rulesByAccount :: "jsstring \<Rightarrow> rule_with_conditions list option"
  rv_error :: "exn option"
  rv_connecting :: bool
  rv_editingRuleId :: "jsstring option"

text \<open>
  The lists of the accounts are fetched side by side; each answer sets the entry of its own account,
  so any order of the answers leaves the same page as this one.
\<close>

definition loadRules :: "jsstring \<Rightarrow> jsstring \<Rightarrow> rules_view \<Rightarrow> rules_view on_page" where
  "loadRules sid emailAccountId v =
     catchA
       (bindA (apiFetch (rulesFindAllRoute sid (Some emailAccountId))) (\<lambda>rules.
        ret (v\<lparr>rv_rulesByAccount := (rv_rulesByAccount v)(emailAccountId \<mapsto> rules)\<rparr>)))
       (\<lambda>_. ret v)"

fun loadAll :: "jsstring \<Rightarrow> email_account_view list \<Rightarrow> rules_view \<Rightarrow> rules_view on_page" where
  "loadAll sid [] v = ret v"
| "loadAll sid (a # as) v = bindA (loadRules sid (ev_id a) v) (loadAll sid as)"

definition loadAccounts :: "jsstring \<Rightarrow> rules_view \<Rightarrow> rules_view on_page" where
  "loadAccounts sid v =
     catchA
       (bindA (apiFetch (emailAccountsFindAllRoute sid)) (\<lambda>data.
        loadAll sid data (v\<lparr>rv_accounts := Some data\<rparr>)))
       (\<lambda>err. ret (v\<lparr>rv_error := Some err\<rparr>))"

text \<open>On success the browser leaves for the address in the second component.\<close>

definition handleConnect :: "env \<Rightarrow> jsstring \<Rightarrow> rules_view \<Rightarrow> (rules_view \<times> jsstring option) on_page" where
  "handleConnect E sid v =
     (let v = v\<lparr>rv_error := None, rv_connecting := True\<rparr> in
      catchA
        (bindA (apiFetch (oauthStart E sid)) (\<lambda>url. ret (v, Some url)))
        (\<lambda>err. ret (v\<lparr>rv_error := Some err, rv_connecting := False\<rparr>, None)))"

text \<open>\<open>confirmed\<close> is the answer to the question the handler asks first.\<close>

definition handleDisconnect :: "jsstring \<Rightarrow> bool \<Rightarrow> jsstring \<Rightarrow> rules_view \<Rightarrow> rules_view on_page" where
  "handleDisconnect sid confirmed accountId v =
     (if \<not> confirmed then ret v
      else catchA
        (bindA (apiFetch (emailAccountsRemoveRoute sid accountId)) (\<lambda>_. loadAccounts sid v))
        (\<lambda>err. ret (v\<lparr>rv_error := Some err\<rparr>)))"

definition handleDeleteRule :: "jsstring \<Rightarrow> bool \<Rightarrow> rule_with_conditions \<Rightarrow> rules_view \<Rightarrow> rules_view on_page" where
  "handleDeleteRule sid confirmed rule v =
     (if \<not> confirmed then ret v
      else catchA
        (bindA (apiFetch (rulesRemoveRoute sid (ru_id (rc_rule rule)))) (\<lambda>_.
         loadRules sid (ru_emailAccountId (rc_rule rule)) v))
        (\<lambda>err. ret (v\<lparr>rv_error := Some err\<rparr>)))"

text \<open>\<open>onSaved\<close> of the form for a new rule and of the one for a change.\<close>

definition onSaved :: "jsstring \<Rightarrow> rule_form \<Rightarrow> rules_view \<Rightarrow> rules_view on_page" where
  "onSaved sid f v =
     loadRules sid (fm_emailAccountId f)
       (if fm_initialRule f = None then v else v\<lparr>rv_editingRuleId := None\<rparr>)"

end
