(* ===== verification/RuleFormProperties.thy ===== *)
theory RuleFormProperties
  imports RuleForm
begin

text \<open>
  What the form of the mail rules guarantees the server, which checks neither the number nor the types
  of the conditions: a form only ever holds one to five, and what a new form submits is stored as it
  is. What a form for a stored rule submits is refused.
\<close>

section \<open>Editing\<close>

lemma map_enumerate_fst: "length (filter (\<lambda>(j, _). j \<noteq> i) (enumerate n xs)) =
    (if n \<le> i \<and> i < n + length xs then length xs - 1 else length xs)"
proof (induction xs arbitrary: n)
  case (Cons x xs)
  show ?case using Cons [of "Suc n"] by auto
qed simp

lemma length_onEvent:
  "length (fm_conditions (updateCondition i p f)) = length (fm_conditions f)"
  "length (fm_conditions (addCondition f)) =
     (if length (fm_conditions f) < 5 then Suc (length (fm_conditions f)) else length (fm_conditions f))"
  "length (fm_conditions (removeCondition i f)) =
     (if i < length (fm_conditions f) then length (fm_conditions f) - 1 else length (fm_conditions f))"
  using map_enumerate_fst [of i 0 "fm_conditions f"]
  by (simp_all add: updateCondition_def addCondition_def removeCondition_def)

lemma set_enumerate_snd: "(j, c) \<in> set (enumerate n xs) \<Longrightarrow> c \<in> set xs"
  by (metis in_set_zip enumerate_eq_zip nth_mem snd_conv)

lemma updated_cases:
  assumes "c \<in> set (fm_conditions (updateCondition i p f))"
  obtains "c \<in> set (fm_conditions f)" | c0 where "c0 \<in> set (fm_conditions f)" "c = spread c0 p"
  using assms by (auto simp: updateCondition_def split: if_splits dest: set_enumerate_snd)

lemma removed_subset: "set (fm_conditions (removeCondition i f)) \<subseteq> set (fm_conditions f)"
  by (auto simp: removeCondition_def dest: set_enumerate_snd)

lemma added_cases:
  assumes "c \<in> set (fm_conditions (addCondition f))"
  obtains "c \<in> set (fm_conditions f)" | "c = newCondition"
  using assms by (auto simp: addCondition_def split: if_splits)

text \<open>An event keeps a predicate of the conditions that the patches and the new condition keep.\<close>

lemma onEvent_keeps:
  assumes "\<forall>c \<in> set (fm_conditions f). P c" and "P newCondition" and "offered f ev"
    and "\<And>c t. t \<in> set CONDITION_TYPES \<Longrightarrow> P c \<Longrightarrow>
      P (spread c [(js ''conditionType'', JStr t), (js ''conditionValue'', JObj [])])"
    and "\<And>c kvs. P c \<Longrightarrow> P (spread c [(js ''conditionValue'', JObj kvs)])"
  shows "\<forall>c \<in> set (fm_conditions (onEvent ev f)). P c"
proof
  fix c assume c: "c \<in> set (fm_conditions (onEvent ev f))"
  show "P c"
  proof (cases ev)
    case (TypeChosen i t)
    with c have "c \<in> set (fm_conditions (updateCondition i
        [(js ''conditionType'', JStr t), (js ''conditionValue'', JObj [])] f))" by simp
    then show ?thesis using assms(1,3) TypeChosen by (cases rule: updated_cases) (simp_all add: assms(4))
  next
    case (TextTyped i s)
    with c obtain kvs where "c \<in> set (fm_conditions (updateCondition i [(js ''conditionValue'', JObj kvs)] f))" by auto
    then show ?thesis using assms(1) by (cases rule: updated_cases) (simp_all add: assms(5))
  next
    case AddClicked
    with c have "c \<in> set (fm_conditions (addCondition f))" by simp
    then show ?thesis using assms(1,2) by (cases rule: added_cases) simp_all
  next
    case (RemoveClicked i)
    with c have "c \<in> set (fm_conditions f)" using removed_subset by auto
    then show ?thesis using assms(1) by simp
  qed
qed

lemma onEvent_fixed [simp]:
  "fm_emailAccountId (onEvent ev f) = fm_emailAccountId f" "fm_initialRule (onEvent ev f) = fm_initialRule f"
  "fm_error (onEvent ev f) = fm_error f"
  by (cases ev; simp add: updateCondition_def addCondition_def removeCondition_def)+

lemma edited_fixed:
  assumes "edited f evs g"
  shows "fm_emailAccountId g = fm_emailAccountId f" and "fm_initialRule g = fm_initialRule f"
  using assms by (induction rule: edited.induct) simp_all

lemma onEvent_bounds:
  assumes "offered f ev" and "1 \<le> length (fm_conditions f)" and "length (fm_conditions f) \<le> 5"
  shows "1 \<le> length (fm_conditions (onEvent ev f)) \<and> length (fm_conditions (onEvent ev f)) \<le> 5"
  using assms by (cases ev) (auto simp: length_onEvent)

lemma edited_bounds:
  assumes "edited f evs g" and "1 \<le> length (fm_conditions f)" and "length (fm_conditions f) \<le> 5"
  shows "1 \<le> length (fm_conditions g) \<and> length (fm_conditions g) \<le> 5"
  using assms
proof (induction rule: edited.induct)
  case (edited_step f evs g ev)
  then show ?case using onEvent_bounds [of g ev] by blast
qed simp

text \<open>
  C27: whatever a user does in the form, it holds at least one and at most five conditions, whether it
  started empty or with a stored rule of one to five. The server relies on this and checks no number.
\<close>

theorem form_keeps_bounds:
  assumes "edited (ruleForm a initial) evs g"
    and "case initial of None \<Rightarrow> True | Some r \<Rightarrow> rc_conditions r \<noteq> [] \<and> length (rc_conditions r) \<le> 5"
  shows "1 \<le> length (fm_conditions g) \<and> length (fm_conditions g) \<le> 5"
  using assms(2) by (intro edited_bounds [OF assms(1)])
    (cases initial; simp add: ruleForm_def Suc_le_eq)+

section \<open>A new rule\<close>

definition freshLine :: "form_condition \<Rightarrow> bool" where
  "freshLine c \<longleftrightarrow> (\<exists>t kvs. t \<in> set CONDITION_TYPES \<and>
     c = [(js ''conditionType'', JStr t), (js ''conditionValue'', JObj kvs)])"

lemma freshLine_new: "freshLine newCondition"
  by (auto simp: freshLine_def newCondition_def CONDITION_TYPES_def)

lemma freshLine_spread:
  assumes "freshLine c"
  shows "t \<in> set CONDITION_TYPES \<Longrightarrow>
      freshLine (spread c [(js ''conditionType'', JStr t), (js ''conditionValue'', JObj [])])"
    and "freshLine (spread c [(js ''conditionValue'', JObj kvs)])"
  using assms by (auto simp: freshLine_def spread_def)

lemma edited_freshLines:
  assumes "edited f evs g" and "fm_initialRule f = None" and "fm_conditions f = [newCondition]"
  shows "\<forall>c \<in> set (fm_conditions g). freshLine c"
  using assms
proof (induction rule: edited.induct)
  case (edited_step f evs g ev)
  then show ?case by (intro onEvent_keeps freshLine_new freshLine_spread) simp_all
qed (simp add: freshLine_new)

definition lineInput :: "form_condition \<Rightarrow> condition_input" where
  "lineInput c = \<lparr>ci_id = None, ci_conditionType = orElse (textColumn (conditionTypeOf c)) [],
                  ci_conditionValue = orElse (map_of c (js ''conditionValue'')) JNull\<rparr>"

lemma conditionInput_freshLine: "freshLine c \<Longrightarrow> conditionInput (JObj c) = Some (lineInput c)"
  by (auto simp: freshLine_def conditionInput_def lineInput_def conditionTypeOf_def)

lemma conditionInputs_freshLines:
  assumes "\<forall>c \<in> set cs. freshLine c"
  shows "conditionInputs (JArr (map JObj cs)) = Some (map lineInput cs)"
  using assms by (induction cs) (auto simp: conditionInputs_def List.map_filter_simps conditionInput_freshLine split: if_splits)

text \<open>The operator of the stored rule: the chosen one, where the form has a choice.\<close>

definition chosenOperator :: "rule_form \<Rightarrow> jsstring \<Rightarrow> logical_operator" where
  "chosenOperator f op = (if length (fm_conditions f) > 1 \<and> op = js ''OR'' then OpOR else OpAND)"

lemma readCreateBody_payload:
  assumes "\<forall>c \<in> set (fm_conditions f). freshLine c" and "op \<in> {js ''AND'', js ''OR''}"
  shows "readCreateBody (payload f (formData f action op)) = Inr
    \<lparr>rb_emailAccountId = Some (fm_emailAccountId f), rb_logicalOperator = Some (chosenOperator f op),
     rb_actionType = Some action, rb_isActive = None, rb_conditions = Some (map lineInput (fm_conditions f)),
     rb_invalid = False\<rparr>"
  using assms(2) conditionInputs_freshLines [OF assms(1)]
  by (auto simp: readCreateBody_def payload_def formData_def bodyFields_def chosenOperator_def Let_def)

lemma guard_world:
  assumes "fst (unlockedGuard sid w) = Inr x"
  shows "unlockedGuard sid w = (Inr x, w\<lparr>keyStore := snd (storeTouch sid (clock w) (keyStore w))\<rparr>)"
  using assms by (simp add: run_unlockedGuard split: if_splits bool.splits option.splits)

text \<open>
  C12: a new rule is stored as it was made in the form. Whatever the edits, submitting the form for a
  mail account of an unlocked user adds one active rule with the chosen action and operator, whose one
  to five conditions are the lines of the form in their order, and leaves an empty form behind.
\<close>

theorem new_rule_is_stored:
  assumes "edited (ruleForm a None) evs g" and "op \<in> {js ''AND'', js ''OR''}"
    and "dbInv (db (server p))" and "freshConditions E (draws (server p)) (db (server p))"
    and "\<forall>r \<in> set (emailRules (db (server p))). ru_id r \<noteq> uuid E (draws (server p))"
    and "fst (unlockedGuard sid (server p)) = Inr (userId, key)" and "ownedAccount userId a (db (server p))"
  shows "\<exists>rule w'. handleSubmit E sid action op g p = (Inr (ruleForm a None, True), p\<lparr>server := w'\<rparr>) \<and>
    emailRules (db w') = emailRules (db (server p)) @ [rule] \<and>
    ru_emailAccountId rule = a \<and> ru_actionType rule = action \<and> ru_isActive rule \<and>
    ru_logicalOperator rule = chosenOperator g op \<and>
    map inputOf (conditionsOf (ru_id rule) (db w')) = map lineInput (fm_conditions g) \<and>
    1 \<le> length (fm_conditions g) \<and> length (fm_conditions g) \<le> 5"
proof -
  let ?f = "ruleForm a None" and ?w = "server p"
  let ?w1 = "?w\<lparr>keyStore := snd (storeTouch sid (clock ?w) (keyStore ?w))\<rparr>"
  have start: "fm_initialRule ?f = None" "fm_conditions ?f = [newCondition]" "fm_emailAccountId ?f = a"
    by (simp_all add: ruleForm_def)
  note lines = edited_freshLines [OF assms(1) start(1,2)]
  have g: "fm_initialRule g = None" "fm_emailAccountId g = a"
    using edited_fixed [OF assms(1)] start by simp_all
  have error: "g\<lparr>fm_error := None, fm_conditions := [newCondition]\<rparr> = ?f"
    using g by (cases g) (simp add: ruleForm_def)
  define data where "data = \<lparr>rb_emailAccountId = Some a, rb_logicalOperator = Some (chosenOperator g op),
     rb_actionType = Some action, rb_isActive = None, rb_conditions = Some (map lineInput (fm_conditions g)),
     rb_invalid = False\<rparr>"
  have sent: "readCreateBody (payload (g\<lparr>fm_error := None\<rparr>) (formData (g\<lparr>fm_error := None\<rparr>) action op)) = Inr data"
    using readCreateBody_payload [of "g\<lparr>fm_error := None\<rparr>" op action] lines assms(2) g
    by (simp add: data_def chosenOperator_def)
  have "list_all (\<lambda>c. ci_id c = None) (map lineInput cs)" for cs by (induction cs) (simp_all add: lineInput_def)
  with rulesCreate_runs [of ?w1 E data a action userId] assms(3-5,7)
  obtain rule new n d where
    d: "d = (db ?w)\<lparr>emailRules := emailRules (db ?w) @ [rule], ruleConditions := ruleConditions (db ?w) @ new\<rparr>"
    and run: "rulesCreate E userId data ?w1 = (Inr (withConditions d rule), ?w1\<lparr>db := d, draws := n\<rparr>)"
    and own: "conditionsOf (ru_id rule) d = new" "map inputOf new = map lineInput (fm_conditions g)"
    and rule: "rule = \<lparr>ru_id = uuid E (draws ?w), ru_emailAccountId = a, ru_logicalOperator = chosenOperator g op,
      ru_actionType = action, ru_isActive = True, ru_createdAt = clock ?w\<rparr>"
    by (auto simp: Let_def data_def)
  have "handleSubmit E sid action op g p = (Inr (?f, True), p\<lparr>server := ?w1\<lparr>db := d, draws := n\<rparr>\<rparr>)"
    using guard_world [OF assms(6)] sent run g error
    by (simp add: handleSubmit_def rulesCreateRoute_def apiFetch_def act_simps Let_def)
  then show ?thesis
    using own rule edited_bounds [OF assms(1)] start(2)
    by (intro exI [of _ rule] exI [of _ "?w1\<lparr>db := d, draws := n\<rparr>"]) (simp add: d)
qed

section \<open>A stored rule\<close>

lemma spread_keys: "fst ` set c \<subseteq> fst ` set (spread c p)"
proof (induction p arbitrary: c)
  case (Cons kv p)
  have "fst ` set c \<subseteq> fst ` set (AList.update (fst kv) (snd kv) c)"
    by (auto simp: dom_map_of_conv_image_fst [symmetric] update_conv')
  also have "\<dots> \<subseteq> fst ` set (spread c (kv # p))"
    using Cons.IH [of "AList.update (fst kv) (snd kv) c"] by (simp add: spread_def split_beta)
  finally show ?case .
qed (simp add: spread_def)

fun keepsLines :: "form_event \<Rightarrow> bool" where
  "keepsLines (RemoveClicked _) = False"
| "keepsLines _ = True"

definition namesRule :: "rule_form \<Rightarrow> bool" where
  "namesRule f \<longleftrightarrow> (\<exists>c \<in> set (fm_conditions f). js ''ruleId'' \<in> fst ` set c)"

lemma namesRule_update:
  assumes "namesRule f"
  shows "namesRule (updateCondition i p f)"
proof -
  obtain c where "c \<in> set (fm_conditions f)" "js ''ruleId'' \<in> fst ` set c"
    using assms by (auto simp: namesRule_def)
  then obtain j where j: "j < length (fm_conditions f)" "js ''ruleId'' \<in> fst ` set (fm_conditions f ! j)"
    by (metis in_set_conv_nth)
  let ?c = "if j = i then spread (fm_conditions f ! j) p else fm_conditions f ! j"
  have "fm_conditions (updateCondition i p f) ! j = ?c"
    using j(1) by (simp add: updateCondition_def nth_enumerate_eq)
  then have "?c \<in> set (fm_conditions (updateCondition i p f))"
    using j(1) length_onEvent(1) [of i p f] nth_mem by metis
  moreover have "fst ` set (fm_conditions f ! j) \<subseteq> fst ` set ?c" using spread_keys by simp
  ultimately show ?thesis unfolding namesRule_def using j(2) by blast
qed

lemma namesRule_edited:
  assumes "edited f evs g" and "list_all keepsLines evs" and "namesRule f"
  shows "namesRule g"
  using assms
proof (induction rule: edited.induct)
  case (edited_step f evs g ev)
  then have "namesRule g" and "keepsLines ev" by simp_all
  then show ?case
    by (cases ev) (auto simp: namesRule_update, auto simp: namesRule_def addCondition_def)
qed simp

lemma readUpdateBody_payload:
  assumes "namesRule f"
  shows "rb_invalid (readUpdateBody (payload f form))"
proof -
  have "conditionInput (JObj c) = None" if "js ''ruleId'' \<in> fst ` set c" for c
    using that by (auto simp: conditionInput_def Let_def split: option.split)
  then have "conditionInputs (JArr (map JObj (fm_conditions f))) = None"
    using assms by (auto simp: namesRule_def conditionInputs_def list_all_iff)
  then show ?thesis by (simp add: readUpdateBody_def payload_def bodyFields_def Let_def)
qed

lemma rulesUpdate_rejected:
  assumes "rb_invalid data"
  shows "\<exists>e. rulesUpdate E userId i data w = (Inl e, w)"
  using assms by (cases "rb_conditions data") (simp_all add: rulesUpdate_def act_simps)

text \<open>
  C28: a stored rule cannot be changed with the form for it. A line of the form keeps every column of
  its row, the id of the rule among them, which the database client does not take in a new condition;
  so as long as no line is removed, whatever the edits and whoever is logged in, the submission fails,
  the form shows the error, and the server is left as a mere check of the session leaves it.
\<close>

theorem stored_rule_not_saved:
  assumes "edited (ruleForm a (Some rule)) evs g" and "list_all keepsLines evs" and "rc_conditions rule \<noteq> []"
  shows "\<exists>err. handleSubmit E sid action op g p =
    (Inr (g\<lparr>fm_error := Some err\<rparr>, False), p\<lparr>server := snd (unlockedGuard sid (server p))\<rparr>)"
proof -
  have "namesRule (ruleForm a (Some rule))"
    using assms(3) by (cases "rc_conditions rule") (auto simp: namesRule_def ruleForm_def conditionFields_def)
  then have "namesRule g" by (rule namesRule_edited [OF assms(1,2)])
  then have "namesRule (g\<lparr>fm_error := None\<rparr>)" by (simp add: namesRule_def)
  note invalid = readUpdateBody_payload [OF this]
  have g: "fm_initialRule g = Some rule" using edited_fixed(2) [OF assms(1)] by (simp add: ruleForm_def)
  let ?body = "payload (g\<lparr>fm_error := None\<rparr>) (formData (g\<lparr>fm_error := None\<rparr>) action op)"
  obtain r w1 where guard: "unlockedGuard sid (server p) = (r, w1)" by fastforce
  have "\<exists>e. rulesUpdateRoute E sid (ru_id (rc_rule rule)) ?body (server p) = (Inl e, w1)"
    using guard rulesUpdate_rejected [OF invalid, where i = "ru_id (rc_rule rule)" and w = w1]
    by (cases r) (auto simp: rulesUpdateRoute_def run_bindA split: prod.split)
  then show ?thesis
    using g guard by (auto simp: handleSubmit_def apiFetch_def act_simps Let_def)
qed

section \<open>Witnesses\<close>

text \<open>The first line gets a domain, a second one an emoji.\<close>

definition demoEdits :: "form_event list" where
  "demoEdits = [TextTyped 0 (js ''shop''), AddClicked, TypeChosen 1 (js ''has_emoji'')]"

definition editedForm :: "jsstring \<Rightarrow> rule_with_conditions option \<Rightarrow> form_event list \<Rightarrow> rule_form" where
  "editedForm a initial evs = fold onEvent evs (ruleForm a initial)"

fun allOffered :: "rule_form \<Rightarrow> form_event list \<Rightarrow> bool" where
  "allOffered f [] = True"
| "allOffered f (ev # evs) = (offered f ev \<and> allOffered (onEvent ev f) evs)"

lemma edited_append: "edited f evs g \<Longrightarrow> allOffered g later \<Longrightarrow> edited f (evs @ later) (fold onEvent later g)"
proof (induction later arbitrary: evs g)
  case (Cons ev later)
  then show ?case using Cons.IH [of "evs @ [ev]" "onEvent ev g"] edited_step [of f evs g ev] by simp
qed simp

lemma edited_demo: "edited (ruleForm a None) demoEdits (editedForm a None demoEdits)"
proof -
  have "allOffered (ruleForm a None) demoEdits"
    by (simp add: demoEdits_def ruleForm_def newCondition_def conditionTypeOf_def CONDITION_TYPES_def
        addCondition_def updateCondition_def spread_def)
  from edited_append [OF edited_refl this] show ?thesis by (simp add: editedForm_def)
qed

lemma form_keeps_bounds_witness:
  "1 \<le> length (fm_conditions (editedForm (js ''e1'') None demoEdits)) \<and>
   length (fm_conditions (editedForm (js ''e1'') None demoEdits)) \<le> 5"
  using form_keeps_bounds [OF edited_demo, of "js ''e1''"] by simp

definition demoRulesPage :: page where
  "demoRulesPage = \<lparr>server = demoWorld, stored = [], drawn = 0\<rparr>"

lemma new_rule_is_stored_witness:
  "\<exists>rule w'. handleSubmit demoEnv (js ''s1'') (js ''important'') (js ''OR'')
       (editedForm (js ''e1'') None demoEdits) demoRulesPage =
     (Inr (ruleForm (js ''e1'') None, True), demoRulesPage\<lparr>server := w'\<rparr>) \<and>
   emailRules (db w') = [demoRule, rule] \<and> ru_logicalOperator rule = OpOR"
proof -
  have page: "server demoRulesPage = demoWorld" by (simp add: demoRulesPage_def)
  have inv: "dbInv (db demoWorld)" using worldInv_demoWorld by (simp add: worldInv_def)
  have new: "\<forall>r \<in> set (emailRules (db demoWorld)). ru_id r \<noteq> uuid demoEnv (draws demoWorld)"
    by (simp add: demoWorld_def demoDb_def demoRule_def demoEnv_def js_def)
  have guard: "fst (unlockedGuard (js ''s1'') demoWorld) = Inr (js ''u1'', demoUserKey)"
    by (simp add: unlockedGuard_pass keyLive_def demoWorld_def demoSession_def demoUserKey_def)
  have own: "ownedAccount (js ''u1'') (js ''e1'') (db demoWorld)" "emailRules (db demoWorld) = [demoRule]"
    by (simp_all add: ownedAccount_def demoWorld_def demoDb_def demoMailAccount_def)
  have two: "chosenOperator (editedForm (js ''e1'') None demoEdits) (js ''OR'') = OpOR"
    by (simp add: chosenOperator_def editedForm_def demoEdits_def ruleForm_def addCondition_def updateCondition_def)
  show ?thesis
    using new_rule_is_stored [OF edited_demo, of "js ''OR''" demoRulesPage demoEnv "js ''s1''" "js ''u1''" demoUserKey
        "js ''e1''" "js ''important''"]
      inv demo_freshConditions new guard own two page by auto
qed

lemma stored_rule_not_saved_witness:
  "\<exists>err. handleSubmit demoEnv (js ''s1'') (js ''important'') (js ''AND'')
      (ruleForm (js ''e1'') (Some \<lparr>rc_rule = demoRule, rc_conditions = [demoCondition]\<rparr>)) demoRulesPage =
    (Inr (ruleForm (js ''e1'') (Some \<lparr>rc_rule = demoRule, rc_conditions = [demoCondition]\<rparr>)\<lparr>fm_error := Some err\<rparr>, False),
     demoRulesPage\<lparr>server := snd (unlockedGuard (js ''s1'') demoWorld)\<rparr>)"
  using stored_rule_not_saved [OF edited_refl, of "\<lparr>rc_rule = demoRule, rc_conditions = [demoCondition]\<rparr>" demoEnv "js ''s1''"
      "js ''important''" "js ''AND''" "js ''e1''" demoRulesPage]
  by (simp add: demoRulesPage_def)

end
