(* ===== verification/Pages.thy ===== *)
theory Pages
  imports Browser Backup PasswordGenerator Scanning
begin

text \<open>
  The pages over the vault, the trusted devices and the candidates: \<open>accounts/new\<close>, \<open>accounts/[id]\<close>,
  \<open>settings\<close>, \<open>mail/review\<close>, the dashboard, the navigation of \<open>layout.tsx\<close> and the component
  \<open>PasswordField\<close>. Each handler takes the part of the page it changes and gives it back; a text field is
  what the form data holds for it. Flags that only disable a button while a request runs are left out.
\<close>

section \<open>One entry of the vault\<close>

text \<open>The text fields of the form; a \<open>memo\<close> without text counts as \<open>undefined\<close> and is not sent.\<close>

definition entryPayload :: "(string \<Rightarrow> jsstring) \<Rightarrow> (jsstring \<times> json) list \<Rightarrow> (jsstring \<times> json) list \<Rightarrow> json" where
  "entryPayload form before after =
     JObj ([(js ''serviceName'', JStr (form ''serviceName'')), (js ''urlOrAppName'', JStr (form ''urlOrAppName'')),
            (js ''category'', JStr (form ''category'')), (js ''loginId'', JStr (form ''loginId''))] @ before @
           (if form ''memo'' = [] then [] else [(js ''memo'', JStr (form ''memo''))]) @ after)"

text \<open>\<open>Inl\<close> is the error the page shows, \<open>Inr\<close> the page it moves to.\<close>

definition newAccount :: "env \<Rightarrow> jsstring \<Rightarrow> (string \<Rightarrow> jsstring) \<Rightarrow> jsstring \<Rightarrow> outcome on_page" where
  "newAccount E sid form password =
     guarded
       (bindA (apiFetch (accountsCreateRoute E sid (entryPayload form [(js ''password'', JStr password)] []))) (\<lambda>_.
        ret (GoTo (js ''/accounts''))))"

record detail_view =
  dv_account :: "account_detail option"
  dv_error :: "exn option"
  dv_editing :: bool
  dv_newPassword :: jsstring

definition loadAccount :: "env \<Rightarrow> jsstring \<Rightarrow> jsstring \<Rightarrow> detail_view \<Rightarrow> detail_view on_page" where
  "loadAccount E sid i v =
     catchA
       (bindA (apiFetch (accountsFindOneRoute E sid i)) (\<lambda>account. ret (v\<lparr>dv_account := Some account\<rparr>)))
       (\<lambda>err. ret (v\<lparr>dv_error := Some err\<rparr>))"

text \<open>
  \<open>password || account!.password\<close>: the answer to a change holds no password, so the page keeps the one
  it shows unless a new one was typed.
\<close>

definition shownPassword :: "jsstring \<Rightarrow> account_detail option \<Rightarrow> exn + jsstring" where
  "shownPassword password account =
     (if password \<noteq> [] then Inr password
      else case account of None \<Rightarrow> Inl TypeError | Some a \<Rightarrow> Inr (at_password a))"

definition handleSave ::
  "env \<Rightarrow> jsstring \<Rightarrow> jsstring \<Rightarrow> (string \<Rightarrow> jsstring) \<Rightarrow> detail_view \<Rightarrow> detail_view on_page" where
  "handleSave E sid i form v =
     (let v = v\<lparr>dv_error := None\<rparr>; password = dv_newPassword v;
          body = entryPayload form [] (if password = [] then [] else [(js ''password'', JStr password)]) in
      catchA
        (bindA (apiFetch (accountsUpdateRoute E sid i body)) (\<lambda>updated.
         bindA (liftE (shownPassword password (dv_account v))) (\<lambda>shown.
         ret (v\<lparr>dv_account := Some (accountDetail updated shown), dv_newPassword := [], dv_editing := False\<rparr>))))
        (\<lambda>err. ret (v\<lparr>dv_error := Some err\<rparr>)))"

text \<open>\<open>confirmed\<close> is the answer to the question the handler asks first; \<open>None\<close> stays on the page.\<close>

definition handleDelete :: "jsstring \<Rightarrow> bool \<Rightarrow> jsstring \<Rightarrow> outcome option on_page" where
  "handleDelete sid confirmed i =
     (if \<not> confirmed then ret None
      else bindA (guarded (bindA (apiFetch (accountsRemoveRoute sid i)) (\<lambda>_. ret (GoTo (js ''/accounts''))))) (\<lambda>r.
        ret (Some r)))"

text \<open>\<open>PasswordField\<close>: the generated password becomes the text of the field and is shown.\<close>

record password_field =
  pf_value :: jsstring
  pf_show :: bool
  pf_error :: "exn option"

definition handleGenerate :: "env \<Rightarrow> jsstring \<Rightarrow> password_field \<Rightarrow> password_field on_page" where
  "handleGenerate E sid field =
     (let field = field\<lparr>pf_error := None\<rparr>;
          options = \<lparr>po_length = Some (Fin 16), po_includeUppercase = None, po_includeLowercase = None,
                     po_includeNumbers = None, po_includeSymbols = None\<rparr> in
      catchA
        (bindA (apiFetch (generatePasswordRoute E sid options)) (\<lambda>password.
         ret (field\<lparr>pf_value := password, pf_show := True\<rparr>)))
        (\<lambda>err. ret (field\<lparr>pf_error := Some err\<rparr>)))"

section \<open>Settings\<close>

record settings_view =
  sv_devices :: "device_view list option"
  sv_error :: "exn option"
  sv_prfSupported :: "bool option" \<comment> \<open>what the message after a registration tells\<close>

definition loadDevices :: "jsstring \<Rightarrow> settings_view \<Rightarrow> settings_view on_page" where
  "loadDevices sid v =
     catchA
       (bindA (apiFetch (webauthnDevices sid)) (\<lambda>devices. ret (v\<lparr>sv_devices := Some devices\<rparr>)))
       (\<lambda>err. ret (v\<lparr>sv_error := Some err\<rparr>))"

text \<open>The label of a device without one, which reads \<open>this browser\<close>.\<close>

definition DEFAULT_LABEL :: jsstring where
  "DEFAULT_LABEL = [0xC774, 0x20, 0xBE0C, 0xB77C, 0xC6B0, 0xC800]"

definition handleRegister ::
  "browser \<Rightarrow> env \<Rightarrow> jsstring \<Rightarrow> (string \<Rightarrow> jsstring) \<Rightarrow> settings_view \<Rightarrow> settings_view on_page" where
  "handleRegister B E sid form v =
     (let v = v\<lparr>sv_error := None, sv_prfSupported := None\<rparr>;
          deviceLabel = (if form ''deviceLabel'' = [] then DEFAULT_LABEL else form ''deviceLabel'') in
      catchA
        (bindA (registerThisDevice B E sid deviceLabel (form ''password'')) (\<lambda>(_, prfSupported).
         loadDevices sid (v\<lparr>sv_prfSupported := Some prfSupported\<rparr>)))
        (\<lambda>err. ret (v\<lparr>sv_error := Some err\<rparr>)))"

definition handleRemove :: "browser \<Rightarrow> jsstring \<Rightarrow> bool \<Rightarrow> device_view \<Rightarrow> settings_view \<Rightarrow> settings_view on_page" where
  "handleRemove B sid confirmed device v =
     (if \<not> confirmed then ret v
      else
        let v = v\<lparr>sv_error := None\<rparr> in
        catchA
          (case device of (deviceId, _, credentialId, _) \<Rightarrow>
             bindA (apiFetch (webauthnRemove sid deviceId)) (\<lambda>_.
             bindA (forgetThisDevice B credentialId) (\<lambda>_.
             loadDevices sid v)))
          (\<lambda>err. ret (v\<lparr>sv_error := Some err\<rparr>)))"

record lock_view =
  lv_autoLockMinutes :: "jsnum option"
  lv_error :: "exn option"
  lv_saved :: bool

definition loadLockMinutes :: "jsstring \<Rightarrow> lock_view \<Rightarrow> lock_view on_page" where
  "loadLockMinutes sid v =
     catchA
       (bindA (apiFetch (settingsRoute sid)) (\<lambda>minutes. ret (v\<lparr>lv_autoLockMinutes := Some (Fin (of_int minutes))\<rparr>)))
       (\<lambda>err. ret (v\<lparr>lv_error := Some err\<rparr>))"

text \<open>\<open>JSON.stringify\<close> writes a number that is not finite as \<open>null\<close>.\<close>

definition jsonNumber :: "jsnum \<Rightarrow> json" where
  "jsonNumber n = (case n of Fin r \<Rightarrow> JNum (Fin r) | _ \<Rightarrow> JNull)"

definition saveLockMinutes :: "jsstring \<Rightarrow> lock_view \<Rightarrow> lock_view on_page" where
  "saveLockMinutes sid v =
     (case lv_autoLockMinutes v of
        None \<Rightarrow> ret v
      | Some minutes \<Rightarrow>
          let v = v\<lparr>lv_error := None, lv_saved := False\<rparr> in
          catchA
            (bindA (apiFetch (updateAutoLockMinutesRoute sid (jsonNumber minutes))) (\<lambda>_. ret (v\<lparr>lv_saved := True\<rparr>)))
            (\<lambda>err. ret (v\<lparr>lv_error := Some err\<rparr>)))"

text \<open>What the form for a new master password shows; a mismatch is found before any request.\<close>

datatype change_result = NotConfirmed | ChangeFailed exn | Changed nat

definition changePassword :: "env \<Rightarrow> jsstring \<Rightarrow> (string \<Rightarrow> jsstring) \<Rightarrow> change_result on_page" where
  "changePassword E sid form =
     (if form ''newPassword'' \<noteq> form ''confirmPassword'' then ret NotConfirmed
      else catchA
        (bindA (apiFetch (changeRoute E sid (Some (form ''currentPassword'')) (Some (form ''newPassword''))))
           (\<lambda>revokedDevices. ret (Changed revokedDevices)))
        (\<lambda>err. ret (ChangeFailed err)))"

section \<open>Candidates\<close>

record review_view =
  vw_candidates :: "(candidate_row \<times> jsstring) list option"
  vw_error :: "exn option"
  vw_info :: "scan_counters option"

definition loadCandidates :: "jsstring \<Rightarrow> review_view \<Rightarrow> review_view on_page" where
  "loadCandidates sid v =
     catchA
       (bindA (apiFetch (findPendingRoute sid)) (\<lambda>candidates. ret (v\<lparr>vw_candidates := Some candidates\<rparr>)))
       (\<lambda>err. ret (v\<lparr>vw_error := Some err\<rparr>))"

definition handleScan :: "env \<Rightarrow> jsstring \<Rightarrow> review_view \<Rightarrow> review_view on_page" where
  "handleScan E sid v =
     (let v = v\<lparr>vw_error := None, vw_info := None\<rparr> in
      catchA
        (bindA (apiFetch (scanRoute E sid)) (\<lambda>result. loadCandidates sid (v\<lparr>vw_info := Some result\<rparr>)))
        (\<lambda>err. ret (v\<lparr>vw_error := Some err\<rparr>)))"

text \<open>A decision that went through takes the candidate off the list that is shown.\<close>

definition dropCandidate :: "jsstring \<Rightarrow> review_view \<Rightarrow> review_view" where
  "dropCandidate i v = v\<lparr>vw_candidates := map_option (filter (\<lambda>(c, _). ca_id c \<noteq> i)) (vw_candidates v)\<rparr>"

definition handleApprove :: "env \<Rightarrow> jsstring \<Rightarrow> jsstring \<Rightarrow> review_view \<Rightarrow> review_view on_page" where
  "handleApprove E sid i v =
     (let v = v\<lparr>vw_error := None\<rparr> in
      catchA
        (bindA (apiFetch (approveRoute E sid i)) (\<lambda>_. ret (dropCandidate i v)))
        (\<lambda>err. ret (v\<lparr>vw_error := Some err\<rparr>)))"

definition handleExclude :: "jsstring \<Rightarrow> jsstring \<Rightarrow> review_view \<Rightarrow> review_view on_page" where
  "handleExclude sid i v =
     (let v = v\<lparr>vw_error := None\<rparr> in
      catchA
        (bindA (apiFetch (excludeRoute sid i)) (\<lambda>_. ret (dropCandidate i v)))
        (\<lambda>err. ret (v\<lparr>vw_error := Some err\<rparr>)))"

section \<open>Dashboard and navigation\<close>

record dashboard_view =
  hv_accountCount :: "nat option"
  hv_pendingCount :: "nat option"
  hv_importantSummary :: "account_summary list option"
  hv_error :: "exn option"

text \<open>
  The three cards load on their own, in the order of the requests; a failure leaves the other two, and
  the page shows the error of the last one that failed.
\<close>

definition loadCard :: "'a action \<Rightarrow> ('a \<Rightarrow> dashboard_view \<Rightarrow> dashboard_view) \<Rightarrow> dashboard_view \<Rightarrow> dashboard_view on_page" where
  "loadCard m fill v =
     catchA (bindA (apiFetch m) (\<lambda>x. ret (fill x v))) (\<lambda>err. ret (v\<lparr>hv_error := Some err\<rparr>))"

definition loadDashboard :: "env \<Rightarrow> jsstring \<Rightarrow> dashboard_view \<Rightarrow> dashboard_view on_page" where
  "loadDashboard E sid v =
     bindA (loadCard (accountsFindAllRoute E sid None None) (\<lambda>rows v. v\<lparr>hv_accountCount := Some (length rows)\<rparr>) v) (\<lambda>v.
     bindA (loadCard (findPendingRoute sid) (\<lambda>rows v. v\<lparr>hv_pendingCount := Some (length rows)\<rparr>) v) (\<lambda>v.
     loadCard (importantSummaryRoute sid) (\<lambda>s v. v\<lparr>hv_importantSummary := Some s\<rparr>) v))"

definition importantTotal :: "dashboard_view \<Rightarrow> nat option" where
  "importantTotal v = map_option (\<lambda>s. foldl (\<lambda>sum item. sum + sm_importantCount item) 0 s) (hv_importantSummary v)"

definition handleLock :: "jsstring \<Rightarrow> outcome on_page" where
  "handleLock sid =
     bindA (catchA (apiFetch (lockRoute sid)) (\<lambda>_. ret ())) (\<lambda>_. ret (GoTo (js ''/login?step=unlock'')))"

definition handleLogout :: "jsstring \<Rightarrow> outcome on_page" where
  "handleLogout sid =
     bindA (catchA (apiFetch (logoutRoute sid)) (\<lambda>_. ret ())) (\<lambda>_. ret (GoTo (js ''/login'')))"

end
