(* ===== verification/PagesProperties.thy ===== *)
theory PagesProperties
  imports Pages BrowserProperties AccountsProperties CandidatesProperties
begin

text \<open>
  The pages and the server together: what a page shows after a change is what the server has stored,
  a removed device leaves nothing behind, and leaving the vault closes it.
\<close>

section \<open>An entry\<close>

lemma readBody_entry:
  "\<exists>data. readBody E (entryPayload form [] (if pw = [] then [] else [(js ''password'', JStr pw)])) = Inr data \<and>
     \<not> rejected E data \<and> bd_id data = None \<and> bd_userId data = None \<and> bd_encryptedPassword data = None \<and>
     bd_password data = map_option JStr (if pw = [] then None else Some pw) \<and>
     bd_serviceName data = Some (form ''serviceName'') \<and> bd_urlOrAppName data = Some (form ''urlOrAppName'') \<and>
     bd_category data = Some (form ''category'') \<and> bd_loginId data = Some (form ''loginId'') \<and>
     bd_memo data = (if form ''memo'' = [] then None else Some (Some (form ''memo'')))"
  by (cases "form ''memo''"; cases pw)
    (simp_all add: readBody_def entryPayload_def rejected_def accountColumns_def dateColumn_def Let_def)

lemma guard_runs:
  assumes "fst (unlockedGuard sid w) = Inr x"
  shows "unlockedGuard sid w = (Inr x, w\<lparr>keyStore := snd (storeTouch sid (clock w) (keyStore w))\<rparr>)"
  using assms by (simp add: run_unlockedGuard split: if_splits bool.splits option.splits)

text \<open>A guard that passes, passes again while only the database and the draws change.\<close>

lemma guard_again:
  assumes "worldInv w" and "fst (unlockedGuard sid w) = Inr x"
  shows "fst (unlockedGuard sid (w\<lparr>keyStore := snd (storeTouch sid (clock w) (keyStore w)), db := d, draws := n\<rparr>)) = Inr x"
proof -
  obtain u k where x: "x = (u, k)" by fastforce
  obtain e where e: "keyStore w sid = Some e" "ue_key e = k" "\<not> clock w - ue_lastActivityAt e > ue_autoLockMinutes e * 60000"
    using assms(2) by (auto simp: x unlockedGuard_pass keyLive_def Let_def split: option.splits if_splits)
  have "1 \<le> ue_autoLockMinutes e" using assms(1) e(1) by (simp add: worldInv_def keyStoreOk_def)
  then show ?thesis using assms(2) e
    by (auto simp: x unlockedGuard_pass keyLive_def storeTouch_def Let_def split: option.splits if_splits)
qed

text \<open>
  C31: after a change the page of an entry shows what is stored. When the page shows an entry as the
  server gave it out and a change is saved without an error, then what the page shows is what loading
  the entry again would show: the typed fields, the new password, or the old one when none was typed.
  A memo that is emptied in the form is not sent, so the old one stays: it cannot be removed.
\<close>

theorem saved_entry_shown:
  assumes "goodPlatform E" and "worldInv (server p)" and "length key = 32"
    and "fst (unlockedGuard sid (server p)) = Inr (userId, key)"
    and "findOwnAccount userId i (db (server p)) = Some a" and "aesDecrypt E (ac_encryptedPassword a) key = Inr old"
    and "dv_account v = Some (accountDetail a old)" and "wellFormed (dv_newPassword v)"
    and "handleSave E sid i form v p = (Inr v', p')" and "dv_error v' = None"
  shows "\<exists>shown. dv_account v' = Some shown \<and> fst (accountsFindOneRoute E sid i (server p')) = Inr shown \<and>
    at_password shown = (if dv_newPassword v = [] then old else dv_newPassword v) \<and>
    at_serviceName shown = form ''serviceName'' \<and> at_loginId shown = form ''loginId'' \<and>
    at_memo shown = (if form ''memo'' = [] then ac_memo a else Some (form ''memo''))"
proof -
  let ?w = "server p" and ?pw = "if dv_newPassword v = [] then None else Some (dv_newPassword v)"
  let ?w1 = "?w\<lparr>keyStore := snd (storeTouch sid (clock ?w) (keyStore ?w))\<rparr>"
  let ?body = "entryPayload form [] (if dv_newPassword v = [] then [] else [(js ''password'', JStr (dv_newPassword v))])"
  obtain data where body: "readBody E ?body = Inr data"
    and data: "\<not> rejected E data" "bd_id data = None" "bd_userId data = None" "bd_encryptedPassword data = None"
      "bd_password data = map_option JStr ?pw"
    and typed: "bd_serviceName data = Some (form ''serviceName'')" "bd_loginId data = Some (form ''loginId'')"
      "bd_memo data = (if form ''memo'' = [] then None else Some (Some (form ''memo'')))"
    using readBody_entry [of E form "dv_newPassword v"] by blast
  have inv: "dbInv (db ?w1)" using assms(2) by (simp add: worldInv_def)
  have own: "findOwnAccount userId i (db ?w1) = Some a" using assms(5) by simp
  have wf: "\<forall>q. ?pw = Some q \<longrightarrow> wellFormed q" using assms(8) by simp
  obtain enc n row where row: "row = changedRow data enc (clock ?w1) a"
    and run: "accountsUpdate E userId i key data ?w1 =
      (if \<exists>b \<in> set (accounts (db ?w1)). b \<noteq> a \<and> ac_userId b = userId \<and>
          ac_urlOrAppName b = ac_urlOrAppName row \<and> ac_loginId b = ac_loginId row
       then (Inl (ConflictException AccountAlreadyExists), ?w1\<lparr>draws := n\<rparr>)
       else (Inr row, ?w1\<lparr>db := (db ?w1)\<lparr>accounts := map (\<lambda>x. if x = a then row else x) (accounts (db ?w1))\<rparr>, draws := n\<rparr>))"
    and pw: "if truthy ?pw then aesDecrypt E (ac_encryptedPassword row) key = Inr (the ?pw)
       else ac_encryptedPassword row = ac_encryptedPassword a"
    using run_accountsUpdate [OF assms(1,3) inv own data wf] unfolding Let_def by blast
  let ?d = "(db ?w1)\<lparr>accounts := map (\<lambda>x. if x = a then row else x) (accounts (db ?w1))\<rparr>"
  let ?w2 = "?w1\<lparr>db := ?d, draws := n\<rparr>"
  define shown where "shown = (if dv_newPassword v = [] then old else dv_newPassword v)"
  have route: "accountsUpdateRoute E sid i ?body ?w = accountsUpdate E userId i key data ?w1"
    using guard_runs [OF assms(4)] body by (simp add: accountsUpdateRoute_def run_bindA)
  have "shownPassword (dv_newPassword v) (dv_account v) = Inr shown"
    using assms(7) by (simp add: shownPassword_def shown_def accountDetail_def)
  then have after: "p' = p\<lparr>server := ?w2\<rparr>" "dv_account v' = Some (accountDetail row shown)"
    using assms(9,10) route run
    by (auto simp: handleSave_def run_catchA run_bindA run_apiFetch run_liftE run_ret Let_def split: if_splits)
  have keys: "ac_id row = i" "ac_userId row = userId"
    using findOwn_D [OF own] data(2,3) by (simp_all add: row changedRow_def)
  have "find (\<lambda>x. ac_id x = i \<and> ac_userId x = userId) (map (\<lambda>x. if x = a then row else x) xs) = Some row"
    if "find (\<lambda>x. ac_id x = i \<and> ac_userId x = userId) xs = Some a" for xs
    using that keys by (induction xs) (auto split: if_splits)
  then have "findOwnAccount userId i ?d = Some row" using own by (simp add: findOwnAccount_def)
  moreover have "aesDecrypt E (ac_encryptedPassword row) key = Inr shown"
    using pw assms(6) by (auto simp: shown_def split: if_splits)
  moreover have "fst (unlockedGuard sid ?w2) = Inr (userId, key)"
    using guard_again [OF assms(2,4), where d = ?d and n = n] by simp
  ultimately have "fst (accountsFindOneRoute E sid i ?w2) = Inr (accountDetail row shown)"
    using guard_runs [of sid ?w2 "(userId, key)"]
    by (simp add: accountsFindOneRoute_def accountsFindOne_def decrypt_def act_simps)
  then show ?thesis using after typed
    by (auto simp: accountDetail_def shown_def row changedRow_def)
qed

section \<open>The list of candidates\<close>

definition pendingRows :: "jsstring \<Rightarrow> database \<Rightarrow> (candidate_row \<times> jsstring) list" where
  "pendingRows userId d =
     map (\<lambda>c. (c, actionTypeOf d c))
       (newestFirst ca_receivedAt
         (filter (\<lambda>c. ca_status c = PENDING \<and> ownedAccount userId (ca_emailAccountId c) d) (emailCandidates d)))"

lemma findPending_rows: "findPending userId w = (Inr (pendingRows userId (db w)), w)"
  by (simp add: findPending_def pendingRows_def act_simps)

lemma pendingRows_cong:
  assumes "emailCandidates d' = emailCandidates d" and "emailRules d' = emailRules d"
    and "map withoutToken (emailAccounts d') = map withoutToken (emailAccounts d)"
  shows "pendingRows userId d' = pendingRows userId d"
  using assms(1,2) ownedAccount_tokens [OF assms(3)]
  by (simp add: pendingRows_def actionTypeOf_def ruleOf_def)

lemma pendingRows_decided:
  assumes "emailCandidates d' = map (\<lambda>x. if ca_id x = i then x\<lparr>ca_status := st, ca_processedAt := t\<rparr> else x) (emailCandidates d)"
    and "st \<noteq> PENDING" and "emailRules d' = emailRules d"
    and "map withoutToken (emailAccounts d') = map withoutToken (emailAccounts d)"
  shows "pendingRows userId d' = filter (\<lambda>(c, _). ca_id c \<noteq> i) (pendingRows userId d)"
proof -
  let ?P = "\<lambda>c. ca_status c = PENDING \<and> ownedAccount userId (ca_emailAccountId c) d"
  have decided: "filter ?P (map (\<lambda>x. if ca_id x = i then x\<lparr>ca_status := st, ca_processedAt := t\<rparr> else x) cs) =
      filter (\<lambda>c. ca_id c \<noteq> i) (filter ?P cs)" for cs
    using assms(2) by (induction cs) auto
  have sorted: "newestFirst ca_receivedAt (filter Q cs) = filter Q (newestFirst ca_receivedAt cs)" for Q cs
    by (simp add: newestFirst_def filter_sort)
  have actions: "actionTypeOf d' c = actionTypeOf d c" for c
    using assms(3) by (simp add: actionTypeOf_def ruleOf_def)
  show ?thesis
    unfolding pendingRows_def assms(1) ownedAccount_tokens [OF assms(4)] decided sorted actions
    by (simp add: filter_map comp_def)
qed

text \<open>A decision of the server, in terms of the list of what waits.\<close>

lemma decide_pending:
  assumes "dbInv (db w)" and "c \<in> set (emailCandidates (db w))" and "ca_id c = i" and "st \<noteq> PENDING"
  shows "\<exists>w'. decide i st w = (Inr (c\<lparr>ca_status := st, ca_processedAt := Some (clock w)\<rparr>), w') \<and>
    pendingRows userId (db w') = filter (\<lambda>(c, _). ca_id c \<noteq> i) (pendingRows userId (db w))"
  using run_decide [OF dbInv_tables(7) [OF assms(1)] assms(2,3), of st] assms(4)
  by (intro exI conjI) (assumption, rule pendingRows_decided [where st = st and t = "Some (clock w)"], simp_all)

lemma exclude_pending:
  assumes "dbInv (db w)"
  shows "case exclude userId i w of
      (Inl e, w') \<Rightarrow> pendingRows userId (db w') = pendingRows userId (db w)
    | (Inr _, w') \<Rightarrow> pendingRows userId (db w') = filter (\<lambda>(c, _). ca_id c \<noteq> i) (pendingRows userId (db w))"
proof (cases "findOwned userId i (db w)")
  case None
  then show ?thesis by (simp add: exclude_def act_simps)
next
  case (Some x)
  obtain c rule account where x: "x = (c, rule, account)" by (cases x)
  obtain w' where "decide i EXCLUDED w = (Inr (c\<lparr>ca_status := EXCLUDED, ca_processedAt := Some (clock w)\<rparr>), w')"
    "pendingRows userId (db w') = filter (\<lambda>(c, _). ca_id c \<noteq> i) (pendingRows userId (db w))"
    using decide_pending [OF assms findOwned_D(1,2) [OF Some [unfolded x]], of EXCLUDED userId] by auto
  then show ?thesis using Some by (simp add: exclude_def act_simps)
qed

lemma approve_pending:
  assumes "worldInv w"
  shows "case approve E userId i w of
      (Inl e, w') \<Rightarrow> pendingRows userId (db w') = pendingRows userId (db w)
    | (Inr _, w') \<Rightarrow> pendingRows userId (db w') = filter (\<lambda>(c, _). ca_id c \<noteq> i) (pendingRows userId (db w))"
proof (cases "findOwned userId i (db w)")
  case None
  then show ?thesis by (simp add: run_approve)
next
  case (Some x)
  obtain c rule account where x: "x = (c, rule, account)" by (cases x)
  note c = findOwned_D(1,2) [OF Some [unfolded x]]
  have dec: "\<exists>w'. decide i APPROVED v = (Inr (c\<lparr>ca_status := APPROVED, ca_processedAt := Some (clock v)\<rparr>), w') \<and>
      pendingRows userId (db w') = filter (\<lambda>(c, _). ca_id c \<noteq> i) (pendingRows userId (db w))"
    if "worldInv v" "emailCandidates (db v) = emailCandidates (db w)" "pendingRows userId (db v) = pendingRows userId (db w)" for v
    using decide_pending [of v c i APPROVED userId] c that by (simp add: worldInv_def)
  have app: "worldInv v \<and> emailCandidates (db v) = emailCandidates (db w) \<and> pendingRows userId (db v) = pendingRows userId (db w)"
    if "applyAction E (ca_emailAccountId c) (ca_externalMessageId c) k w = (r, v)" for k r v
  proof -
    have "sameButTokens (db w) (db v)"
      using preservesD [OF gmail.apply_keeps onlyTokens_refl that] by (simp add: onlyTokens_def)
    then show ?thesis
      using preservesD [OF gmail.apply_inv assms that] pendingRows_cong [of "db v" "db w" userId]
      by (simp add: sameButTokens_def)
  qed
  let ?k = "if ru_actionType rule = js ''delete_candidate'' then DeleteMail else SpamMail"
  obtain r v where a: "applyAction E (ca_emailAccountId c) (ca_externalMessageId c) ?k w = (r, v)" by fastforce
  obtain w1 w2 where w1: "decide i APPROVED w = (Inr (c\<lparr>ca_status := APPROVED, ca_processedAt := Some (clock w)\<rparr>), w1)"
      "pendingRows userId (db w1) = filter (\<lambda>(c, _). ca_id c \<noteq> i) (pendingRows userId (db w))"
    and w2: "decide i APPROVED v = (Inr (c\<lparr>ca_status := APPROVED, ca_processedAt := Some (clock v)\<rparr>), w2)"
      "pendingRows userId (db w2) = filter (\<lambda>(c, _). ca_id c \<noteq> i) (pendingRows userId (db w))"
    using dec [OF assms refl refl] dec [of v] app [OF a] by blast
  have "pendingRows userId (db v) = pendingRows userId (db w)" using app [OF a] by simp
  then show ?thesis using Some x a w1 w2 
    by (cases r; cases "ru_actionType rule = js ''delete_candidate''") (simp_all add: run_approve)
qed

text \<open>
  C32: the list of candidates on the page stays the list of the server. When it shows what waits for the
  user, and the user approves or excludes a candidate, it afterwards shows what waits then, without
  asking again: a decision that went through has taken exactly this candidate off both lists, and one
  that failed, at the mail service for instance, has left both as they were.
\<close>

theorem review_list_current:
  assumes "worldInv (server p)" and "fst (unlockedGuard sid (server p)) = Inr (userId, key)"
    and "map_option Inr (vw_candidates v) = Some (fst (findPending userId (server p)))"
    and "(if approved then handleApprove E sid i v else handleExclude sid i v) p = (Inr v', p')"
  shows "map_option Inr (vw_candidates v') = Some (fst (findPending userId (server p')))"
proof -
  let ?w = "server p"
  let ?w1 = "?w\<lparr>keyStore := snd (storeTouch sid (clock ?w) (keyStore ?w))\<rparr>"
  note guard = guard_runs [OF assms(2)]
  have inv: "worldInv ?w1" by (rule preservesD [OF worldInv_unlockedGuard assms(1) guard])
  then have "dbInv (db ?w1)" by (simp add: worldInv_def)
  note pending = approve_pending [OF inv, where E = E and userId = userId and i = i]
    exclude_pending [OF this, where userId = userId and i = i]
  have shown: "vw_candidates v = Some (pendingRows userId (db ?w))"
    using assms(3) by (cases "vw_candidates v") (simp_all add: findPending_rows)
  show ?thesis
  proof (cases approved)
    case True
    obtain r w2 where "approve E userId i ?w1 = (r, w2)" by fastforce
    then show ?thesis using True assms(4) guard pending(1) shown
      by (cases r) (auto simp: handleApprove_def approveRoute_def act_simps run_apiFetch Let_def
          dropCandidate_def findPending_rows)
  next
    case False
    obtain r w2 where "exclude userId i ?w1 = (r, w2)" by fastforce
    then show ?thesis using False assms(4) guard pending(2) shown
      by (cases r) (auto simp: handleExclude_def excludeRoute_def act_simps run_apiFetch Let_def
          dropCandidate_def findPending_rows)
  qed
qed

section \<open>Devices\<close>

lemma removeDevice_gone:
  assumes "removeDevice userId deviceId w = (Inr (), w')"
  shows "deviceId \<notin> td_id ` set (trustedDevices (db w'))"
  using assms by (auto simp: removeDevice_def act_simps deleteDevice_def deleteRow_def split: if_splits sum.splits option.splits)

lemma guard_db:
  "unlockedGuard sid w = (r, w') \<Longrightarrow> db w' = db w"
  by (auto simp: run_unlockedGuard split: if_splits bool.splits option.splits)

lemma webauthnRemove_gone:
  assumes "webauthnRemove sid deviceId w = (Inr (), w')"
  shows "deviceId \<notin> td_id ` set (trustedDevices (db w'))"
  using assms removeDevice_gone
  by (auto simp: webauthnRemove_def run_bindA split: prod.splits sum.splits)

lemma webauthnDevices_listed:
  assumes "webauthnDevices sid w = (r, w')"
  shows "db w' = db w" and "r = Inr rows \<Longrightarrow> fst ` set rows \<subseteq> td_id ` set (trustedDevices (db w))"
  using assms guard_db
  by (fastforce simp: webauthnDevices_def listDevices_def act_simps newestFirst_def split: prod.splits sum.splits)+

text \<open>
  removing a device leaves nothing of it behind. When the removal ends without an error, the server
  has no device with this id any more, the browser has no sealed password for its credential, and the
  list on the page, fetched again, does not show it.
\<close>

theorem removed_device_gone:
  assumes "handleRemove B sid True (deviceId, label, credentialId, createdAt, lastUsedAt) v p = (Inr v', p')" and "sv_error v' = None"
  shows "deviceId \<notin> td_id ` set (trustedDevices (db (server p'))) \<and> storeRead credentialId (stored p') = None \<and>
    (\<exists>rows. sv_devices v' = Some rows \<and> deviceId \<notin> fst ` set rows)"
proof -
  obtain r w1 where remove: "webauthnRemove sid deviceId (server p) = (r, w1)" by fastforce
  obtain l w2 where reload: "webauthnDevices sid w1 = (l, w2)" by fastforce
  have ok: "r = Inr ()" "indexedDbFault B = None"
    using assms remove by (cases r; cases "indexedDbFault B"; auto simp: handleRemove_def run_catchA run_bindA run_apiFetch
        forgetThisDevice_def deleteWrappedMasterPassword_def run_openDb run_ret run_modify Let_def)+
  then have after: "(case l of Inl e \<Rightarrow> v' = v\<lparr>sv_error := Some e\<rparr> | Inr rows \<Rightarrow> v' = v\<lparr>sv_error := None, sv_devices := Some rows\<rparr>)"
      "p' = p\<lparr>server := w2, stored := storeRemove credentialId (stored p)\<rparr>"
    using assms(1) remove reload
    by (cases l; auto simp: handleRemove_def run_catchA run_bindA run_apiFetch
        forgetThisDevice_def deleteWrappedMasterPassword_def run_openDb run_ret run_modify Let_def loadDevices_def)+
  then obtain rows where rows: "l = Inr rows" "sv_devices v' = Some rows" using assms(2) by (cases l) auto
  have "deviceId \<notin> td_id ` set (trustedDevices (db w1))"
    using webauthnRemove_gone [of sid deviceId "server p" w1] remove ok(1) by simp
  then show ?thesis
    using webauthnDevices_listed [OF reload] rows after(2) by (auto simp: storeRead_remove)
qed

section \<open>Leaving\<close>

text \<open>
  the buttons for locking and for logging out do what they say, whatever the state of the session and
  whether or not the request succeeds: afterwards the gate lets no page through, and no request of the
  session passes the unlocked guard.
\<close>

theorem leaving_closes:
  "case (if out then handleLogout sid else handleLock sid) p of (r, p') \<Rightarrow>
     (\<exists>t. r = Inr (GoTo t)) \<and> fst (proxy reached sid p') \<noteq> Inr ToPage \<and>
     (\<nexists>x. fst (unlockedGuard sid (server p')) = Inr x)"
proof -
  obtain r p' where run: "(if out then handleLogout sid else handleLock sid) p = (r, p')" by fastforce
  then have closed: "(\<exists>t. r = Inr (GoTo t)) \<and> \<not> (truthy (s_userId (sessions (server p') sid)) \<and> s_unlocked (sessions (server p') sid))"
    by (auto simp: handleLogout_def handleLock_def lockRoute_def logoutRoute_def lock_def logout_def
        run_catchA run_bindA run_apiFetch run_loggedInGuard run_ret run_keyDelete run_setSession emptySession_def split: if_splits)
  then have "\<nexists>x. fst (unlockedGuard sid (server p')) = Inr x" unfolding guard_passes by blast
  with closed show ?thesis by (simp add: run proxy_result)
qed

section \<open>Witnesses\<close>

definition demoTyped :: "string \<Rightarrow> jsstring" where
  "demoTyped k = (if k = ''memo'' then [] else js k)"

definition demoDetail :: detail_view where
  "demoDetail =
     \<lparr>dv_account = Some (accountDetail (demoAccount (js ''a1'') (js ''u1'')) (js ''pw'')), dv_error = None,
      dv_editing = True, dv_newPassword = js ''new''\<rparr>"

lemma demo_guard: "fst (unlockedGuard (js ''s1'') (server demoPage)) = Inr (js ''u1'', demoUserKey)"
  by (simp add: unlockedGuard_pass keyLive_def demoPage_def demoWorld_def demoSession_def)

lemma demo_entry:
  "findOwnAccount (js ''u1'') (js ''a1'') demoDb = Some (demoAccount (js ''a1'') (js ''u1''))"
  "aesDecrypt demoEnv (ac_encryptedPassword (demoAccount (js ''a1'') (js ''u1''))) demoUserKey = Inr (js ''pw'')"
  by (simp_all add: findOwnAccount_def demoDb_def demoAccount_def demo_open length_demoUserKey)

lemma demo_saved:
  "\<exists>v' p'. handleSave demoEnv (js ''s1'') (js ''a1'') demoTyped demoDetail demoPage = (Inr v', p') \<and> dv_error v' = None"
proof -
  let ?w1 = "demoWorld\<lparr>keyStore := snd (storeTouch (js ''s1'') (clock demoWorld) (keyStore demoWorld))\<rparr>"
  have pw: "js ''new'' \<noteq> []" by simp
  obtain data where body: "readBody demoEnv (entryPayload demoTyped [] [(js ''password'', JStr (js ''new''))]) = Inr data"
    and data: "\<not> rejected demoEnv data" "bd_id data = None" "bd_userId data = None" "bd_encryptedPassword data = None"
      "bd_password data = map_option JStr (Some (js ''new''))"
    using readBody_entry [of demoEnv demoTyped "js ''new''"] unfolding if_not_P [OF pw] by blast
  have inv: "dbInv (db ?w1)" and own: "findOwnAccount (js ''u1'') (js ''a1'') (db ?w1) = Some (demoAccount (js ''a1'') (js ''u1''))"
    using dbInv_demoDb demo_entry(1) by (simp_all add: demoWorld_def)
  have single: "\<not> (\<exists>b \<in> set (accounts (db ?w1)). b \<noteq> demoAccount (js ''a1'') (js ''u1'') \<and> ac_userId b = js ''u1'' \<and>
      ac_urlOrAppName b = u \<and> ac_loginId b = l)" for u l
    by (simp add: demoWorld_def demoDb_def demoAccount_def)
  have wf: "\<forall>q. Some (js ''new'') = Some q \<longrightarrow> wellFormed q" by simp
  obtain row w2 where run: "accountsUpdate demoEnv (js ''u1'') (js ''a1'') demoUserKey data ?w1 = (Inr row, w2)"
    using run_accountsUpdate [OF goodPlatform_demo length_demoUserKey inv own data wf]
    unfolding Let_def if_not_P [OF single] by blast
  have guard: "unlockedGuard (js ''s1'') demoWorld = (Inr (js ''u1'', demoUserKey), ?w1)"
    using guard_runs [OF demo_guard] by (simp add: demoPage_def)
  show ?thesis using body run guard pw
    by (simp add: handleSave_def accountsUpdateRoute_def run_catchA run_bindA run_apiFetch run_liftE run_ret Let_def
        demoDetail_def demoPage_def shownPassword_def)
qed

lemma saved_entry_shown_witness:
  "\<exists>v' p' shown. handleSave demoEnv (js ''s1'') (js ''a1'') demoTyped demoDetail demoPage = (Inr v', p') \<and>
     dv_account v' = Some shown \<and> at_password shown = js ''new'' \<and> at_memo shown = None"
proof -
  let ?a = "demoAccount (js ''a1'') (js ''u1'')"
  obtain v' p' where run: "handleSave demoEnv (js ''s1'') (js ''a1'') demoTyped demoDetail demoPage = (Inr v', p')"
    and ok: "dv_error v' = None"
    using demo_saved by blast
  have inv: "worldInv (server demoPage)" by (simp add: demoPage_def worldInv_demoWorld)
  have own: "findOwnAccount (js ''u1'') (js ''a1'') (db (server demoPage)) = Some ?a"
    using demo_entry(1) by (simp add: demoPage_def demoWorld_def)
  have view: "dv_account demoDetail = Some (accountDetail ?a (js ''pw''))" "wellFormed (dv_newPassword demoDetail)"
    by (simp_all add: demoDetail_def)
  have facts: "dv_newPassword demoDetail = js ''new''" "ac_memo ?a = None" "demoTyped ''memo'' = []" "js ''new'' \<noteq> []"
    by (simp_all add: demoDetail_def demoAccount_def demoTyped_def)
  from saved_entry_shown [OF goodPlatform_demo inv length_demoUserKey demo_guard own demo_entry(2) view run ok]
  show ?thesis using run facts by auto
qed

definition demoReview :: review_view where
  "demoReview = \<lparr>vw_candidates = Some [(demoCandidate, js ''delete_candidate'')], vw_error = None, vw_info = None\<rparr>"

lemma handleExclude_returns: "\<exists>v' p'. handleExclude sid i v p = (Inr v', p')"
  by (cases "fst (excludeRoute sid i (server p))")
    (simp_all add: handleExclude_def run_catchA run_bindA run_apiFetch run_ret Let_def)

lemma review_list_current_witness:
  "\<exists>v' p'. handleExclude (js ''s1'') (js ''k1'') demoReview demoPage = (Inr v', p') \<and>
     map_option Inr (vw_candidates v') = Some (fst (findPending (js ''u1'') (server p')))"
proof -
  have inv: "worldInv (server demoPage)" by (simp add: demoPage_def worldInv_demoWorld)
  have view: "map_option Inr (vw_candidates demoReview) = Some (fst (findPending (js ''u1'') (server demoPage)))"
    by (simp add: demoReview_def findPending_rows pendingRows_def demoPage_def demoWorld_def demoDb_def demoCandidate_def
        ownedAccount_def demoMailAccount_def newestFirst_def actionTypeOf_def ruleOf_def demoRule_def)
  obtain v' p' where run: "(if False then handleApprove demoEnv (js ''s1'') (js ''k1'') demoReview
      else handleExclude (js ''s1'') (js ''k1'') demoReview) demoPage = (Inr v', p')"
    using handleExclude_returns [of "js ''s1''" "js ''k1''" demoReview demoPage] by auto
  from review_list_current [OF inv demo_guard view run] run show ?thesis by auto
qed

definition demoSettings :: settings_view where
  "demoSettings = \<lparr>sv_devices = None, sv_error = None, sv_prfSupported = None\<rparr>"

lemma removed_device_gone_witness:
  "\<exists>v' p'. handleRemove demoBrowser (js ''s1'') True (js ''d1'', js ''laptop'', js ''c1'', 0, None) demoSettings demoPage = (Inr v', p') \<and>
     sv_devices v' = Some [] \<and> storeRead (js ''c1'') (stored p') = None"
proof -
  obtain v' p' where run: "handleRemove demoBrowser (js ''s1'') True (js ''d1'', js ''laptop'', js ''c1'', 0, None) demoSettings demoPage = (Inr v', p')"
    and ok: "sv_error v' = None" "sv_devices v' = Some []"
    by (simp add: handleRemove_def act_simps webauthnRemove_def removeDevice_def deleteDevice_def deleteRow_def forgetThisDevice_def
        deleteWrappedMasterPassword_def loadDevices_def webauthnDevices_def listDevices_def newestFirst_def
        demoBrowser_def demoSettings_def demoPage_def demoWorld_def demoSession_def emptySession_def demoDb_def demoDevice_def
        run_unlockedGuard keyLive_def storeTouch_def Let_def)
  from removed_device_gone [OF run ok(1)] run ok show ?thesis by auto
qed

end
