(* ===== verification/BackupPage.thy ===== *)
theory BackupPage
  imports PagesProperties
begin

text \<open>
  The section for backups of \<open>settings/page.tsx\<close>: the file the page writes, the file it reads, and the
  body of the import as the server gets it. A file is its bytes; text becomes bytes and bytes become
  text as UTF-8. \<open>indented\<close> is \<open>JSON.stringify\<close> with an indentation, and \<open>bufferOf\<close> what \<open>Buffer.from\<close>
  takes from a value that is no text, as base64, or nothing when it throws.
\<close>

section \<open>Writing a file\<close>

record download =
  dl_name :: jsstring
  dl_content :: "byte list"

datatype import_message = NoFileChosen | NotABackup | ImportFailed exn

record backup_view =
  bk_exportPassword :: jsstring
  bk_exportError :: "exn option"
  bk_exported :: bool
  bk_importPassword :: jsstring
  bk_importFile :: "byte list option"
  bk_importError :: "import_message option"
  bk_importInfo :: "(nat \<times> nat) option"

definition backupJson :: "backup_file \<Rightarrow> json" where
  "backupJson b =
     JObj [(js ''version'', JNum (bf_version b)), (js ''exportedAt'', JStr (bf_exportedAt b)),
           (js ''salt'', JStr (bf_salt b)), (js ''payload'', JStr (bf_payload b))]"

definition handleExport ::
  "env \<Rightarrow> (json \<Rightarrow> jsstring) \<Rightarrow> jsstring \<Rightarrow> backup_view \<Rightarrow> (backup_view \<times> download option) on_page" where
  "handleExport E indented sid v =
     (let v = v\<lparr>bk_exportError := None, bk_exported := False\<rparr> in
      catchA
        (bindA (apiFetch (exportRoute E sid (Some (bk_exportPassword v)))) (\<lambda>backup.
         bindA (gets (\<lambda>p. clock (server p))) (\<lambda>now.
         ret (v\<lparr>bk_exportPassword := [], bk_exported := True\<rparr>,
              Some \<lparr>dl_name = js ''account-backup-'' @ take 10 (toISOString E now) @ js ''.json'',
                    dl_content = utf8Encode (indented (backupJson backup))\<rparr>))))
        (\<lambda>err. ret (v\<lparr>bk_exportError := Some err\<rparr>, None)))"

section \<open>Reading a file\<close>

text \<open>\<open>File.text\<close> drops a byte order mark.\<close>

definition fileText :: "byte list \<Rightarrow> jsstring" where
  "fileText bytes = (case utf8Decode bytes of c # t \<Rightarrow> if c = 0xFEFF then t else c # t | [] \<Rightarrow> [])"

definition bufferText :: "(json \<Rightarrow> jsstring option) \<Rightarrow> json option \<Rightarrow> jsstring option" where
  "bufferText bufferOf v = (case v of None \<Rightarrow> None | Some (JStr s) \<Rightarrow> Some s | Some j \<Rightarrow> bufferOf j)"

text \<open>
  The route with the file as it comes: the version is compared first, the salt is read before the
  payload, and a payload that cannot be read counts as one that does not decrypt.
\<close>

definition importBody ::
  "env \<Rightarrow> (json \<Rightarrow> jsstring option) \<Rightarrow> jsstring \<Rightarrow> jsstring option \<Rightarrow> json \<Rightarrow> (nat \<times> nat) action" where
  "importBody E bufferOf sid exportPassword backup =
     bindA (unlockedGuard sid) (\<lambda>(userId, key).
     bindA (throwIf (backup = JNull) TypeError) (\<lambda>_.
     bindA (throwIf (jsonField backup (js ''version'') \<noteq> Some (JNum (Fin 1)))
              (BadRequestException BackupVersionUnsupported)) (\<lambda>_.
       case bufferText bufferOf (jsonField backup (js ''salt'')) of
         None \<Rightarrow> throw TypeError
       | Some salt \<Rightarrow>
           (case bufferText bufferOf (jsonField backup (js ''payload'')) of
              None \<Rightarrow>
                bindA (deriveEncryptionKey E exportPassword salt) (\<lambda>_.
                throw (BadRequestException BackupPasswordWrongOrDamaged))
            | Some payload \<Rightarrow>
                importAccounts E userId key exportPassword
                  \<lparr>bf_version = Fin 1, bf_exportedAt = [], bf_salt = salt, bf_payload = payload\<rparr>))))"

definition handleImport ::
  "env \<Rightarrow> (json \<Rightarrow> jsstring option) \<Rightarrow> jsstring \<Rightarrow> backup_view \<Rightarrow> backup_view on_page" where
  "handleImport E bufferOf sid v =
     (let v = v\<lparr>bk_importError := None, bk_importInfo := None\<rparr> in
      case bk_importFile v of
        None \<Rightarrow> ret (v\<lparr>bk_importError := Some NoFileChosen\<rparr>)
      | Some bytes \<Rightarrow>
          (case jsonParse E (fileText bytes) of
             None \<Rightarrow> ret (v\<lparr>bk_importError := Some NotABackup\<rparr>)
           | Some backup \<Rightarrow>
               catchA
                 (bindA (apiFetch (importBody E bufferOf sid (Some (bk_importPassword v)) backup)) (\<lambda>result.
                  ret (v\<lparr>bk_importPassword := [], bk_importFile := None, bk_importInfo := Some result\<rparr>)))
                 (\<lambda>err. ret (v\<lparr>bk_importError := Some (ImportFailed err)\<rparr>))))"

section \<open>The round trip through a file\<close>

text \<open>Parsing inverts the indented printing, whose text does not start with a byte order mark.\<close>

definition indentLaw :: "env \<Rightarrow> (json \<Rightarrow> jsstring) \<Rightarrow> bool" where
  "indentLaw E indented \<longleftrightarrow>
     (\<forall>v. plainJson v \<longrightarrow> jsonParse E (indented v) = Some v \<and> wellFormed (indented v) \<and> take 1 (indented v) \<noteq> [0xFEFF])"

lemma parse_download:
  assumes "indentLaw E indented" and "bf_version b = Fin 1"
  shows "jsonParse E (fileText (utf8Encode (indented (backupJson b)))) = Some (backupJson b)"
proof -
  let ?v = "backupJson b"
  have "plainJson ?v" using assms(2) isInteger.simps(1) [of 1] by (simp add: backupJson_def digitFirst_def js_def)
  then have "jsonParse E (indented ?v) = Some ?v" "wellFormed (indented ?v)" "take 1 (indented ?v) \<noteq> [0xFEFF]"
    using assms(1) by (simp_all add: indentLaw_def)
  then show ?thesis by (cases "indented ?v") (simp_all add: fileText_def)
qed

lemma importBody_download:
  assumes "bf_version b = Fin 1" and "unlockedGuard sid w = (Inr (userId, key), v)"
  shows "importBody E bufferOf sid pw (backupJson b) w =
    importAccounts E userId key pw (b\<lparr>bf_exportedAt := []\<rparr>) v"
  using assms by (cases b) (simp add: importBody_def backupJson_def bufferText_def act_simps)

lemma export_version: "exportAccounts E userId key pw w = (Inr b, w') \<Longrightarrow> bf_version b = Fin 1"
  by (auto simp: exportAccounts_def act_simps split: sum.splits prod.splits)

lemma importAccounts_cong:
  "bf_version b = bf_version c \<Longrightarrow> bf_salt b = bf_salt c \<Longrightarrow> bf_payload b = bf_payload c \<Longrightarrow>
   importAccounts E userId key pw b = importAccounts E userId key pw c"
  by (simp add: importAccounts_def)

lemma run_handleExport:
  "exportRoute E sid (Some (bk_exportPassword v)) (server p) = (Inr b, w) \<Longrightarrow>
   handleExport E indented sid v p =
     (Inr (v\<lparr>bk_exportError := None, bk_exportPassword := [], bk_exported := True\<rparr>,
           Some \<lparr>dl_name = js ''account-backup-'' @ take 10 (toISOString E (clock w)) @ js ''.json'',
                 dl_content = utf8Encode (indented (backupJson b))\<rparr>), p\<lparr>server := w\<rparr>)"
  by (simp add: handleExport_def run_catchA run_bindA run_apiFetch run_gets run_ret)

lemma run_handleImport:
  "bk_importFile v = Some bytes \<Longrightarrow> jsonParse E (fileText bytes) = Some j \<Longrightarrow>
   importBody E bufferOf sid (Some (bk_importPassword v)) j (server p) = (Inr x, w) \<Longrightarrow>
   handleImport E bufferOf sid v p =
     (Inr (v\<lparr>bk_importPassword := [], bk_importFile := None, bk_importError := None, bk_importInfo := Some x\<rparr>), p\<lparr>server := w\<rparr>)"
  by (simp add: handleImport_def run_catchA run_bindA run_apiFetch run_ret)

definition emptiedPage :: page where
  "emptiedPage = \<lparr>server = demoWorld\<lparr>db := demoDb\<lparr>accounts := []\<rparr>\<rparr>, stored = [], drawn = 0\<rparr>"

definition demoBackupView :: backup_view where
  "demoBackupView =
     \<lparr>bk_exportPassword = js ''export'', bk_exportError = None, bk_exported = False, bk_importPassword = [],
      bk_importFile = None, bk_importError = None, bk_importInfo = None\<rparr>"


lemma indentLaw_demo: "indentLaw demoEnv (jsonStringify demoEnv)"
proof -
  have "take 1 (jsonStringify demoEnv v) \<noteq> [0xFEFF]" for v
    by (cases "to_nat v") (simp_all add: demoEnv_def)
  then show ?thesis using jsonLaw_demoEnv by (simp add: indentLaw_def jsonLaw_def)
qed


end
