(* ===== verification/Screens.thy ===== *)
theory Screens
  imports BackupPage RuleForm
begin

text \<open>
  What the pages show and what they let the user do: the fields of their forms with the checks the
  browser makes before it submits one, the login page as a machine, the parts of a page that depend on
  its state, and which pages there are. Texts are named and not spelled out, and styles are left out.
\<close>

section \<open>Forms\<close>

text \<open>\<open>required\<close> and \<open>minLength\<close>: an empty field only has to be there, a typed one has to be long enough.\<close>

definition fieldValid :: "bool \<Rightarrow> nat \<Rightarrow> jsstring \<Rightarrow> bool" where
  "fieldValid required minLength value \<longleftrightarrow> (if value = [] then \<not> required else minLength \<le> length value)"

text \<open>A field for numbers with bounds, in steps of one.\<close>

definition numberValid :: "rat \<Rightarrow> rat \<Rightarrow> jsnum \<Rightarrow> bool" where
  "numberValid low high n \<longleftrightarrow> (case n of Fin r \<Rightarrow> isInteger (Fin r) \<and> low \<le> r \<and> r \<le> high | _ \<Rightarrow> False)"

definition lockFormValid :: "lock_view \<Rightarrow> bool" where
  "lockFormValid v \<longleftrightarrow> (case lv_autoLockMinutes v of None \<Rightarrow> False | Some minutes \<Rightarrow> numberValid 1 240 minutes)"

definition changeFormValid :: "(string \<Rightarrow> jsstring) \<Rightarrow> bool" where
  "changeFormValid form \<longleftrightarrow>
     fieldValid True 0 (form ''currentPassword'') \<and> fieldValid True 8 (form ''newPassword'') \<and>
     fieldValid True 8 (form ''confirmPassword'')"

definition exportFormValid :: "backup_view \<Rightarrow> bool" where
  "exportFormValid v \<longleftrightarrow> fieldValid True 8 (bk_exportPassword v)"

definition newFormValid :: "(string \<Rightarrow> jsstring) \<Rightarrow> jsstring \<Rightarrow> bool" where
  "newFormValid form password \<longleftrightarrow>
     list_all (\<lambda>k. fieldValid True 0 (form k)) [''serviceName'', ''urlOrAppName'', ''category'', ''loginId''] \<and>
     fieldValid True 0 password"

section \<open>The login page\<close>

datatype login_error = FromAddress jsstring | FromHandler exn

record login_view =
  lg_step :: "jsstring option"
  lg_error :: "login_error option"
  lg_canUseBiometric :: bool
  lg_confirmedNoRecovery :: bool

text \<open>The page as it opens, from the parameters of its address.\<close>

definition loginView :: "jsstring option \<Rightarrow> jsstring option \<Rightarrow> login_view" where
  "loginView step initialError =
     \<lparr>lg_step = step, lg_error = map_option FromAddress initialError, lg_canUseBiometric = False,
      lg_confirmedNoRecovery = False\<rparr>"

definition lookForDevice :: "browser \<Rightarrow> login_view \<Rightarrow> login_view on_page" where
  "lookForDevice B v =
     (if lg_step v = Some (js ''unlock'')
      then catchA (bindA (hasStoredDevice B) (\<lambda>found. ret (v\<lparr>lg_canUseBiometric := found\<rparr>))) (\<lambda>_. ret v)
      else ret v)"

definition asksPassword :: "login_view \<Rightarrow> bool" where
  "asksPassword v \<longleftrightarrow> lg_step v = Some (js ''setup'') \<or> lg_step v = Some (js ''unlock'')"

datatype login_event = GoogleClicked | RecoveryTicked bool | PasswordEntered jsstring | BiometricClicked

fun loginOffers :: "login_view \<Rightarrow> login_event \<Rightarrow> bool" where
  "loginOffers v GoogleClicked \<longleftrightarrow> \<not> asksPassword v"
| "loginOffers v (RecoveryTicked _) \<longleftrightarrow> lg_step v = Some (js ''setup'')"
| "loginOffers v (PasswordEntered password) \<longleftrightarrow>
     asksPassword v \<and> fieldValid True (if lg_step v = Some (js ''setup'') then 8 else 0) password \<and>
     \<not> (lg_step v = Some (js ''setup'') \<and> \<not> lg_confirmedNoRecovery v)"
| "loginOffers v BiometricClicked \<longleftrightarrow> asksPassword v \<and> lg_canUseBiometric v"

text \<open>A handler moves on or shows its error.\<close>

definition showOutcome :: "outcome on_page \<Rightarrow> login_view \<Rightarrow> (login_view \<times> jsstring option) on_page" where
  "showOutcome m v =
     bindA m (\<lambda>r. case r of
         GoTo target \<Rightarrow> ret (v\<lparr>lg_error := None\<rparr>, Some target)
       | ShowError e \<Rightarrow> ret (v\<lparr>lg_error := Some (FromHandler e)\<rparr>, None))"

fun loginEvent ::
  "browser \<Rightarrow> env \<Rightarrow> jsstring \<Rightarrow> login_event \<Rightarrow> login_view \<Rightarrow> (login_view \<times> jsstring option) on_page" where
  "loginEvent B E sid GoogleClicked v = showOutcome (handleGoogleLogin E sid) v"
| "loginEvent B E sid (RecoveryTicked b) v = ret (v\<lparr>lg_confirmedNoRecovery := b\<rparr>, None)"
| "loginEvent B E sid (PasswordEntered password) v = showOutcome (handlePasswordSubmit E sid (lg_step v) password) v"
| "loginEvent B E sid BiometricClicked v = showOutcome (handleBiometricUnlock B E sid) v"

text \<open>What can happen on an open login page: events it offers, while the rest of the world moves on.\<close>

inductive visit :: "browser \<Rightarrow> env \<Rightarrow> jsstring \<Rightarrow> login_view \<Rightarrow> login_event list \<Rightarrow> login_view \<Rightarrow> bool" for B E sid where
  visit_refl: "visit B E sid v [] v"
| visit_look: "visit B E sid v evs u \<Longrightarrow> lookForDevice B u p = (Inr u', p') \<Longrightarrow> visit B E sid v evs u'"
| visit_event: "visit B E sid v evs u \<Longrightarrow> loginOffers u ev \<Longrightarrow> loginEvent B E sid ev u p = (Inr (u', t), p') \<Longrightarrow>
    visit B E sid v (evs @ [ev]) u'"

section \<open>An entry\<close>

datatype entry_text = Plain jsstring | Dots

datatype detail_screen =
    DetailError exn
  | DetailLoading
  | DetailForm "string \<Rightarrow> jsstring" "exn option"
  | DetailRows jsstring "(string \<times> entry_text) list" "exn option"

definition formDefaults :: "account_detail \<Rightarrow> string \<Rightarrow> jsstring" where
  "formDefaults account name =
     (if name = ''serviceName'' then at_serviceName account
      else if name = ''urlOrAppName'' then at_urlOrAppName account
      else if name = ''category'' then at_category account
      else if name = ''loginId'' then at_loginId account
      else if name = ''memo'' then orElse (at_memo account) []
      else [])"

definition detailScreen :: "bool \<Rightarrow> detail_view \<Rightarrow> detail_screen" where
  "detailScreen showPassword v =
     (case dv_account v of
        None \<Rightarrow> (case dv_error v of Some e \<Rightarrow> DetailError e | None \<Rightarrow> DetailLoading)
      | Some account \<Rightarrow>
          if dv_editing v then DetailForm (formDefaults account) (dv_error v)
          else DetailRows (at_serviceName account)
            ([(''urlOrAppName'', Plain (at_urlOrAppName account)), (''category'', Plain (at_category account)),
              (''loginId'', Plain (at_loginId account)),
              (''password'', if showPassword then Plain (at_password account) else Dots)] @
             (if truthy (at_memo account) then [(''memo'', Plain (orElse (at_memo account) []))] else []))
            (dv_error v))"

section \<open>Lists\<close>

text \<open>What a page with one list shows: an error, a note while it loads, a note when it is empty, the items.\<close>

record 'a list_screen =
  ls_error :: "exn option"
  ls_loading :: bool
  ls_empty :: bool
  ls_items :: "'a list"

record accounts_view =
  av_accounts :: "account_view list option"
  av_error :: "exn option"

definition loadAccountList :: "env \<Rightarrow> jsstring \<Rightarrow> accounts_view \<Rightarrow> accounts_view on_page" where
  "loadAccountList E sid v =
     catchA
       (bindA (apiFetch (accountsFindAllRoute E sid None None)) (\<lambda>accounts. ret (v\<lparr>av_accounts := Some accounts\<rparr>)))
       (\<lambda>err. ret (v\<lparr>av_error := Some err\<rparr>))"

definition accountsScreen :: "accounts_view \<Rightarrow> (jsstring \<times> jsstring \<times> jsstring \<times> jsstring) list_screen" where
  "accountsScreen v =
     \<lparr>ls_error = av_error v, ls_loading = (av_accounts v = None \<and> av_error v = None),
      ls_empty = (av_accounts v = Some []),
      ls_items = map (\<lambda>a. (av_serviceName a, av_urlOrAppName a, av_category a, av_loginId a)) (orElse (av_accounts v) [])\<rparr>"

record important_view =
  iv_summary :: "account_summary list option"
  iv_error :: "exn option"

definition loadSummary :: "jsstring \<Rightarrow> important_view \<Rightarrow> important_view on_page" where
  "loadSummary sid v =
     catchA
       (bindA (apiFetch (importantSummaryRoute sid)) (\<lambda>summary. ret (v\<lparr>iv_summary := Some summary\<rparr>)))
       (\<lambda>err. ret (v\<lparr>iv_error := Some err\<rparr>))"

definition importantScreen :: "important_view \<Rightarrow> (jsstring \<times> nat) list_screen" where
  "importantScreen v =
     \<lparr>ls_error = iv_error v, ls_loading = (iv_summary v = None \<and> iv_error v = None),
      ls_empty = (iv_summary v = Some []),
      ls_items = map (\<lambda>s. (sm_displayName s, sm_importantCount s)) (orElse (iv_summary v) [])\<rparr>"

text \<open>
  The texts for an action go together, so one name stands for the badge, the button and the description.
  A lookup in a JavaScript object also finds what every object inherits; there the texts are missing.
\<close>

datatype action_info = DeletesMail | ReportsSpam | ListsImportant | RunsAction jsstring | NoTexts

definition OBJECT_MEMBERS :: "jsstring list" where
  "OBJECT_MEMBERS =
     map js [''constructor'', ''__defineGetter__'', ''__defineSetter__'', ''hasOwnProperty'', ''__lookupGetter__'',
       ''__lookupSetter__'', ''isPrototypeOf'', ''propertyIsEnumerable'', ''toString'', ''valueOf'', ''__proto__'',
       ''toLocaleString'']"

definition getActionInfo :: "jsstring \<Rightarrow> action_info" where
  "getActionInfo actionType =
     (if actionType = js ''delete_candidate'' then DeletesMail
      else if actionType = js ''spam_candidate'' then ReportsSpam
      else if actionType = js ''important'' then ListsImportant
      else if actionType \<in> set OBJECT_MEMBERS then NoTexts
      else RunsAction actionType)"

record review_item =
  ri_id :: jsstring
  ri_subject :: "jsstring option" \<comment> \<open>\<open>None\<close>: the note that there is none\<close>
  ri_sender :: jsstring
  ri_receivedAt :: int
  ri_action :: action_info

text \<open>Unlike the other two, this page keeps the note that it is loading next to an error.\<close>

definition reviewScreen :: "review_view \<Rightarrow> review_item list_screen" where
  "reviewScreen v =
     \<lparr>ls_error = vw_error v, ls_loading = (vw_candidates v = None), ls_empty = (vw_candidates v = Some []),
      ls_items = map (\<lambda>(c, actionType).
        \<lparr>ri_id = ca_id c, ri_subject = (if ca_subject c = [] then None else Some (ca_subject c)),
         ri_sender = ca_sender c, ri_receivedAt = ca_receivedAt c, ri_action = getActionInfo actionType\<rparr>)
        (orElse (vw_candidates v) [])\<rparr>"

section \<open>The rules in words\<close>

text \<open>A label of the list, or the value itself where the list has none.\<close>

datatype label = Known jsstring | Raw jsstring

definition labelIn :: "jsstring list \<Rightarrow> jsstring \<Rightarrow> label" where
  "labelIn values value = (if value \<in> set values then Known value else Raw value)"

definition actionLabel :: "jsstring \<Rightarrow> label" where
  "actionLabel actionType = labelIn ACTION_TYPES actionType"

datatype summary_value = Written "json option" | Yes | No

fun nullish :: "json option \<Rightarrow> bool" where
  "nullish None = True"
| "nullish (Some v) = (v = JNull)"

definition summaryValue :: "(jsstring \<times> json) list \<Rightarrow> summary_value" where
  "summaryValue value =
     (if js ''contains'' \<in> fst ` set value \<or> js ''domain'' \<in> fst ` set value
      then Written (if nullish (map_of value (js ''domain'')) then map_of value (js ''contains'') else map_of value (js ''domain''))
      else if map_of value (js ''equals'') = Some (JBool False) then No else Yes)"

text \<open>The operator \<open>in\<close> throws on what is no object.\<close>

definition conditionSummary :: "condition_row \<Rightarrow> exn + (label \<times> summary_value)" where
  "conditionSummary c =
     (case co_conditionValue c of
        JObj value \<Rightarrow> Inr (labelIn CONDITION_TYPES (co_conditionType c), summaryValue value)
      | JArr _ \<Rightarrow> Inr (labelIn CONDITION_TYPES (co_conditionType c), Yes)
      | _ \<Rightarrow> Inl TypeError)"

text \<open>
  A rule is shown as a text, or as the form that changes it. A condition whose text throws takes the whole
  page down.
\<close>

datatype rule_item =
    RuleFormOpen rule_with_conditions
  | RuleText label "(label \<times> summary_value) list" "logical_operator option"

definition ruleItem :: "jsstring option \<Rightarrow> rule_with_conditions \<Rightarrow> exn + rule_item" where
  "ruleItem editingRuleId rule =
     (if editingRuleId = Some (ru_id (rc_rule rule)) then Inr (RuleFormOpen rule)
      else case mapE conditionSummary (rc_conditions rule) of
          Inl e \<Rightarrow> Inl e
        | Inr texts \<Rightarrow>
            Inr (RuleText (actionLabel (ru_actionType (rc_rule rule))) texts
              (if length (rc_conditions rule) > 1 then Some (ru_logicalOperator (rc_rule rule)) else None)))"

record mailbox_item =
  mb_account :: email_account_view
  mb_rules :: "rule_item list"

definition mailboxItem :: "rules_view \<Rightarrow> email_account_view \<Rightarrow> exn + mailbox_item" where
  "mailboxItem v account =
     (case mapE (ruleItem (rv_editingRuleId v)) (orElse (rv_rulesByAccount v (ev_id account)) []) of
        Inl e \<Rightarrow> Inl e
      | Inr items \<Rightarrow> Inr \<lparr>mb_account = account, mb_rules = items\<rparr>)"

definition rulesScreen :: "rules_view \<Rightarrow> exn + mailbox_item list_screen" where
  "rulesScreen v =
     (case mapE (mailboxItem v) (orElse (rv_accounts v) []) of
        Inl e \<Rightarrow> Inl e
      | Inr items \<Rightarrow>
          Inr \<lparr>ls_error = rv_error v, ls_loading = (rv_accounts v = None), ls_empty = (rv_accounts v = Some []),
               ls_items = items\<rparr>)"

section \<open>The pages there are\<close>

text \<open>A path is the list of its segments; the directories under \<open>app\<close> say which page it leads to.\<close>

datatype screen =
    DashboardScreen | AccountListScreen | NewAccountScreen | AccountScreen string | RulesScreen | ReviewScreen
  | ImportantScreen | SettingsScreen | LoginScreen

fun screenAt :: "string list \<Rightarrow> screen option" where
  "screenAt [] = Some DashboardScreen"
| "screenAt [a] =
     (if a = ''accounts'' then Some AccountListScreen else if a = ''settings'' then Some SettingsScreen
      else if a = ''login'' then Some LoginScreen else None)"
| "screenAt [a, b] =
     (if a = ''accounts'' then Some (if b = ''new'' then NewAccountScreen else AccountScreen b)
      else if a = ''mail'' \<and> b = ''rules'' then Some RulesScreen
      else if a = ''mail'' \<and> b = ''review'' then Some ReviewScreen
      else if a = ''mail'' \<and> b = ''important'' then Some ImportantScreen
      else None)"
| "screenAt _ = None"

definition NAV_ITEMS :: "string list list" where
  "NAV_ITEMS =
     [[], [''accounts''], [''mail'', ''rules''], [''mail'', ''review''], [''mail'', ''important''], [''settings'']]"

text \<open>A pattern of the gate is a path, or a path with any number of segments after it.\<close>

datatype path_pattern = Exactly "string list" | AtOrBelow "string list"

definition MATCHER :: "path_pattern list" where
  "MATCHER = [Exactly [], AtOrBelow [''accounts''], AtOrBelow [''mail''], AtOrBelow [''settings'']]"

fun matchesPath :: "string list \<Rightarrow> path_pattern \<Rightarrow> bool" where
  "matchesPath segs (Exactly p) \<longleftrightarrow> segs = p"
| "matchesPath segs (AtOrBelow p) \<longleftrightarrow> take (length p) segs = p"

definition gated :: "string list \<Rightarrow> bool" where
  "gated segs \<longleftrightarrow> list_ex (matchesPath segs) MATCHER"

text \<open>What the browser of a session ends up with for a path: the page, or a way to the login page.\<close>

datatype arrival = Page screen | NotFound | LoginFirst | UnlockFirst

definition visitPath :: "bool \<Rightarrow> jsstring \<Rightarrow> string list \<Rightarrow> arrival on_page" where
  "visitPath reached sid segs =
     (let arrive = (case screenAt segs of None \<Rightarrow> NotFound | Some s \<Rightarrow> Page s) in
      if gated segs
      then bindA (proxy reached sid) (\<lambda>g. ret (case g of ToLogin \<Rightarrow> LoginFirst | ToUnlock \<Rightarrow> UnlockFirst | ToPage \<Rightarrow> arrive))
      else ret arrive)"

end
