(* ===== verification/ScreensProperties.thy ===== *)
theory ScreensProperties
  imports Screens RuleFormProperties MailProperties
begin

text \<open>
  The pages keep what they promise: their forms make the checks of the server, their buttons do what
  their texts say, and every page but the one for the login is behind the gate.
\<close>

section \<open>Forms and checks of the server\<close>

lemma fieldValid_password: "fieldValid True 8 s \<longleftrightarrow> \<not> tooShort (Some s)"
  unfolding tooShort_iff fieldValid_def by auto

lemma numberValid_lock: "numberValid 1 240 n \<longleftrightarrow> (\<exists>k. lockMinutesOf (jsonNumber n) = Some k)"
proof (cases n)
  case (Fin r)
  show ?thesis
  proof (cases "isInteger (Fin r)")
    case True
    then obtain k where k: "r = of_int k" using isInteger.simps(1) by metis
    have "(1 :: rat) \<le> of_int k \<longleftrightarrow> 1 \<le> k" and "(of_int k :: rat) \<le> 240 \<longleftrightarrow> k \<le> 240"
      by (metis of_int_1 of_int_le_iff) (metis of_int_numeral of_int_le_iff)
    then show ?thesis using True by (simp add: Fin k numberValid_def jsonNumber_def lockMinutesOf_iff)
  next
    case False
    then show ?thesis by (simp add: Fin numberValid_def jsonNumber_def lockMinutesOf_def)
  qed
qed (simp_all add: numberValid_def jsonNumber_def lockMinutesOf_def)

text \<open>
  C34: the forms make the same checks as the server. The form for a new master password lets exactly the
  passwords through that the set-up accepts, once the note on recovery is ticked; the form for a change
  those that the change accepts; and the field for the lock time exactly the values the server accepts.
\<close>

theorem forms_agree_with_server:
  "(loginOffers (lv\<lparr>lg_step := Some (js ''setup'')\<rparr>) (PasswordEntered s) \<longleftrightarrow> lg_confirmedNoRecovery lv \<and> \<not> tooShort (Some s)) \<and>
   (changeFormValid form \<longleftrightarrow> form ''currentPassword'' \<noteq> [] \<and> \<not> tooShort (Some (form ''newPassword'')) \<and>
      \<not> tooShort (Some (form ''confirmPassword''))) \<and>
   (lockFormValid v \<longleftrightarrow> (\<exists>n k. lv_autoLockMinutes v = Some n \<and> lockMinutesOf (jsonNumber n) = Some k))"
  by (auto simp: asksPassword_def fieldValid_password changeFormValid_def lockFormValid_def numberValid_lock
      fieldValid_def [of True 0] split: option.split)

section \<open>The set-up on the login page\<close>

lemma visit_step: "visit B E sid v evs u \<Longrightarrow> lg_step u = lg_step v"
proof (induction rule: visit.induct)
  case (visit_look v evs u p u' p')
  then show ?case by (auto simp: lookForDevice_def run_catchA run_bindA run_ret split: if_splits prod.splits sum.splits)
next
  case (visit_event v evs u ev p u' t p')
  then show ?case
    by (cases ev) (auto simp: showOutcome_def run_bindA run_ret split: prod.splits sum.splits outcome.splits)
qed simp

lemma visit_ticked:
  "visit B E sid v evs u \<Longrightarrow> \<not> lg_confirmedNoRecovery v \<Longrightarrow> lg_confirmedNoRecovery u \<Longrightarrow>
   \<exists>before after. evs = before @ RecoveryTicked True # after \<and> RecoveryTicked False \<notin> set after"
proof (induction rule: visit.induct)
  case (visit_look v evs u p u' p')
  then show ?case
    by (auto simp: lookForDevice_def run_catchA run_bindA run_ret split: if_splits prod.splits sum.splits)
next
  case (visit_event v evs u ev p u' t p')
  show ?case
  proof (cases "\<exists>b. ev = RecoveryTicked b")
    case True
    then have "ev = RecoveryTicked True" using visit_event by (auto simp: run_ret)
    then show ?thesis by (intro exI [of _ evs] exI [of _ "[]"]) simp
  next
    case False
    then have "lg_confirmedNoRecovery u' = lg_confirmedNoRecovery u"
      using visit_event.hyps(3)
      by (cases ev) (auto simp: showOutcome_def run_bindA run_ret split: prod.splits sum.splits outcome.splits)
    then obtain before after where "evs = before @ RecoveryTicked True # after" "RecoveryTicked False \<notin> set after"
      using visit_event by auto
    then show ?thesis using False by (intro exI [of _ before] exI [of _ "after @ [ev]"]) auto
  qed
qed simp

lemma setup_not_short:
  assumes "goodPlatform E" and "argon2Law E" and "\<not> tooShort (Some s)"
  shows "fst (setupMasterPassword E sid (Some s) w) \<noteq> Inl (BadRequestException MasterPasswordTooShort)"
proof (cases "truthy (s_userId (sessions w sid)) \<or> s_pendingGoogle (sessions w sid) = None")
  case True
  then have "setupMasterPassword E sid (Some s) w =
    (Inl (if truthy (s_userId (sessions w sid)) then ConflictException MasterPasswordAlreadySet
          else UnauthorizedException GoogleLoginFirst), w)"
    by (subst setup_refused) auto
  then show ?thesis by simp
next
  case False
  then obtain g where g: "s_pendingGoogle (sessions w sid) = Some g" by auto
  have len: "8 \<le> length s" using assms(3) tooShort_iff [of "Some s"] by simp
  obtain key where "deriveKey E s (base64Encode (randomBytes E (draws w) 16)) = Inr key"
    using deriveKey_fresh assms(1,2) unfolding goodPlatform_def by blast
  then show ?thesis using False run_setupMasterPassword [OF _ g len] by (simp add: Let_def split: sum.split)
qed

text \<open>
  C24: nobody sets a master password unwarned. When the login page opened for a set-up offers to submit a
  password, the note that nobody can recover it has been ticked and not been cleared since; and the
  server does not refuse the password as too short.
\<close>

theorem setup_is_confirmed:
  assumes "goodPlatform E" and "argon2Law E"
    and "visit B E sid (loginView (Some (js ''setup'')) initialError) evs v"
    and "loginOffers v (PasswordEntered s)" and "loginEvent B E sid (PasswordEntered s) v p = (Inr (v', target), p')"
  shows "(\<exists>before after. evs = before @ RecoveryTicked True # after \<and> RecoveryTicked False \<notin> set after) \<and>
    lg_error v' \<noteq> Some (FromHandler (BadRequestException MasterPasswordTooShort))"
proof
  have step: "lg_step v = Some (js ''setup'')" using visit_step [OF assms(3)] by (simp add: loginView_def)
  then have ok: "lg_confirmedNoRecovery v" "\<not> tooShort (Some s)" using assms(4) by (simp_all add: fieldValid_password)
  show "\<exists>before after. evs = before @ RecoveryTicked True # after \<and> RecoveryTicked False \<notin> set after"
    using visit_ticked [OF assms(3)] ok(1) by (simp add: loginView_def)
  obtain r w where run: "setupMasterPassword E sid (Some s) (server p) = (r, w)" by fastforce
  then have "r \<noteq> Inl (BadRequestException MasterPasswordTooShort)"
    using setup_not_short [OF assms(1,2) ok(2), of sid "server p"] by simp
  then show "lg_error v' \<noteq> Some (FromHandler (BadRequestException MasterPasswordTooShort))"
    using assms(5) run step
    by (cases r) (auto simp: showOutcome_def handlePasswordSubmit_def guarded_def setupRoute_def run_bindA run_catchA
        run_apiFetch run_ret)
qed

section \<open>Saving an entry as it is\<close>

lemma readBody_unchanged:
  "\<exists>data. readBody E (entryPayload form [] []) = Inr data \<and> \<not> rejected E data \<and> bd_id data = None \<and>
     bd_userId data = None \<and> bd_encryptedPassword data = None \<and> bd_password data = map_option JStr None \<and>
     (\<forall>enc now a. changedRow data enc now a =
        a\<lparr>ac_serviceName := form ''serviceName'', ac_urlOrAppName := form ''urlOrAppName'',
          ac_category := form ''category'', ac_loginId := form ''loginId'',
          ac_encryptedPassword := orElse enc (ac_encryptedPassword a),
          ac_memo := (if form ''memo'' = [] then ac_memo a else Some (form ''memo'')), ac_updatedAt := now\<rparr>)"
  by (cases "form ''memo''")
    (simp_all add: readBody_def entryPayload_def rejected_def accountColumns_def dateColumn_def Let_def changedRow_def)


section \<open>The gate\<close>

lemma gated_screens: "screenAt segs = Some s \<Longrightarrow> gated segs \<longleftrightarrow> s \<noteq> LoginScreen"
  by (cases segs rule: screenAt.cases) (auto simp: gated_def MATCHER_def split: if_splits)

lemma guard_logged_in: "fst (unlockedGuard sid w) = Inr x \<Longrightarrow> truthy (s_userId (sessions w sid))"
  using guard_passes by blast


section \<open>The buttons of the review page\<close>

lemma findOwned_action: "findOwned userId i d = Some (c, rule, account) \<Longrightarrow> actionTypeOf d c = ru_actionType rule"
  by (auto simp: findOwned_def actionTypeOf_def split: option.splits)

text \<open>The calls a text of the page promises.\<close>

fun promised :: "action_info \<Rightarrow> credentials \<Rightarrow> jsstring \<Rightarrow> gmail_call list" where
  "promised DeletesMail auth message = [TrashMessage auth message]"
| "promised ReportsSpam auth message = [ModifyMessage auth message [js ''SPAM'']]"
| "promised _ auth message = []"

lemma promised_action:
  "promised (getActionInfo t) auth m =
     (if t = js ''delete_candidate'' then [TrashMessage auth m]
      else if t = js ''spam_candidate'' then [ModifyMessage auth m [js ''SPAM'']] else [])"
  by (simp add: getActionInfo_def)

lemma pendingRows_mem: "(c, t) \<in> set (pendingRows userId d) \<Longrightarrow> c \<in> set (emailCandidates d) \<and> t = actionTypeOf d c"
  by (auto simp: pendingRows_def newestFirst_def)


section \<open>The rules in words\<close>

text \<open>What the words of a condition mean for the matcher.\<close>

fun meaning :: "label \<Rightarrow> summary_value \<Rightarrow> clause" where
  "meaning (Known t) (Written v) =
     containsClause (if t = js ''sender'' then Sender else if t = js ''subject_keyword'' then Subject else Body) v"
| "meaning (Known t) Yes =
     (if t = js ''has_emoji'' then HasEmoji True else if t = js ''has_attachment'' then HasAttachment True else Never)"
| "meaning _ _ = Never"

text \<open>A line as the form for a new rule leaves it: a type, and the text typed for it, if any was.\<close>

definition textTypes :: "jsstring list" where
  "textTypes = [js ''sender'', js ''subject_keyword'', js ''body_keyword'']"

definition madeLine :: "form_condition \<Rightarrow> bool" where
  "madeLine l \<longleftrightarrow> (\<exists>t value. l = [(js ''conditionType'', JStr t), (js ''conditionValue'', JObj value)] \<and>
     t \<in> set CONDITION_TYPES \<and>
     (value = [] \<or> t \<in> set textTypes \<and> (\<exists>s. value = [(if t = js ''sender'' then js ''domain'' else js ''contains'', JStr s)])))"

lemma madeLine_chosen:
  "t \<in> set CONDITION_TYPES \<Longrightarrow> madeLine l \<Longrightarrow> madeLine (spread l [(js ''conditionType'', JStr t), (js ''conditionValue'', JObj [])])"
  by (auto simp: madeLine_def spread_def)

lemma madeLine_new: "madeLine newCondition"
  by (simp add: madeLine_def newCondition_def CONDITION_TYPES_def)

lemma madeLine_typed:
  assumes "madeLine l" and "conditionTypeOf l \<in> (\<lambda>t. Some (JStr t)) ` set textTypes"
  shows "madeLine (spread l [(js ''conditionValue'',
    JObj [(if conditionTypeOf l = Some (JStr (js ''sender'')) then js ''domain'' else js ''contains'', JStr s)])])"
  using assms by (auto simp: madeLine_def spread_def conditionTypeOf_def)

lemma updated_at:
  assumes "c \<in> set (fm_conditions (updateCondition i p f))"
  shows "c \<in> set (fm_conditions f) \<or> i < length (fm_conditions f) \<and> c = spread (fm_conditions f ! i) p"
  using assms by (auto simp: updateCondition_def in_set_enumerate_eq split: if_splits)

lemma edited_madeLines:
  assumes "edited f evs g" and "fm_conditions f = [newCondition]"
  shows "\<forall>l \<in> set (fm_conditions g). madeLine l"
  using assms
proof (induction rule: edited.induct)
  case (edited_refl f)
  then show ?case by (simp add: madeLine_new)
next
  case (edited_step f evs g ev)
  then have IH: "\<forall>l \<in> set (fm_conditions g). madeLine l" by simp
  show ?case
  proof
    fix l assume l: "l \<in> set (fm_conditions (onEvent ev g))"
    show "madeLine l"
    proof (cases ev)
      case (TypeChosen i t)
      then have "l \<in> set (fm_conditions g) \<or> (\<exists>l0. madeLine l0 \<and> l = spread l0 [(js ''conditionType'', JStr t), (js ''conditionValue'', JObj [])])"
        using l IH updated_at [of l i _ g] by (metis nth_mem onEvent.simps(1))
      moreover have "t \<in> set CONDITION_TYPES" using edited_step.hyps(2) TypeChosen by simp
      ultimately show ?thesis using IH madeLine_chosen by blast
    next
      case (TextTyped i s)
      then have i: "i < length (fm_conditions g)" and t: "conditionTypeOf (fm_conditions g ! i) \<in> (\<lambda>t. Some (JStr t)) ` set textTypes"
        using edited_step.hyps(2) by (auto simp: textTypes_def)
      have "madeLine (fm_conditions g ! i)" using IH i by simp
      from madeLine_typed [OF this t] show ?thesis using l IH TextTyped updated_at [of l i _ g] by fastforce
    next
      case AddClicked
      then have "l \<in> set (fm_conditions g) \<or> l = newCondition" using l by (auto simp: addCondition_def split: if_splits)
      then show ?thesis using IH madeLine_new by blast
    next
      case (RemoveClicked i)
      then show ?thesis using l IH removed_subset by auto
    qed
  qed
qed

lemma summary_meaning:
  assumes "t \<in> set CONDITION_TYPES" and "co_conditionType c = t" and "co_conditionValue c = JObj kvs"
    and "kvs = [] \<or> t \<in> set textTypes \<and> (\<exists>s. kvs = [(if t = js ''sender'' then js ''domain'' else js ''contains'', JStr s)])"
  shows "readCondition c = meaning (Known t) (summaryValue kvs)"
proof (cases "kvs = []")
  case True
  from assms(1) consider "t = js ''sender''" | "t = js ''subject_keyword''" | "t = js ''body_keyword''"
    | "t = js ''has_emoji''" | "t = js ''has_attachment''"
    by (auto simp: CONDITION_TYPES_def)
  then show ?thesis by cases (simp_all add: readCondition_def assms(2,3) True summaryValue_def Let_def)
next
  case False
  then obtain s where s: "kvs = [(if t = js ''sender'' then js ''domain'' else js ''contains'', JStr s)]" using assms(4) by blast
  from assms(4) False consider "t = js ''sender''" | "t = js ''subject_keyword''" | "t = js ''body_keyword''"
    by (auto simp: textTypes_def)
  then show ?thesis by cases (simp_all add: readCondition_def assms(2,3) s summaryValue_def Let_def)
qed


section \<open>Witnesses\<close>

definition tickedView :: login_view where
  "tickedView = (loginView (Some (js ''setup'')) None)\<lparr>lg_confirmedNoRecovery := True\<rparr>"

lemma visit_tickedView: "visit B E sid (loginView (Some (js ''setup'')) None) [RecoveryTicked True] tickedView"
proof -
  have "loginEvent B E sid (RecoveryTicked True) (loginView (Some (js ''setup'')) None) demoPage = (Inr (tickedView, None), demoPage)"
    by (simp add: run_ret tickedView_def)
  from visit_event [OF visit_refl _ this] show ?thesis by (simp add: loginView_def)
qed

lemma setup_is_confirmed_witness:
  "\<exists>v' target p'. loginEvent demoBrowser demoEnv (js ''s2'') (PasswordEntered (js ''password'')) tickedView demoPage =
      (Inr (v', target), p') \<and> lg_error v' \<noteq> Some (FromHandler (BadRequestException MasterPasswordTooShort))"
proof -
  have offers: "loginOffers tickedView (PasswordEntered (js ''password''))"
    by (simp add: tickedView_def loginView_def asksPassword_def fieldValid_def)
  obtain v' target p' where
    run: "loginEvent demoBrowser demoEnv (js ''s2'') (PasswordEntered (js ''password'')) tickedView demoPage = (Inr (v', target), p')"
    by (cases "fst (setupMasterPassword demoEnv (js ''s2'') (Some (js ''password'')) (server demoPage))")
      (simp_all add: showOutcome_def handlePasswordSubmit_def guarded_def setupRoute_def run_bindA run_catchA run_apiFetch
        run_ret tickedView_def loginView_def)
  from setup_is_confirmed [OF goodPlatform_demo argon2Law_demoEnv visit_tickedView offers run] run show ?thesis by blast
qed





end
