(* ===== verification/Phases.thy ===== *)
theory Phases
  imports History
begin

text \<open>
  The life of a session as an abstract machine, and that the server implements it. A session is anonymous,
  waits for the set-up after its first login, or belongs to a user and is locked or unlocked. The phase is
  a function of the state of the server; \<open>moves\<close> lists what each request may do to it. All the requests
  that are not about the login share one proof, through the locale of \<open>Server\<close>.
\<close>

section \<open>The abstract machine\<close>

datatype phase = Anonymous | Pending google_profile | Locked jsstring | Unlocked jsstring

definition phaseOf :: "jsstring \<Rightarrow> world \<Rightarrow> phase" where
  "phaseOf sid w =
     (case loginOf (sessions w sid) of
        (None, None, _) \<Rightarrow> Anonymous
      | (None, Some g, _) \<Rightarrow> Pending g
      | (Some userId, _, unlocked) \<Rightarrow> if unlocked \<and> keyLive sid w \<noteq> None then Unlocked userId else Locked userId)"

text \<open>A user id is tested for being a text that is not empty.\<close>

fun loggedIn :: "phase \<Rightarrow> bool" where
  "loggedIn (Locked userId) = (userId \<noteq> [])"
| "loggedIn (Unlocked userId) = (userId \<noteq> [])"
| "loggedIn _ = False"

fun locked :: "phase \<Rightarrow> phase" where
  "locked (Unlocked userId) = Locked userId"
| "locked p = p"

fun beforeLogin :: "phase \<Rightarrow> bool" where
  "beforeLogin Anonymous = True"
| "beforeLogin (Pending _) = True"
| "beforeLogin _ = False"

text \<open>
  Google logs in a user the server knows, locked, or starts a set-up; the set-up turns a pending session
  into one of a new user; a password unlocks; a device login switches the session to the owner of the
  device, unlocked when the password is right. No other request changes the phase.
\<close>

fun moves :: "request \<Rightarrow> phase \<Rightarrow> phase \<Rightarrow> bool" where
  "moves (GetGoogleCallback _ _) p q \<longleftrightarrow> q = p \<or> (\<exists>u. q = Locked u) \<or> (beforeLogin p \<and> (\<exists>g. q = Pending g))"
| "moves (PostMasterPasswordSetup _) p q \<longleftrightarrow> q = p \<or> (\<not> loggedIn p \<and> p \<noteq> Anonymous \<and> (\<exists>u. q = Unlocked u))"
| "moves (PostUnlock _) p q \<longleftrightarrow> q = p \<or> (\<exists>u. p = Locked u \<and> q = Unlocked u)"
| "moves (PostWebauthnAuthenticate _ _) p q \<longleftrightarrow> q = p \<or> (\<exists>u. q = Unlocked u) \<or> (locked p = p \<and> (\<exists>u. q = Locked u))"
| "moves PostLock p q \<longleftrightarrow> q = (if loggedIn p then locked p else p)"
| "moves PostLogout p q \<longleftrightarrow> q = Anonymous"
| "moves _ p q \<longleftrightarrow> q = p"

text \<open>Waiting can only lock, a restart locks every session, and nobody moves the session of another.\<close>

inductive phaseStep :: "jsstring \<Rightarrow> event \<Rightarrow> phase \<Rightarrow> phase \<Rightarrow> bool" for sid where
  own_request: "moves req p q \<Longrightarrow> phaseStep sid (Request sid req) p q"
| other_request: "other \<noteq> sid \<Longrightarrow> phaseStep sid (Request other req) p p"
| waiting: "phaseStep sid (TimePasses ms) p p"
| expiring: "phaseStep sid (TimePasses ms) p (locked p)"
| scanning: "phaseStep sid ScheduledScan p p"
| restarting: "phaseStep sid Restart p (locked p)"

inductive phaseRun :: "jsstring \<Rightarrow> event list \<Rightarrow> phase \<Rightarrow> phase \<Rightarrow> bool" for sid where
  run_refl: "phaseRun sid [] p p"
| run_snoc: "phaseRun sid evs p q \<Longrightarrow> phaseStep sid ev q r \<Longrightarrow> phaseRun sid (evs @ [ev]) p r"

section \<open>Requests that keep the phase\<close>

definition positiveLock :: "jsstring \<Rightarrow> world \<Rightarrow> bool" where
  "positiveLock sid w \<longleftrightarrow> (\<forall>e. keyStore w sid = Some e \<longrightarrow> 1 \<le> ue_autoLockMinutes e)"

definition inPhase :: "phase \<Rightarrow> jsstring \<Rightarrow> world \<Rightarrow> bool" where
  "inPhase p sid w \<longleftrightarrow> positiveLock sid w \<and> phaseOf sid w = p"

lemma phaseOf_same:
  "loginOf (sessions w' sid) = loginOf (sessions w sid) \<Longrightarrow> keyLive sid w' = keyLive sid w \<Longrightarrow> phaseOf sid w' = phaseOf sid w"
  by (simp add: phaseOf_def split: prod.split option.split)

lemma phaseOf_cong:
  "loginOf (sessions w' sid) = loginOf (sessions w sid) \<Longrightarrow> keyStore w' sid = keyStore w sid \<Longrightarrow> clock w' = clock w \<Longrightarrow>
   phaseOf sid w' = phaseOf sid w"
  by (rule phaseOf_same, assumption, rule keyLive_cong)

lemma inPhase_cong:
  "inPhase p sid w \<Longrightarrow> loginOf (sessions w' sid) = loginOf (sessions w sid) \<Longrightarrow> keyStore w' = keyStore w \<Longrightarrow> clock w' = clock w \<Longrightarrow>
   inPhase p sid w'"
  using phaseOf_cong [of w' sid w] by (simp add: inPhase_def positiveLock_def)

lemma keyLive_touched:
  "positiveLock sid w \<Longrightarrow> keyLive sid (w\<lparr>keyStore := snd (storeTouch sid (clock w) (keyStore w))\<rparr>) = keyLive sid w"
  by (auto simp: positiveLock_def keyLive_def storeTouch_def Let_def split: option.split)

lemma positiveLock_touched:
  "positiveLock sid w \<Longrightarrow> positiveLock sid (w\<lparr>keyStore := snd (storeTouch sid (clock w) (keyStore w))\<rparr>)"
  by (auto simp: positiveLock_def storeTouch_def Let_def split: option.splits if_splits)

lemma phaseOf_None:
  "s_userId (sessions w sid) = None \<Longrightarrow>
   phaseOf sid w = (case s_pendingGoogle (sessions w sid) of None \<Rightarrow> Anonymous | Some g \<Rightarrow> Pending g)"
  by (simp add: phaseOf_def loginOf_def split: option.split)

lemma phaseOf_Some:
  "s_userId (sessions w sid) = Some u \<Longrightarrow>
   phaseOf sid w = (if s_unlocked (sessions w sid) \<and> keyLive sid w \<noteq> None then Unlocked u else Locked u)"
  by (simp add: phaseOf_def loginOf_def)

lemma phaseOf_loggedIn: "truthy (s_userId (sessions w sid)) \<longleftrightarrow> loggedIn (phaseOf sid w)"
  by (cases "s_userId (sessions w sid)") (simp_all add: phaseOf_None phaseOf_Some split: option.split)

lemma inPhase_locked:
  assumes "positiveLock sid w" and "s_userId (sessions w sid) = Some u"
    and "\<not> (s_unlocked (sessions w sid) \<and> keyLive sid w \<noteq> None)"
    and "w' = w\<lparr>keyStore := snd (storeTouch sid (clock w) (keyStore w)),
               sessions := (sessions w)(sid := (sessions w sid)\<lparr>s_unlocked := False\<rparr>)\<rparr>"
  shows "phaseOf sid w' = phaseOf sid w \<and> positiveLock sid w'"
proof
  have "phaseOf sid w' = Locked u" by (simp add: phaseOf_Some assms(2,4))
  moreover have "phaseOf sid w = Locked u" using assms(3) by (auto simp: phaseOf_Some [OF assms(2)])
  ultimately show "phaseOf sid w' = phaseOf sid w" by simp
  show "positiveLock sid w'" using positiveLock_touched [OF assms(1)] by (simp add: positiveLock_def assms(4))
qed

lemma inPhase_touched:
  assumes "positiveLock sid w" and "w' = w\<lparr>keyStore := snd (storeTouch sid (clock w) (keyStore w))\<rparr>"
  shows "phaseOf sid w' = phaseOf sid w \<and> positiveLock sid w'"
  using keyLive_touched [OF assms(1)] positiveLock_touched [OF assms(1)] phaseOf_same [of w' sid w] by (simp add: assms(2))

lemma inPhase_guard: "preserves (inPhase p sid) (unlockedGuard sid)"
proof (rule preservesI)
  fix w r w' assume w: "inPhase p sid w" and run: "unlockedGuard sid w = (r, w')"
  have pos: "positiveLock sid w" using w by (simp add: inPhase_def)
  have "w' = w \<or> phaseOf sid w' = phaseOf sid w \<and> positiveLock sid w'"
  proof (cases "truthy (s_userId (sessions w sid))")
    case False
    then show ?thesis using run by (simp add: run_unlockedGuard)
  next
    case True
    then obtain u where u: "s_userId (sessions w sid) = Some u" by (cases "s_userId (sessions w sid)") simp_all
    show ?thesis
    proof (cases "s_unlocked (sessions w sid) \<and> keyLive sid w \<noteq> None")
      case live: True
      then have "w' = w\<lparr>keyStore := snd (storeTouch sid (clock w) (keyStore w))\<rparr>"
        using run True by (auto simp: run_unlockedGuard)
      then show ?thesis using inPhase_touched [OF pos] by blast
    next
      case False
      then have "w' = w\<lparr>keyStore := snd (storeTouch sid (clock w) (keyStore w)),
          sessions := (sessions w)(sid := (sessions w sid)\<lparr>s_unlocked := False\<rparr>)\<rparr>"
        using run True by (cases "keyLive sid w"; cases "s_unlocked (sessions w sid)") (simp_all add: run_unlockedGuard)
      then show ?thesis using inPhase_locked [OF pos u False] by blast
    qed
  qed
  then show "inPhase p sid w'" using w by (auto simp: inPhase_def)
qed

interpretation phases: approval_invariant "inPhase p sid" sid for p sid
proof unfold_locales
  show "preserves (inPhase p sid) (unlockedGuard sid)" by (rule inPhase_guard)
qed (erule inPhase_cong; simp)+

lemma positiveLock_inv: "worldInv w \<Longrightarrow> positiveLock sid w"
  by (simp add: worldInv_def keyStoreOk_def positiveLock_def)

lemma inPhase_start: "worldInv w \<Longrightarrow> inPhase (phaseOf sid w) sid w"
  by (simp add: inPhase_def positiveLock_inv)

lemma quiet_keeps_phase: "quiet req \<Longrightarrow> worldInv w \<Longrightarrow> phaseOf sid (handle E sid req w) = phaseOf sid w"
  using phases.handle_keeps_approving [OF _ inPhase_start] by (simp add: inPhase_def)

section \<open>Requests about the login\<close>

text \<open>After a guard that passed, the session is unlocked and its key was used just now.\<close>

lemma guard_passed:
  assumes "unlockedGuard sid w = (Inr (u, key), v)"
  obtains e where "u \<noteq> []" and "s_userId (sessions v sid) = Some u" and "s_unlocked (sessions v sid)"
    and "keyStore v sid = Some e" and "ue_lastActivityAt e = clock v"
proof (cases "s_userId (sessions w sid)")
  case None
  then show ?thesis using assms by (simp add: run_unlockedGuard)
next
  case (Some a)
  then show ?thesis using assms that
    by (auto simp: run_unlockedGuard keyLive_def storeTouch_def Let_def split: if_splits bool.splits option.splits)
qed

lemma phase_unlocked:
  assumes "s_userId (sessions w sid) = Some u" and "s_unlocked (sessions w sid)" and "keyStore w sid = Some e"
    and "ue_lastActivityAt e = clock w" and "0 \<le> ue_autoLockMinutes e"
  shows "phaseOf sid w = Unlocked u"
  using assms by (simp add: phaseOf_Some keyLive_def)

lemma phase_unlock:
  assumes "dbInv (db w)" and "s_userId (sessions w sid) = Some u" and "unlock E sid u password w = (r, w')"
  shows "phaseOf sid w' = phaseOf sid w \<or> phaseOf sid w' = Unlocked u"
proof (cases "w' = w")
  case False
  then obtain row key where row: "findUser u (db w) = Some row"
    and w': "w' = w\<lparr>keyStore := storeSet sid key (u_autoLockMinutes row) (clock w) (keyStore w),
               sessions := (sessions w)(sid := (sessions w sid)\<lparr>s_unlocked := True\<rparr>)\<rparr>"
    using assms(3) by (auto simp: run_unlock split: option.splits if_splits sum.splits)
  have "1 \<le> u_autoLockMinutes row"
    using row dbInv_lockMinutes [OF assms(1), of row] by (auto dest: findUser_D)
  then have "phaseOf sid w' = Unlocked u"
    using assms(2) w' by (intro phase_unlocked [where e = "\<lparr>ue_key = key, ue_autoLockMinutes = u_autoLockMinutes row,
        ue_lastActivityAt = clock w\<rparr>"]) (simp_all add: storeSet_def)
  then show ?thesis ..
qed simp

lemma phase_callback: "moves (GetGoogleCallback code state) (phaseOf sid w) (phaseOf sid (handle E sid (GetGoogleCallback code state) w))"
proof -
  let ?s = "sessions w sid" and ?w' = "handle E sid (GetGoogleCallback code state) w"
  let ?with = "\<lambda>s. w\<lparr>sessions := (sessions w)(sid := s)\<rparr>"
  have catch: "?w' = snd (handleGoogleCallback E sid code state w)"
    by (cases "handleGoogleCallback E sid code state w"; cases "fst (handleGoogleCallback E sid code state w)")
      (simp_all add: stateAfter_def googleCallback_def act_simps)
  have keep: "phaseOf sid (?with (?s\<lparr>s_oauthState := None\<rparr>)) = phaseOf sid w"
    by (rule phaseOf_cong) (simp_all add: loginOf_def)
  have logs: "phaseOf sid (?with (?s\<lparr>s_oauthState := None, s_userId := Some u, s_unlocked := False\<rparr>)) = Locked u" for u
    by (simp add: phaseOf_Some)
  have asks: "phaseOf sid (?with (?s\<lparr>s_oauthState := None, s_pendingGoogle := Some g\<rparr>)) =
      (if beforeLogin (phaseOf sid w) then Pending g else phaseOf sid w)" for g
    using keyLive_cong [of "?with (?s\<lparr>s_oauthState := None, s_pendingGoogle := Some g\<rparr>)" sid w]
    by (cases "s_userId ?s") (simp_all add: phaseOf_None phaseOf_Some split: option.split)
  have "moves (GetGoogleCallback code state) (phaseOf sid w) (phaseOf sid (snd (handleGoogleCallback E sid code state w)))"
    by (simp add: run_handleGoogleCallback Let_def keep logs asks split: sum.split option.split)
  then show ?thesis by (simp only: catch)
qed

lemma phase_setup:
  "moves (PostMasterPasswordSetup password) (phaseOf sid w) (phaseOf sid (handle E sid (PostMasterPasswordSetup password) w))"
proof (cases "truthy (s_userId (sessions w sid)) \<or> s_pendingGoogle (sessions w sid) = None \<or> tooShort password")
  case True
  then show ?thesis by (simp add: stateAfter_def setupRoute_def setup_refused)
next
  case False
  then obtain g p where g: "s_pendingGoogle (sessions w sid) = Some g" and p: "password = Some p" "8 \<le> length p"
    by (auto simp: tooShort_iff)
  let ?with = "\<lambda>d u key n. w\<lparr>draws := n, db := d,
        sessions := (sessions w)(sid := (sessions w sid)\<lparr>s_pendingGoogle := None, s_userId := Some u, s_unlocked := True\<rparr>),
        keyStore := storeSet sid key 15 (clock w) (keyStore w)\<rparr>"
  have keep: "phaseOf sid (w\<lparr>draws := n\<rparr>) = phaseOf sid w" for n by (rule phaseOf_cong) simp_all
  have opens: "phaseOf sid (?with d u key n) = Unlocked u" for d u key n
    by (intro phase_unlocked [where e = "\<lparr>ue_key = key, ue_autoLockMinutes = 15, ue_lastActivityAt = clock w\<rparr>"])
      (simp_all add: storeSet_def)
  have started: "\<not> loggedIn (phaseOf sid w)" "phaseOf sid w \<noteq> Anonymous"
    using False g phaseOf_loggedIn [of w sid]
    by (cases "s_userId (sessions w sid)"; simp add: phaseOf_None phaseOf_Some)+
  show ?thesis using False p started
    by (simp add: stateAfter_def setupRoute_def run_setupMasterPassword [OF _ g] Let_def keep opens split: sum.split)
qed

lemma phase_unlockRoute:
  assumes "worldInv w"
  shows "moves (PostUnlock password) (phaseOf sid w) (phaseOf sid (handle E sid (PostUnlock password) w))"
proof (cases "s_userId (sessions w sid)")
  case None
  then show ?thesis by (simp add: stateAfter_def unlockRoute_def run_bindA run_loggedInGuard)
next
  case (Some u)
  obtain r w' where run: "unlock E sid u password w = (r, w')" by (cases "unlock E sid u password w")
  have "phaseOf sid w = Locked u \<or> phaseOf sid w = Unlocked u" by (simp add: phaseOf_Some [OF Some])
  then show ?thesis using phase_unlock [OF _ Some run] assms run Some
    by (auto simp: worldInv_def stateAfter_def unlockRoute_def run_bindA run_loggedInGuard)
qed

lemma phase_changeRoute:
  assumes "worldInv w"
  shows "phaseOf sid (stateAfter (changeRoute E sid cur new) w) = phaseOf sid w"
proof -
  obtain g v where g: "unlockedGuard sid w = (g, v)" by (cases "unlockedGuard sid w")
  have v: "phaseOf sid v = phaseOf sid w" and inv: "worldInv v"
    using preservesD [OF inPhase_guard inPhase_start [OF assms] g] preservesD [OF worldInv_unlockedGuard assms g]
    by (simp_all add: inPhase_def)
  show ?thesis
  proof (cases g)
    case (Inl e)
    then show ?thesis using v g by (simp add: stateAfter_def changeRoute_def run_bindA)
  next
    case (Inr x)
    obtain u key where x: "x = (u, key)" by (cases x)
    obtain e where u: "s_userId (sessions v sid) = Some u" "s_unlocked (sessions v sid)"
      and e: "keyStore v sid = Some e" "ue_lastActivityAt e = clock v"
      by (rule guard_passed [OF g [unfolded Inr x]])
    have "0 \<le> ue_autoLockMinutes e" using positiveLock_inv [OF inv, of sid] e by (auto simp: positiveLock_def)
    with u e have unlocked: "phaseOf sid v = Unlocked u" by (rule phase_unlocked)
    obtain r w' where run: "changeMasterPassword E sid u cur new v = (r, w')" by (cases "changeMasterPassword E sid u cur new v")
    have "phaseOf sid w' = Unlocked u"
    proof (cases r)
      case (Inl ex)
      then have "w' = v\<lparr>draws := draws w'\<rparr>" using run by (intro changeMasterPassword_fails) simp
      moreover have "phaseOf sid (v\<lparr>draws := draws w'\<rparr>) = phaseOf sid v" by (rule phaseOf_cong) simp_all
      ultimately show ?thesis using unlocked by metis
    next
      case (Inr n)
      let ?v = "v\<lparr>draws := Suc (Suc (draws v))\<rparr>"
      obtain row p oldKey newKey rows salt w2 where row: "findUser u (db v) = Some row"
        and b: "changeBody E oldKey newKey rows u (argon2Hash E ARGON2ID_OPTIONS (Suc (draws v)) p) salt ?v = (Inr n, w2)"
        and w': "w' = w2\<lparr>keyStore := storeSet sid newKey (u_autoLockMinutes row) (clock w2) (keyStore w2),
                     sessions := (sessions w2)(sid := (sessions w2 sid)\<lparr>s_unlocked := True\<rparr>)\<rparr>"
        by (rule changeMasterPassword_succeeds [OF run [unfolded Inr]])
      have "onlyDb ?v w2" by (rule preservesD [OF changeBody_onlyDb onlyDb_refl b])
      then have "s_userId (sessions w2 sid) = Some u" using u by (simp add: onlyDb_def)
      moreover have "1 \<le> u_autoLockMinutes row"
        using inv row dbInv_lockMinutes [of "db v" row] by (auto simp: worldInv_def dest: findUser_D)
      ultimately show ?thesis unfolding w'
        by (intro phase_unlocked [where e = "\<lparr>ue_key = newKey, ue_autoLockMinutes = u_autoLockMinutes row,
              ue_lastActivityAt = clock w2\<rparr>"]) (simp_all add: storeSet_def)
    qed
    then show ?thesis using v unlocked run by (simp add: stateAfter_def changeRoute_def run_bindA g Inr x)
  qed
qed

lemma phase_me:
  assumes "worldInv w"
  shows "phaseOf sid (stateAfter (meRoute sid) w) = phaseOf sid w"
proof (cases "s_userId (sessions w sid)")
  case None
  then show ?thesis by (simp add: stateAfter_def meRoute_def run_bindA run_loggedInGuard)
next
  case (Some u)
  note pos = positiveLock_inv [OF assms, of sid]
  let ?touched = "w\<lparr>keyStore := snd (storeTouch sid (clock w) (keyStore w))\<rparr>"
  have touch: "phaseOf sid ?touched = phaseOf sid w"
    using inPhase_touched [OF pos refl] by simp
  have locks: "phaseOf sid (?touched\<lparr>sessions := (sessions w)(sid := (sessions w sid)\<lparr>s_unlocked := False\<rparr>)\<rparr>) = phaseOf sid w"
    if "keyLive sid w = None" using inPhase_locked [OF pos Some _ refl] that by simp
  show ?thesis using touch locks
    by (simp add: stateAfter_def meRoute_def run_bindA run_loggedInGuard run_checkStillUnlocked Some Let_def act_simps
        split: option.split)
qed

lemma phase_lock: "phaseOf sid (stateAfter (lockRoute sid) w) = (if loggedIn (phaseOf sid w) then locked (phaseOf sid w) else phaseOf sid w)"
proof (cases "s_userId (sessions w sid)")
  case None
  then show ?thesis
    by (simp add: stateAfter_def lockRoute_def run_bindA run_loggedInGuard phaseOf_None split: option.split)
next
  case (Some u)
  then show ?thesis
    by (auto simp add: stateAfter_def lockRoute_def lock_def run_bindA run_loggedInGuard act_simps phaseOf_Some)
qed

lemma phase_logout: "phaseOf sid (stateAfter (logoutRoute sid) w) = Anonymous"
  by (simp add: stateAfter_def logoutRoute_def logout_def act_simps phaseOf_None emptySession_def)

lemma phase_lockMinutes:
  assumes "worldInv w"
  shows "phaseOf sid (stateAfter (updateAutoLockMinutesRoute sid v) w) = phaseOf sid w"
proof -
  obtain g w1 where g: "unlockedGuard sid w = (g, w1)" by (cases "unlockedGuard sid w")
  have w1: "phaseOf sid w1 = phaseOf sid w" and inv: "worldInv w1"
    using preservesD [OF inPhase_guard inPhase_start [OF assms] g] preservesD [OF worldInv_unlockedGuard assms g]
    by (simp_all add: inPhase_def)
  show ?thesis
  proof (cases g)
    case (Inl e)
    then show ?thesis using w1 g by (simp add: stateAfter_def updateAutoLockMinutesRoute_def run_bindA)
  next
    case (Inr x)
    obtain u key where x: "x = (u, key)" by (cases x)
    obtain e where u: "s_userId (sessions w1 sid) = Some u" "s_unlocked (sessions w1 sid)"
      and e: "keyStore w1 sid = Some e" "ue_lastActivityAt e = clock w1"
      by (rule guard_passed [OF g [unfolded Inr x]])
    have "0 \<le> ue_autoLockMinutes e" using positiveLock_inv [OF inv, of sid] e by (auto simp: positiveLock_def)
    with u e have unlocked: "phaseOf sid w1 = Unlocked u" by (rule phase_unlocked)
    show ?thesis
    proof (cases "lockMinutesOf v")
      case None
      then show ?thesis using w1 g Inr x
        by (simp add: stateAfter_def updateAutoLockMinutesRoute_def updateAutoLockMinutes_def run_bindA run_throw)
    next
      case (Some m)
      then have "1 \<le> m" by (simp add: lockMinutesOf_iff)
      then have "phaseOf sid (w1\<lparr>db := d, keyStore := storeUpdateAutoLockMinutes sid m (keyStore w1)\<rparr>) = Unlocked u" for d
        using u e by (intro phase_unlocked [where e = "e\<lparr>ue_autoLockMinutes := m\<rparr>"]) (simp_all add: storeUpdateAutoLockMinutes_def)
      then show ?thesis using w1 g Inr x Some unlocked
        by (simp add: stateAfter_def updateAutoLockMinutesRoute_def updateAutoLockMinutes_def run_bindA act_simps
            split: sum.split)
    qed
  qed
qed

lemma phase_authenticate:
  assumes "worldInv w"
  shows "moves (PostWebauthnAuthenticate response password) (phaseOf sid w)
    (phaseOf sid (stateAfter (webauthnAuthenticate E sid response password) w))"
proof -
  let ?prefix = "bindA (takeChallenge sid CallAuthenticateOptionsFirst) (\<lambda>ch. verifyAuthentication E ch response)"
  obtain g v where g: "?prefix w = (g, v)" by (cases "?prefix w")
  have keeps: "preserves (inPhase (phaseOf sid w) sid) ?prefix"
    by (intro preserves_intros phases.takeChallenge phases.verifyAuthentication)
  have v: "phaseOf sid v = phaseOf sid w"
    using preservesD [OF keeps inPhase_start [OF assms] g] by (simp add: inPhase_def)
  have "preserves worldInv ?prefix" by (intro preserves_intros)
  then have inv: "worldInv v" using assms g by (rule preservesD)
  have route: "webauthnAuthenticate E sid response password w =
      bindA ?prefix (\<lambda>device. bindA (setSession sid (\<lambda>s. s\<lparr>s_userId := Some (td_userId device)\<rparr>)) (\<lambda>_.
        unlock E sid (td_userId device) password)) w"
    by (simp add: webauthnAuthenticate_def run_bindA split: prod.split sum.split)
  show ?thesis
  proof (cases g)
    case (Inl e)
    then show ?thesis using v g by (simp add: stateAfter_def route run_bindA)
  next
    case (Inr device)
    let ?v = "v\<lparr>sessions := (sessions v)(sid := (sessions v sid)\<lparr>s_userId := Some (td_userId device)\<rparr>)\<rparr>"
    obtain r w' where run: "unlock E sid (td_userId device) password ?v = (r, w')"
      by (cases "unlock E sid (td_userId device) password ?v")
    have "dbInv (db ?v)" using inv by (simp add: worldInv_def)
    then have "phaseOf sid w' = phaseOf sid ?v \<or> phaseOf sid w' = Unlocked (td_userId device)"
      by (rule phase_unlock [OF _ _ run]) simp
    moreover have "phaseOf sid ?v = Unlocked (td_userId device) \<or>
        locked (phaseOf sid v) = phaseOf sid v \<and> phaseOf sid ?v = Locked (td_userId device)"
      using keyLive_cong [of ?v sid v]
      by (cases "s_userId (sessions v sid)") (simp_all add: phaseOf_None phaseOf_Some split: option.split)
    ultimately have "moves (PostWebauthnAuthenticate response password) (phaseOf sid v) (phaseOf sid w')" by auto
    then show ?thesis using g Inr run v by (simp add: stateAfter_def route run_bindA run_setSession)
  qed
qed

section \<open>The server implements the machine\<close>

text \<open>No request moves the clock.\<close>

definition clockAt :: "int \<Rightarrow> world \<Rightarrow> bool" where
  "clockAt t w \<longleftrightarrow> clock w = t"

interpretation ticking: key_invariant "clockAt t" sid for t sid
  by unfold_locales (simp_all add: clockAt_def)

interpretation ticking_approves: mailbox_invariant "clockAt t" sid for t sid
  by unfold_locales (simp add: clockAt_def)

lemma clock_handle: "clock (handle E sid req w) = clock w"
  using ticking.handle_keeps_key [of req "clock w" w E sid] ticking_approves.handle_keeps_approve [of req "clock w" w E sid]
  by (cases "approves req"; cases req) (simp_all add: clockAt_def)

lemma phase_handle: "worldInv w \<Longrightarrow> moves req (phaseOf sid w) (phaseOf sid (handle E sid req w))"
proof (cases "quiet req")
  case True
  assume "worldInv w"
  with True have "phaseOf sid (handle E sid req w) = phaseOf sid w" by (rule quiet_keeps_phase)
  moreover have "moves req p p" for p using True by (cases req) simp_all
  ultimately show ?thesis by (simp del: handle.simps)
next
  case False
  assume w: "worldInv w"
  show ?thesis
  proof (cases req)
    case (GetGoogleCallback code state)
    show ?thesis unfolding GetGoogleCallback by (rule phase_callback)
  next
    case (PostMasterPasswordSetup password)
    show ?thesis unfolding PostMasterPasswordSetup by (rule phase_setup)
  next
    case (PostUnlock password)
    show ?thesis unfolding PostUnlock using w by (rule phase_unlockRoute)
  next
    case (PostWebauthnAuthenticate response password)
    show ?thesis unfolding PostWebauthnAuthenticate handle.simps using w by (rule phase_authenticate)
  qed (use False w in \<open>simp_all add: phase_changeRoute phase_me phase_lock phase_logout phase_lockMinutes\<close>)
qed

lemma phase_event:
  assumes "worldInv w" and "step E w ev w'"
  shows "phaseStep sid ev (phaseOf sid w) (phaseOf sid w')"
proof (cases ev)
  case (Request s req)
  then have w': "w' = handle E s req w" using assms(2) by simp
  show ?thesis
  proof (cases "s = sid")
    case True
    show ?thesis unfolding Request w' True using phase_handle [OF assms(1)] by (rule own_request)
  next
    case False
    have "clock w' = clock w" unfolding w' by (rule clock_handle)
    then have "phaseOf sid w' = phaseOf sid w"
      using bystander_handle [of sid s E req w] False by (intro phaseOf_cong) (simp_all add: w')
    then show ?thesis unfolding Request using False by (simp add: other_request)
  qed
next
  case (TimePasses ms)
  then have w': "w' = w\<lparr>clock := clock w + int ms\<rparr>" using assms(2) by simp
  have "keyLive sid w' = keyLive sid w \<or> keyLive sid w' = None" by (simp add: w' keyLive_def split: option.split)
  then have "phaseOf sid w' = phaseOf sid w \<or> phaseOf sid w' = locked (phaseOf sid w)"
    by (cases "s_userId (sessions w sid)") (auto simp: w' phaseOf_None phaseOf_Some)
  then show ?thesis unfolding TimePasses using waiting expiring by metis
next
  case ScheduledScan
  then have w': "w' = stateAfter (handleScheduledScan E) w" using assms(2) by simp
  have "inPhase (phaseOf sid w) sid w'" unfolding w'
    by (rule preserves_stateAfter [OF phases.candidate_routes(6) inPhase_start [OF assms(1)]])
  then show ?thesis unfolding ScheduledScan by (simp add: inPhase_def scanning)
next
  case Restart
  then have w': "w' = w\<lparr>keyStore := Map.empty\<rparr>" using assms(2) by simp
  have "phaseOf sid w' = locked (phaseOf sid w)"
    by (cases "s_userId (sessions w sid)") (simp_all add: w' phaseOf_None phaseOf_Some keyLive_def split: option.split)
  then show ?thesis unfolding Restart by (simp add: restarting)
qed

lemma phase_run:
  assumes "worldInv w" and "steps E w evs w'"
  shows "phaseRun sid evs (phaseOf sid w) (phaseOf sid w')"
  using assms(2,1)
proof (induction rule: steps.induct)
  case (steps_refl w)
  show ?case by (rule run_refl)
next
  case (steps_snoc w evs v ev w')
  have "worldInv v" using steps_snoc.hyps(1) steps_snoc.prems by (rule worldInv_steps)
  then show ?case using steps_snoc by (blast intro: run_snoc phase_event)
qed

text \<open>
  C6: the server implements the machine of the phases. Whatever the requests of all sessions, the waiting, the
  scans and the restarts between two states, the phase of a session only moves as the machine allows: it
  gets a user through Google, a set-up or a device only, becomes unlocked by a set-up, a password or a
  device login of its own only, and everything else can at most lock it.
\<close>

theorem server_refines_phases:
  assumes "worldInv w" and "steps E w evs w'"
  shows "phaseRun sid evs (phaseOf sid w) (phaseOf sid w')"
  using assms by (rule phase_run)

lemma server_refines_phases_witness:
  "\<exists>w'. steps demoEnv demoWorld [Request (js ''s1'') PostLock] w' \<and> phaseOf (js ''s1'') w' = Locked (js ''u1'') \<and>
     phaseRun (js ''s1'') [Request (js ''s1'') PostLock] (Unlocked (js ''u1'')) (Locked (js ''u1''))"
proof -
  let ?w' = "handle demoEnv (js ''s1'') PostLock demoWorld"
  have "step demoEnv demoWorld (Request (js ''s1'') PostLock) ?w'" by (simp only: step_simps)
  from steps_snoc [OF steps_refl this] have run: "steps demoEnv demoWorld [Request (js ''s1'') PostLock] ?w'" by simp
  have before: "phaseOf (js ''s1'') demoWorld = Unlocked (js ''u1'')"
    by (simp add: phaseOf_Some keyLive_def demoWorld_def demoSession_def emptySession_def)
  have after: "phaseOf (js ''s1'') ?w' = Locked (js ''u1'')" by (simp add: phase_lock before)
  from server_refines_phases [OF worldInv_demoWorld run, of "js ''s1''"] run after before show ?thesis by auto
qed

end
