(* ===== verification/Threads.thy ===== *)
theory Threads
  imports Effects
begin

text \<open>
  Handlers that wait. An asynchronous function runs without interruption from one \<open>await\<close> to the
  next; in between other requests may run. A thread is such a function with its interruptions: it has
  returned, or it waits, and what it does when it goes on depends on the state it then finds. The
  combinators follow those of \<open>Effects\<close>, and \<open>runT\<close> runs a thread that nothing interrupts. A pool
  is a list of threads over one state; a schedule tells which of them goes on next.
\<close>

section \<open>Threads\<close>

datatype ('s, 'a) thread = Return "exn + 'a" | Await "'s \<Rightarrow> ('s, 'a) thread \<times> 's"

text \<open>One action that is carried out as a whole, such as a statement of the database.\<close>

definition await :: "('s, 'a) act \<Rightarrow> ('s, 'a) thread" where
  "await m = Await (\<lambda>s. map_prod Return id (m s))"

primrec bindT :: "('s, 'a) thread \<Rightarrow> ('a \<Rightarrow> ('s, 'b) thread) \<Rightarrow> ('s, 'b) thread" where
  "bindT (Return r) f = (case r of Inl e \<Rightarrow> Return (Inl e) | Inr x \<Rightarrow> f x)"
| "bindT (Await m) f = Await (\<lambda>s. map_prod (\<lambda>t. bindT t f) id (m s))"

primrec catchT :: "('s, 'a) thread \<Rightarrow> (exn \<Rightarrow> ('s, 'a) thread) \<Rightarrow> ('s, 'a) thread" where
  "catchT (Return r) h = (case r of Inl e \<Rightarrow> h e | Inr x \<Rightarrow> Return (Inr x))"
| "catchT (Await m) h = Await (\<lambda>s. map_prod (\<lambda>t. catchT t h) id (m s))"

text \<open>The outcome of a thread as a value.\<close>

primrec outcomeT :: "('s, 'a) thread \<Rightarrow> ('s, exn + 'a) thread" where
  "outcomeT (Return r) = Return (Inr r)"
| "outcomeT (Await m) = Await (\<lambda>s. map_prod outcomeT id (m s))"

fun foldT :: "('x \<Rightarrow> 'b \<Rightarrow> ('s, 'b) thread) \<Rightarrow> 'x list \<Rightarrow> 'b \<Rightarrow> ('s, 'b) thread" where
  "foldT f [] b = Return (Inr b)"
| "foldT f (x # xs) b = bindT (f x b) (foldT f xs)"

fun promiseAllT :: "('x \<Rightarrow> ('s, 'a) thread) \<Rightarrow> 'x list \<Rightarrow> ('s, 'a list) thread" where
  "promiseAllT f [] = Return (Inr [])"
| "promiseAllT f (x # xs) =
     bindT (outcomeT (f x)) (\<lambda>r. case r of
       Inr y \<Rightarrow> bindT (promiseAllT f xs) (\<lambda>ys. Return (Inr (y # ys)))
     | Inl e \<Rightarrow> bindT (outcomeT (promiseAllT f xs)) (\<lambda>_. Return (Inl e)))"

text \<open>A thread with local variables \<open>c\<close>, which no other thread sees; it returns their last values.\<close>

primrec withLocal :: "('s \<times> 'c, 'a) thread \<Rightarrow> 'c \<Rightarrow> ('s, 'c) thread" where
  "withLocal (Return r) = (\<lambda>c. Return (map_sum (\<lambda>e. e) (\<lambda>_. c) r))"
| "withLocal (Await m) = (\<lambda>c. Await (\<lambda>s. case map_prod withLocal id (m (s, c)) of (g, s', c') \<Rightarrow> (g c', s')))"

section \<open>Running alone\<close>

primrec runT :: "('s, 'a) thread \<Rightarrow> ('s, 'a) act" where
  "runT (Return r) = (\<lambda>s. (r, s))"
| "runT (Await m) = (\<lambda>s. case map_prod runT id (m s) of (g, s') \<Rightarrow> g s')"

lemma thread_induct [case_names Return Await]:
  assumes "\<And>r. P (Return r)" and "\<And>m. (\<And>s. P (fst (m s))) \<Longrightarrow> P (Await m)"
  shows "P t"
proof (induction t)
  case (Return r)
  show ?case by (rule assms(1))
next
  case (Await m)
  have "P (fst (m s))" for s by (rule Await.IH [OF rangeI [of m s]]) (cases "m s", simp)
  then show ?case by (rule assms(2))
qed

lemma runT_Await: "m s = (t, s') \<Longrightarrow> runT (Await m) s = runT t s'"
  by simp

lemma runT_await [simp]: "runT (await m) = m"
  by (rule ext) (simp add: await_def map_prod_def split: prod.split)

lemma runT_bindT [simp]: "runT (bindT t f) = bindA (runT t) (\<lambda>x. runT (f x))"
proof (rule ext)
  fix s show "runT (bindT t f) s = bindA (runT t) (\<lambda>x. runT (f x)) s"
  proof (induction t arbitrary: s rule: thread_induct)
    case (Return r)
    show ?case by (cases r) (simp_all add: run_bindA)
  next
    case (Await m)
    show ?case using Await.IH [of s] by (cases "m s") (simp add: run_bindA)
  qed
qed

lemma runT_catchT [simp]: "runT (catchT t h) = catchA (runT t) (\<lambda>e. runT (h e))"
proof (rule ext)
  fix s show "runT (catchT t h) s = catchA (runT t) (\<lambda>e. runT (h e)) s"
  proof (induction t arbitrary: s rule: thread_induct)
    case (Return r)
    show ?case by (cases r) (simp_all add: run_catchA)
  next
    case (Await m)
    show ?case using Await.IH [of s] by (cases "m s") (simp add: run_catchA)
  qed
qed

lemma runT_outcomeT: "runT (outcomeT t) s = (Inr (fst (runT t s)), snd (runT t s))"
proof (induction t arbitrary: s rule: thread_induct)
  case (Return r)
  show ?case by simp
next
  case (Await m)
  show ?case using Await.IH [of s] by (cases "m s") simp
qed

lemma runT_foldT [simp]: "runT (foldT f xs b) = foldA (\<lambda>x b. runT (f x b)) xs b"
proof (induction xs arbitrary: b)
  case Nil
  show ?case by (rule ext) (simp add: run_ret)
next
  case (Cons x xs)
  show ?case by (simp add: Cons.IH)
qed

lemma runT_promiseAllT [simp]: "runT (promiseAllT f xs) = promiseAll (\<lambda>x. runT (f x)) xs"
proof (induction xs)
  case Nil
  show ?case by (rule ext) (simp add: run_ret)
next
  case (Cons x xs)
  show ?case
  proof (rule ext)
    fix s
    obtain r s1 where x: "runT (f x) s = (r, s1)" by (cases "runT (f x) s")
    show "runT (promiseAllT f (x # xs)) s = promiseAll (\<lambda>x. runT (f x)) (x # xs) s"
      by (cases r) (simp_all add: x Cons.IH run_bindA runT_outcomeT run_ret split: prod.split sum.split)
  qed
qed

lemma runT_withLocal:
  "runT (withLocal t c) s = (case runT t (s, c) of (r, s', c') \<Rightarrow> (map_sum (\<lambda>e. e) (\<lambda>_. c') r, s'))"
proof (induction t arbitrary: c s rule: thread_induct)
  case (Return r)
  show ?case by simp
next
  case (Await m)
  show ?case using Await.IH [of "(s, c)"] by (cases "m (s, c)") auto
qed

section \<open>What a thread does whatever happens in between\<close>

text \<open>
  As long as every state the thread finds satisfies \<open>I\<close>, each of its steps keeps \<open>I\<close> and relates the
  states by \<open>G\<close>, and its outcome satisfies \<open>Q\<close>: a rely and a guarantee, with the rely an invariant.
\<close>

primrec obeys :: "('s \<Rightarrow> bool) \<Rightarrow> ('s \<Rightarrow> 's \<Rightarrow> bool) \<Rightarrow> (exn + 'a \<Rightarrow> bool) \<Rightarrow> ('s, 'a) thread \<Rightarrow> bool" where
  "obeys I G Q (Return r) = Q r"
| "obeys I G Q (Await m) =
     (\<forall>s. I s \<longrightarrow> (case map_prod (obeys I G Q) id (m s) of (ok, s') \<Rightarrow> I s' \<and> G s s' \<and> ok))"

lemma obeys_Await:
  "obeys I G Q (Await m) \<longleftrightarrow>
     (\<forall>s. I s \<longrightarrow> I (snd (m s)) \<and> G s (snd (m s)) \<and> obeys I G Q (fst (m s)))"
  by (simp add: map_prod_def split_beta)

declare obeys.simps(2) [simp del]

lemma obeys_await:
  assumes "\<And>s. I s \<Longrightarrow> I (snd (m s)) \<and> G s (snd (m s)) \<and> Q (fst (m s))"
  shows "obeys I G Q (await m)"
  using assms by (simp add: await_def obeys_Await)

lemma obeys_weaken:
  assumes "obeys I G Q t" and "\<And>r. Q r \<Longrightarrow> Q' r"
  shows "obeys I G Q' t"
  using assms(1) by (induction t rule: thread_induct) (auto simp: obeys_Await assms(2))

lemma obeys_weaken_steps:
  assumes "obeys I G Q t" and "\<And>s s'. G s s' \<Longrightarrow> G' s s'"
  shows "obeys I G' Q t"
  using assms(1) by (induction t rule: thread_induct) (auto simp: obeys_Await assms(2))

lemma obeys_Await_map:
  assumes "obeys I G P (Await m)"
    and "\<And>s. obeys I G P (fst (m s)) \<Longrightarrow> obeys I G Q (F (fst (m s)))"
  shows "obeys I G Q (Await (\<lambda>s. map_prod F id (m s)))"
  using assms by (simp add: obeys_Await)

lemma obeys_bindT:
  assumes "obeys I G (\<lambda>r. case r of Inl e \<Rightarrow> Q (Inl e) | Inr x \<Rightarrow> obeys I G Q (f x)) t"
  shows "obeys I G Q (bindT t f)"
  using assms by (induction t rule: thread_induct) (auto split: sum.splits intro: obeys_Await_map)

lemma obeys_catchT:
  assumes "obeys I G (\<lambda>r. case r of Inl e \<Rightarrow> obeys I G Q (h e) | Inr x \<Rightarrow> Q (Inr x)) t"
  shows "obeys I G Q (catchT t h)"
  using assms by (induction t rule: thread_induct) (auto split: sum.splits intro: obeys_Await_map)

lemma obeys_outcomeT:
  assumes "obeys I G (\<lambda>r. Q (Inr r)) t"
  shows "obeys I G Q (outcomeT t)"
  using assms by (induction t rule: thread_induct) (auto intro: obeys_Await_map)

lemma obeys_foldT:
  assumes "\<And>x b. x \<in> set xs \<Longrightarrow> R b \<Longrightarrow> obeys I G (\<lambda>r. case r of Inl e \<Rightarrow> Q (Inl e) | Inr b' \<Rightarrow> R b') (f x b)"
    and "R b" and "\<And>b. R b \<Longrightarrow> Q (Inr b)"
  shows "obeys I G Q (foldT f xs b)"
  using assms(1,2)
proof (induction xs arbitrary: b)
  case Nil
  then show ?case using assms(3) by simp
next
  case (Cons x xs)
  have "obeys I G Q (foldT f xs b')" if "R b'" for b' using that by (intro Cons.IH Cons.prems) auto
  moreover have "obeys I G (\<lambda>r. case r of Inl e \<Rightarrow> Q (Inl e) | Inr b' \<Rightarrow> R b') (f x b)"
    using Cons.prems by simp
  ultimately show ?case by (auto intro!: obeys_bindT elim!: obeys_weaken split: sum.splits)
qed

lemma obeys_promiseAllT:
  assumes "\<And>x. x \<in> set xs \<Longrightarrow> obeys I G (\<lambda>_. True) (f x)"
  shows "obeys I G (\<lambda>_. True) (promiseAllT f xs)"
  using assms
proof (induction xs)
  case Nil
  show ?case by simp
next
  case (Cons x xs)
  then have "obeys I G (\<lambda>_. True) (f x)" "obeys I G (\<lambda>_. True) (promiseAllT f xs)" by simp_all
  then show ?case
    by (auto intro!: obeys_bindT obeys_outcomeT elim!: obeys_weaken split: sum.splits)
qed

lemma obeys_withLocal:
  assumes "obeys (\<lambda>s. I (fst s)) (\<lambda>s s'. G (fst s) (fst s')) Q t"
  shows "obeys I G (\<lambda>_. True) (withLocal t c)"
  using assms
proof (induction t arbitrary: c rule: thread_induct)
  case (Return r)
  show ?case by simp
next
  case (Await m)
  then show ?case by (simp add: obeys_Await map_prod_def split_beta)
qed

text \<open>The rules for an outcome that does not matter, one for each construct.\<close>

named_theorems thread_intros

lemma obeys_Return [thread_intros]: "obeys I G (\<lambda>_. True) (Return r)"
  by simp

lemma obeys_any: "obeys I G Q t \<Longrightarrow> obeys I G (\<lambda>_. True) t"
  by (erule obeys_weaken) simp

lemma obeys_bindT_any [thread_intros]:
  assumes "obeys I G (\<lambda>_. True) t" and "\<And>x. obeys I G (\<lambda>_. True) (f x)"
  shows "obeys I G (\<lambda>_. True) (bindT t f)"
  using assms by (intro obeys_bindT) (auto elim!: obeys_weaken split: sum.splits)

lemma obeys_catchT_any [thread_intros]:
  assumes "obeys I G (\<lambda>_. True) t" and "\<And>e. obeys I G (\<lambda>_. True) (h e)"
  shows "obeys I G (\<lambda>_. True) (catchT t h)"
  using assms by (intro obeys_catchT) (auto elim!: obeys_weaken split: sum.splits)

lemma obeys_foldT_any [thread_intros]:
  assumes "\<And>x b. x \<in> set xs \<Longrightarrow> obeys I G (\<lambda>_. True) (f x b)"
  shows "obeys I G (\<lambda>_. True) (foldT f xs b)"
  using assms by (intro obeys_foldT [of xs "\<lambda>_. True"]) (auto elim!: obeys_weaken split: sum.splits)

declare obeys_promiseAllT [thread_intros]

lemma obeys_cases [thread_intros]:
  "(b \<Longrightarrow> obeys I G Q t) \<Longrightarrow> (\<not> b \<Longrightarrow> obeys I G Q u) \<Longrightarrow> obeys I G Q (if b then t else u)"
  "(v = None \<Longrightarrow> obeys I G Q t) \<Longrightarrow> (\<And>x. v = Some x \<Longrightarrow> obeys I G Q (f x)) \<Longrightarrow>
   obeys I G Q (case v of None \<Rightarrow> t | Some x \<Rightarrow> f x)"
  "(\<And>e. r = Inl e \<Longrightarrow> obeys I G Q (g e)) \<Longrightarrow> (\<And>x. r = Inr x \<Longrightarrow> obeys I G Q (f x)) \<Longrightarrow>
   obeys I G Q (case r of Inl e \<Rightarrow> g e | Inr x \<Rightarrow> f x)"
  "(\<And>x y. p = (x, y) \<Longrightarrow> obeys I G Q (h x y)) \<Longrightarrow> obeys I G Q (case p of (x, y) \<Rightarrow> h x y)"
  by (simp_all split: option.split sum.split prod.split)

text \<open>A query may tell more than the threads keep: its result holds of the state it reads.\<close>

lemma obeys_bindT_await:
  assumes "\<And>s. I s \<Longrightarrow> I (snd (m s)) \<and> G s (snd (m s))"
    and "\<And>s x. I s \<Longrightarrow> fst (m s) = Inr x \<Longrightarrow> obeys I G (\<lambda>_. True) (f x)"
  shows "obeys I G (\<lambda>_. True) (bindT (await m) f)"
  using assms by (intro obeys_bindT obeys_await) (auto split: sum.splits)

lemma obeys_step: "preserves I m \<Longrightarrow> obeys I (\<lambda>_ _. True) (\<lambda>_. True) (await m)"
  by (rule obeys_await) (simp add: preserves_def)

subsection \<open>Counting\<close>

text \<open>
  \<open>adds F v t k\<close>: the steps of \<open>t\<close> only add to \<open>F\<close>, and what they add in all is \<open>v\<close> of its outcome,
  when they have added \<open>k\<close> so far.
\<close>

primrec adds :: "('s \<Rightarrow> nat) \<Rightarrow> (exn + 'a \<Rightarrow> nat) \<Rightarrow> ('s, 'a) thread \<Rightarrow> nat \<Rightarrow> bool" where
  "adds F v (Return r) = (\<lambda>k. v r = k)"
| "adds F v (Await m) = (\<lambda>k. \<forall>s. case map_prod (adds F v) id (m s) of (g, s') \<Rightarrow> F s \<le> F s' \<and> g (k + (F s' - F s)))"

lemma adds_Await:
  "adds F v (Await m) k \<longleftrightarrow> (\<forall>s. F s \<le> F (snd (m s)) \<and> adds F v (fst (m s)) (k + (F (snd (m s)) - F s)))"
  by (simp add: map_prod_def split_beta)

declare adds.simps(2) [simp del]

text \<open>A part that leaves \<open>F\<close> alone.\<close>

definition still :: "('s \<Rightarrow> nat) \<Rightarrow> (exn + 'a \<Rightarrow> bool) \<Rightarrow> ('s, 'a) thread \<Rightarrow> bool" where
  "still F Q = obeys (\<lambda>_. True) (\<lambda>s s'. F s' = F s) Q"

lemma adds_bindT:
  assumes "still F (\<lambda>r. case r of Inl e \<Rightarrow> v (Inl e) = k | Inr x \<Rightarrow> adds F v (f x) k) t"
  shows "adds F v (bindT t f) k"
  using assms unfolding still_def
proof (induction t rule: thread_induct)
  case (Return r)
  then show ?case by (simp split: sum.splits)
next
  case (Await m)
  then show ?case by (simp add: obeys_Await adds_Await)
qed

lemma adds_still:
  assumes "still F (\<lambda>r. v r = k) t"
  shows "adds F v t k"
  using assms unfolding still_def
  by (induction t rule: thread_induct) (simp_all add: obeys_Await adds_Await)

lemma adds_map:
  assumes "adds F (\<lambda>r. case r of Inl e \<Rightarrow> v (Inl e) | Inr x \<Rightarrow> v (Inr (g x))) t k"
  shows "adds F v (bindT t (\<lambda>x. Return (Inr (g x)))) k"
  using assms
proof (induction t arbitrary: k rule: thread_induct)
  case (Return r)
  then show ?case by (cases r) simp_all
next
  case (Await m)
  then show ?case by (simp add: adds_Await del: Nat.add_diff_assoc)
qed

text \<open>Local variables that count what is added.\<close>

lemma adds_withLocal:
  assumes "obeys (\<lambda>_. True) (\<lambda>s s'. F (fst s) \<le> F (fst s') \<and> n (snd s') + F (fst s) = n (snd s) + F (fst s'))
      (\<lambda>r. \<exists>x. r = Inr x) t"
    and "\<And>c. v (Inr c) = n c"
  shows "adds F v (withLocal t c) (n c)"
  using assms(1)
proof (induction t arbitrary: c rule: thread_induct)
  case (Return r)
  then show ?case by (auto simp: assms(2))
next
  case (Await m)
  have "F s \<le> F (fst (snd (m (s, c)))) \<and> adds F v (withLocal (fst (m (s, c))) (snd (snd (m (s, c)))))
      (n c + F (fst (snd (m (s, c)))) - F s)" for s
  proof -
    have step: "F s \<le> F (fst (snd (m (s, c))))" "n (snd (snd (m (s, c)))) + F s = n c + F (fst (snd (m (s, c))))"
      and t: "obeys (\<lambda>_. True) (\<lambda>s s'. F (fst s) \<le> F (fst s') \<and> n (snd s') + F (fst s) = n (snd s) + F (fst s'))
        (\<lambda>r. \<exists>x. r = Inr x) (fst (m (s, c)))"
      using Await.prems by (simp_all add: obeys_Await)
    from Await.IH [OF t] have "adds F v (withLocal (fst (m (s, c))) (snd (snd (m (s, c))))) (n (snd (snd (m (s, c)))))" .
    moreover have "n (snd (snd (m (s, c)))) = n c + F (fst (snd (m (s, c)))) - F s" using step by simp
    ultimately show ?thesis using step by simp
  qed
  then show ?case by (simp add: adds_Await map_prod_def split_beta)
qed

section \<open>Pools\<close>

type_synonym ('s, 'a) pool = "('s, 'a) thread list \<times> 's"

text \<open>The thread with the number \<open>i\<close> goes on to its next \<open>await\<close>; one that has returned does nothing.\<close>

definition tick :: "nat \<Rightarrow> ('s, 'a) pool \<Rightarrow> ('s, 'a) pool" where
  "tick i p =
     (case p of (ts, s) \<Rightarrow>
        if i < length ts then
          (case ts ! i of Return r \<Rightarrow> (ts, s) | Await m \<Rightarrow> (case m s of (t, s') \<Rightarrow> (ts[i := t], s')))
        else (ts, s))"

definition interleave :: "nat list \<Rightarrow> ('s, 'a) pool \<Rightarrow> ('s, 'a) pool" where
  "interleave schedule p = fold tick schedule p"

fun finished :: "('s, 'a) thread \<Rightarrow> bool" where
  "finished (Return r) = True"
| "finished (Await m) = False"

lemma interleave_simps [simp]:
  "interleave [] p = p" "interleave (i # is) p = interleave is (tick i p)"
  "interleave (is @ is2) p = interleave is2 (interleave is p)"
  by (simp_all add: interleave_def)

lemma tick_cases:
  obtains "tick i (ts, s) = (ts, s)"
  | m where "i < length ts" "ts ! i = Await m" "tick i (ts, s) = (ts[i := fst (m s)], snd (m s))"
  by (cases "i < length ts"; cases "ts ! i") (auto simp: tick_def split_beta)

lemma length_tick [simp]: "length (fst (tick i p)) = length (fst p)"
  by (cases p; rule tick_cases [of i "fst p" "snd p"]) auto

lemma length_interleave [simp]: "length (fst (interleave is p)) = length (fst p)"
  by (induction "is" arbitrary: p) simp_all

text \<open>What all threads keep, the pool keeps, and what each step does relates any two states of a run.\<close>

lemma tick_obeys:
  assumes "\<forall>t \<in> set ts. obeys I G Q t" and "I s" and "tick i (ts, s) = (ts', s')"
  shows "(\<forall>t \<in> set ts'. obeys I G Q t) \<and> I s' \<and> (s' = s \<or> G s s')"
proof (cases rule: tick_cases [of i ts s])
  case 1
  then show ?thesis using assms by simp
next
  case (2 m)
  then have "obeys I G Q (Await m)" using assms(1) nth_mem by metis
  then show ?thesis using 2 assms
    by (auto simp: obeys_Await dest: set_update_subset_insert [THEN subsetD])
qed

lemma interleave_obeys:
  assumes "\<forall>t \<in> set ts. obeys I G Q t" and "I s" and "interleave is (ts, s) = (ts', s')"
  shows "(\<forall>t \<in> set ts'. obeys I G Q t) \<and> I s' \<and> G\<^sup>*\<^sup>* s s'"
  using assms
proof (induction "is" arbitrary: ts s)
  case Nil
  then show ?case by simp
next
  case (Cons i "is")
  obtain ts1 s1 where t: "tick i (ts, s) = (ts1, s1)" by (cases "tick i (ts, s)")
  have 1: "(\<forall>t \<in> set ts1. obeys I G Q t) \<and> I s1 \<and> (s1 = s \<or> G s s1)"
    using Cons.prems(1,2) t by (rule tick_obeys)
  then have "(\<forall>t \<in> set ts'. obeys I G Q t) \<and> I s' \<and> G\<^sup>*\<^sup>* s1 s'"
    using Cons.prems(3) t by (intro Cons.IH) simp_all
  with 1 show ?case by (auto intro: converse_rtranclp_into_rtranclp)
qed

text \<open>What is added in all is what the threads have added.\<close>

definition addedBy :: "('s \<Rightarrow> nat) \<Rightarrow> (exn + 'a \<Rightarrow> nat) \<Rightarrow> ('s, 'a) thread list \<Rightarrow> nat list \<Rightarrow> bool" where
  "addedBy F v ts ks \<longleftrightarrow> list_all2 (adds F v) ts ks"

lemma tick_adds:
  assumes "addedBy F v ts ks" and "tick i (ts, s) = (ts', s')"
  shows "\<exists>ks'. addedBy F v ts' ks' \<and> F s \<le> F s' \<and> sum_list ks' + F s = sum_list ks + F s'"
proof (cases rule: tick_cases [of i ts s])
  case 1
  then show ?thesis using assms by auto
next
  case (2 m)
  have len: "length ks = length ts" using assms(1) by (auto simp: addedBy_def list_all2_lengthD)
  then have "adds F v (Await m) (ks ! i)" using assms(1) 2 by (auto simp: addedBy_def dest: list_all2_nthD)
  then have *: "F s \<le> F (snd (m s))" "adds F v (fst (m s)) (ks ! i + (F (snd (m s)) - F s))"
    unfolding adds_Await by blast+
  let ?ks = "ks[i := ks ! i + (F (snd (m s)) - F s)]"
  have "addedBy F v ts' ?ks" using assms 2 * by (auto simp: addedBy_def intro: list_all2_update_cong)
  moreover have "sum_list ?ks + F s = sum_list ks + F s'"
    using assms(2) 2 * len by (simp add: sum_list_update)
  ultimately show ?thesis using assms(2) 2 * by auto
qed

lemma interleave_adds:
  assumes "addedBy F v ts ks" and "interleave is (ts, s) = (ts', s')"
  shows "\<exists>ks'. addedBy F v ts' ks' \<and> F s \<le> F s' \<and> sum_list ks' + F s = sum_list ks + F s'"
  using assms
proof (induction "is" arbitrary: ts s ks)
  case Nil
  then show ?case by auto
next
  case (Cons i "is")
  obtain ts1 s1 where t: "tick i (ts, s) = (ts1, s1)" by (cases "tick i (ts, s)")
  obtain ks1 where 1: "addedBy F v ts1 ks1" "F s \<le> F s1" "sum_list ks1 + F s = sum_list ks + F s1"
    using tick_adds [OF Cons.prems(1) t] by blast
  have "interleave is (ts1, s1) = (ts', s')" using Cons.prems(2) t by simp
  from Cons.IH [OF 1(1) this] obtain ks' where 2: "addedBy F v ts' ks'" "F s1 \<le> F s'"
    "sum_list ks' + F s1 = sum_list ks1 + F s'" by blast
  then have "F s \<le> F s'" and "sum_list ks' + F s = sum_list ks + F s'" using 1 by linarith+
  with 2(1) show ?case by blast
qed

text \<open>Of a pool in which all have returned, the outcomes account for everything.\<close>

fun resultOf :: "('s, 'a) thread \<Rightarrow> (exn + 'a) option" where
  "resultOf (Return r) = Some r"
| "resultOf (Await m) = None"

lemma addedBy_results:
  assumes "addedBy F v ts ks" and "map resultOf ts = map Some rs"
  shows "ks = map v rs"
  using assms unfolding addedBy_def
proof (induction ts arbitrary: ks rs)
  case Nil
  then show ?case by simp
next
  case (Cons t ts)
  then show ?case by (cases t) (auto simp: list_all2_Cons1 map_eq_Cons_conv Cons_eq_map_conv)
qed

subsection \<open>Every thread returns\<close>

text \<open>A schedule without end that never forgets a thread.\<close>

definition fair :: "nat \<Rightarrow> (nat \<Rightarrow> nat) \<Rightarrow> bool" where
  "fair k \<sigma> \<longleftrightarrow> (\<forall>i < k. \<forall>n. \<exists>m \<ge> n. \<sigma> m = i)"

definition after :: "(nat \<Rightarrow> nat) \<Rightarrow> nat \<Rightarrow> ('s, 'a) pool \<Rightarrow> ('s, 'a) pool" where
  "after \<sigma> n p = interleave (map \<sigma> [0..<n]) p"

lemma after_simps [simp]: "after \<sigma> 0 p = p" "after \<sigma> (Suc n) p = tick (\<sigma> n) (after \<sigma> n p)"
  by (simp_all add: after_def)

lemma length_after [simp]: "length (fst (after \<sigma> n p)) = length (fst p)"
  by (simp add: after_def)

lemma after_other:
  assumes "\<sigma> n \<noteq> i"
  shows "fst (after \<sigma> (Suc n) p) ! i = fst (after \<sigma> n p) ! i"
proof -
  obtain ts s where p: "after \<sigma> n p = (ts, s)" by (cases "after \<sigma> n p")
  show ?thesis using assms by (cases rule: tick_cases [of "\<sigma> n" ts s]) (simp_all add: p)
qed

lemma after_waits:
  assumes "fst (after \<sigma> n p) ! i = t" and "\<forall>j. n \<le> j \<and> j < m \<longrightarrow> \<sigma> j \<noteq> i" and "n \<le> m"
  shows "fst (after \<sigma> m p) ! i = t"
  using assms(3,2)
proof (induction m rule: dec_induct)
  case base
  show ?case by (rule assms(1))
next
  case (step m)
  then show ?case using after_other [of \<sigma> m i p] by simp
qed

lemma after_finished:
  assumes "fst (after \<sigma> n p) ! i = Return r" and "n \<le> m"
  shows "fst (after \<sigma> m p) ! i = Return r"
  using assms(2)
proof (induction m rule: dec_induct)
  case base
  show ?case by (rule assms(1))
next
  case (step m)
  obtain ts s where p: "after \<sigma> m p = (ts, s)" by (cases "after \<sigma> m p")
  show ?case using step.IH by (cases rule: tick_cases [of "\<sigma> m" ts s]; cases "\<sigma> m = i") (auto simp: p)
qed

lemma thread_returns:
  assumes "fair k \<sigma>" and "i < k" and "length (fst p) = k" and "fst (after \<sigma> n p) ! i = t"
  shows "\<exists>m r. fst (after \<sigma> m p) ! i = Return r"
  using assms(4)
proof (induction t arbitrary: n rule: thread_induct)
  case (Return r)
  then show ?case by blast
next
  case (Await a)
  have "\<exists>m. n \<le> m \<and> \<sigma> m = i" using assms(1,2) by (auto simp: fair_def)
  then obtain m where m: "n \<le> m" "\<sigma> m = i" "\<forall>j. n \<le> j \<and> j < m \<longrightarrow> \<sigma> j \<noteq> i"
    by (atomize_elim) (rule exI [of _ "LEAST m. n \<le> m \<and> \<sigma> m = i"], auto intro: LeastI2 dest: not_less_Least elim: LeastI_ex)
  have t: "fst (after \<sigma> m p) ! i = Await a" by (rule after_waits [OF Await.prems m(3,1)])
  obtain ts s where p: "after \<sigma> m p = (ts, s)" by (cases "after \<sigma> m p")
  have "length ts = k" using assms(3) p length_after [of \<sigma> m p] by simp
  then have "fst (after \<sigma> (Suc m) p) ! i = fst (a s)"
    using t m(2) p assms(2) by (simp add: tick_def split_beta)
  then show ?case by (rule Await.IH)
qed

lemma all_return:
  assumes "fair (length ts) \<sigma>"
  shows "\<exists>n. list_all finished (fst (after \<sigma> n (ts, s)))"
proof -
  have "\<forall>i < length ts. \<exists>m r. fst (after \<sigma> m (ts, s)) ! i = Return r"
    using thread_returns [OF assms, where p = "(ts, s)" and n = 0] by simp
  then obtain m where m: "\<And>i. i < length ts \<Longrightarrow> \<exists>r. fst (after \<sigma> (m i) (ts, s)) ! i = Return r" by metis
  let ?n = "Max (insert 0 (m ` {..<length ts}))"
  have "finished (fst (after \<sigma> ?n (ts, s)) ! i)" if "i < length ts" for i
  proof -
    have "m i \<le> ?n" using that by (intro Max_ge) auto
    then show ?thesis using m [OF that] after_finished by fastforce
  qed
  then show ?thesis by (auto simp: list_all_length)
qed

end
