(* ===== verification/Interruptions.thy ===== *)
theory Interruptions
  imports Threads Server
begin

text \<open>
  The handlers that wait in the middle of their work, as threads: the scan, the decisions about a
  candidate, the change and removal of a rule, the removal of a mail account, the writes to the vault,
  the import and the change of the master password. There is one step for every statement that is awaited, and one for the code between
  two of them where that has an effect. \<open>jobT\<close> gives the thread of every request; a request
  whose handler is not taken apart here is a single step. Left alone, a thread does what the handler of
  the other theories does (\<open>uninterrupted\<close>).
\<close>

section \<open>The mailbox\<close>

text \<open>The tokens are decrypted and the client library asked for an access token; both are answered.\<close>

definition freshCredentials :: "env \<Rightarrow> email_account_row \<Rightarrow> (credentials \<times> credentials) action" where
  "freshCredentials E account =
     bindA (decrypt E (em_encryptedAccessToken account) (tokenKey E)) (\<lambda>access.
     bindA (decrypt E (em_encryptedRefreshToken account) (tokenKey E)) (\<lambda>refresh.
     let client = \<lparr>cr_accessToken = Some access, cr_refreshToken = Some refresh,
                   cr_expiryDate = em_tokenExpiresAt account\<rparr> in
     bindA dateNow (\<lambda>now.
     bindA (liftE (getAccessToken E now client)) (\<lambda>fresh. ret (client, fresh)))))"

definition storeCredentials :: "env \<Rightarrow> jsstring \<Rightarrow> credentials \<Rightarrow> credentials action" where
  "storeCredentials E emailAccountId fresh =
     bindA (encrypt E (orElse (cr_accessToken fresh) []) (tokenKey E)) (\<lambda>sealed.
     bindA (dbWriteR (updateEmailAccount emailAccountId
              (\<lambda>a. a\<lparr>em_encryptedAccessToken := sealed, em_tokenExpiresAt := storedExpiry (cr_expiryDate fresh)\<rparr>))) (\<lambda>_.
     ret fresh))"

definition getAuthorizedClientT :: "env \<Rightarrow> jsstring \<Rightarrow> (world, credentials) thread" where
  "getAuthorizedClientT E emailAccountId =
     bindT (await (dbQuery (\<lambda>d. find (\<lambda>a. em_id a = emailAccountId) (emailAccounts d)))) (\<lambda>found.
       case found of
         None \<Rightarrow> Return (Inl (PrismaError P2025))
       | Some account \<Rightarrow>
           bindT (await (freshCredentials E account)) (\<lambda>(client, fresh).
             if truthy (cr_accessToken fresh) \<and> cr_accessToken fresh \<noteq> cr_accessToken client
             then await (storeCredentials E emailAccountId fresh)
             else Return (Inr fresh)))"

definition listCandidateMessagesT :: "env \<Rightarrow> jsstring \<Rightarrow> (world, raw_mail_message list) thread" where
  "listCandidateMessagesT E emailAccountId =
     bindT (getAuthorizedClientT E emailAccountId) (\<lambda>auth.
     bindT (await (callGmail (ListMessages auth (js ''newer_than:7d'') 50)
                     (\<lambda>h. gmailList E h auth (js ''newer_than:7d'') 50))) (\<lambda>listed.
     promiseAllT (\<lambda>i. await (fetchMessage E auth i)) (orElse listed [])))"

definition applyActionT :: "env \<Rightarrow> jsstring \<Rightarrow> jsstring \<Rightarrow> mail_action \<Rightarrow> (world, unit) thread" where
  "applyActionT E emailAccountId externalMessageId action =
     bindT (getAuthorizedClientT E emailAccountId) (\<lambda>auth.
       case action of
         DeleteMail \<Rightarrow> await (callGmail (TrashMessage auth externalMessageId) (\<lambda>h. gmailTrash E h auth externalMessageId))
       | SpamMail \<Rightarrow>
           await (callGmail (ModifyMessage auth externalMessageId [js ''SPAM''])
             (\<lambda>h. gmailModify E h auth externalMessageId [js ''SPAM''])))"

section \<open>The scan\<close>

text \<open>
  The counters are local variables of the scan. A thread of the server, lifted to them; a counter
  changes in the step after which it is counted up.
\<close>

primrec onServerT :: "(world, 'a) thread \<Rightarrow> (world \<times> scan_counters, 'a) thread" where
  "onServerT (Return r) = Return r"
| "onServerT (Await m) = Await (\<lambda>s. case map_prod onServerT id (m (fst s)) of (t, w') \<Rightarrow> (t, (w', snd s)))"

definition scanRuleT ::
  "env \<Rightarrow> jsstring \<Rightarrow> raw_mail_message \<Rightarrow> rule_with_conditions \<Rightarrow> (world \<times> scan_counters, unit) thread" where
  "scanRuleT E accountId m rule =
     bindT (Return (messageMatchesRule E m rule)) (\<lambda>matches.
       if \<not> matches then Return (Inr ())
       else catchT
         (await (bindA (onServer (insertCandidate E (ru_id (rc_rule rule)) accountId m)) (\<lambda>_.
            countUp (\<lambda>c. c\<lparr>createdCandidates := createdCandidates c + 1\<rparr>))))
         (\<lambda>e. if e \<noteq> PrismaError P2002 then Return (Inl e) else Return (Inr ())))"

definition scanMessageT ::
  "env \<Rightarrow> jsstring \<Rightarrow> rule_with_conditions list \<Rightarrow> raw_mail_message \<Rightarrow> unit \<Rightarrow> (world \<times> scan_counters, unit) thread" where
  "scanMessageT E accountId rules m _ = foldT (\<lambda>rule _. scanRuleT E accountId m rule) rules ()"

text \<open>The registry knows a single provider, so its methods are called directly.\<close>

definition scanAccountT :: "env \<Rightarrow> email_account_row \<Rightarrow> unit \<Rightarrow> (world \<times> scan_counters, unit) thread" where
  "scanAccountT E account _ =
     catchT
       (bindT (Return (registryGet E (em_providerType account))) (\<lambda>provider.
        bindT (onServerT (await (dbQuery (activeRules (em_id account))))) (\<lambda>rules.
          if length rules = 0 then Return (Inr ())
          else
            bindT (onServerT (listCandidateMessagesT E (em_id account))) (\<lambda>messages.
            bindT (await (countUp (\<lambda>c. c\<lparr>scannedAccounts := scannedAccounts c + 1\<rparr>))) (\<lambda>_.
            foldT (scanMessageT E (em_id account) rules) messages ())))))
       (\<lambda>e. await (countUp (\<lambda>c. c\<lparr>failedAccounts := failedAccounts c + 1\<rparr>)))"

definition scanAccountsT :: "env \<Rightarrow> email_account_row list \<Rightarrow> (world, scan_counters) thread" where
  "scanAccountsT E rows = withLocal (foldT (scanAccountT E) rows ()) noCounters"

definition scanT :: "env \<Rightarrow> jsstring \<Rightarrow> (world, scan_counters) thread" where
  "scanT E userId =
     bindT (await (dbQuery (\<lambda>d. filter (\<lambda>a. em_userId a = userId \<and> em_isActive a) (emailAccounts d)))) (scanAccountsT E)"

definition scanAllT :: "env \<Rightarrow> (world, scan_counters) thread" where
  "scanAllT E = bindT (await (dbQuery (\<lambda>d. filter em_isActive (emailAccounts d)))) (scanAccountsT E)"

section \<open>Decisions and removals\<close>

definition approveT :: "env \<Rightarrow> jsstring \<Rightarrow> jsstring \<Rightarrow> (world, candidate_row) thread" where
  "approveT E userId i =
     bindT (await (dbQuery (findOwned userId i))) (\<lambda>found.
       case found of
         None \<Rightarrow> Return (Inl (NotFoundException CandidateNotFound))
       | Some (c, rule, account) \<Rightarrow>
           bindT
             (if ru_actionType rule = js ''delete_candidate'' \<or> ru_actionType rule = js ''spam_candidate''
              then bindT (Return (registryGet E (em_providerType account))) (\<lambda>provider.
                   applyActionT E (ca_emailAccountId c) (ca_externalMessageId c)
                     (if ru_actionType rule = js ''delete_candidate'' then DeleteMail else SpamMail))
              else Return (Inr ())) (\<lambda>_.
           await (decide i APPROVED)))"

definition excludeT :: "jsstring \<Rightarrow> jsstring \<Rightarrow> (world, candidate_row) thread" where
  "excludeT userId i =
     bindT (await (dbQuery (findOwned userId i))) (\<lambda>found.
       if found = None then Return (Inl (NotFoundException CandidateNotFound)) else await (decide i EXCLUDED))"

definition rulesRemoveT :: "jsstring \<Rightarrow> jsstring \<Rightarrow> (world, unit) thread" where
  "rulesRemoveT userId i =
     bindT (await (dbQuery (findOwnRule userId i))) (\<lambda>rule.
       if rule = None then Return (Inl (NotFoundException RuleNotFound)) else await (dbWrite (deleteRule i)))"

definition rulesUpdateT :: "env \<Rightarrow> jsstring \<Rightarrow> jsstring \<Rightarrow> rule_body \<Rightarrow> (world, rule_with_conditions) thread" where
  "rulesUpdateT E userId i data =
     bindT (await (dbQuery (findOwnRule userId i))) (\<lambda>rule.
       if rule = None then Return (Inl (NotFoundException RuleNotFound))
       else await (transaction
         (bindA (case rb_conditions data of
                   None \<Rightarrow> ret ()
                 | Some _ \<Rightarrow> dbWriteAll (\<lambda>d. ((), deleteConditionsOf i d))) (\<lambda>_.
          bindA (throwIf (rb_invalid data) (PrismaError PValidation)) (\<lambda>_.
          bindA (dbWriteR (updateRule i (changedRule data))) (\<lambda>row.
          bindA (insertConditions E i (orElse (rb_conditions data) [])) (\<lambda>_.
          dbQuery (\<lambda>d. withConditions d row))))))))"

definition emailAccountsRemoveT :: "jsstring \<Rightarrow> jsstring \<Rightarrow> (world, unit) thread" where
  "emailAccountsRemoveT userId i =
     bindT (await (dbQuery (\<lambda>d. find (\<lambda>a. em_id a = i \<and> em_userId a = userId) (emailAccounts d)))) (\<lambda>account.
       if account = None then Return (Inl (NotFoundException EmailAccountNotFound))
       else await (dbWrite (deleteEmailAccount i)))"

section \<open>The vault\<close>

text \<open>The password is encrypted, under the key the guard has handed on, before the row is sent off.\<close>

definition accountsCreateT :: "env \<Rightarrow> jsstring \<Rightarrow> byte list \<Rightarrow> account_body \<Rightarrow> (world, account_row) thread" where
  "accountsCreateT E userId encryptionKey data =
     catchT
       (bindT (await (encryptValue E (bd_password data) encryptionKey)) (\<lambda>c. await (insertAccount E userId data c)))
       (\<lambda>e. Return (Inl (conflictOr e)))"

definition accountsUpdateT ::
  "env \<Rightarrow> jsstring \<Rightarrow> jsstring \<Rightarrow> byte list \<Rightarrow> account_body \<Rightarrow> (world, account_row) thread" where
  "accountsUpdateT E userId i encryptionKey data =
     bindT (await (dbQuery (findOwnAccount userId i))) (\<lambda>existing.
       if existing = None then Return (Inl (NotFoundException AccountNotFound))
       else catchT
         (bindT
            (await (if bd_password data \<noteq> None \<and> truthyJson (the (bd_password data))
                    then bindA (encryptValue E (bd_password data) encryptionKey) (\<lambda>c. ret (Some c))
                    else ret None)) (\<lambda>encrypted.
          await (bindA (throwIf (rejected E data) (PrismaError PValidation)) (\<lambda>_.
                 bindA dateNow (\<lambda>now. dbWriteR (updateAccount i (changedRow data encrypted now)))))))
         (\<lambda>e. Return (Inl (conflictOr e))))"

definition accountsRemoveT :: "jsstring \<Rightarrow> jsstring \<Rightarrow> (world, unit) thread" where
  "accountsRemoveT userId i =
     bindT (await (dbQuery (findOwnAccount userId i))) (\<lambda>existing.
       if existing = None then Return (Inl (NotFoundException AccountNotFound)) else await (dbWrite (deleteAccount i)))"

text \<open>An import stores entry after entry; the two numbers are its local variables.\<close>

definition importEntryT :: "env \<Rightarrow> jsstring \<Rightarrow> byte list \<Rightarrow> json \<Rightarrow> nat \<times> nat \<Rightarrow> (world, nat \<times> nat) thread" where
  "importEntryT E userId encryptionKey entry counts =
     (case counts of (imported, skipped) \<Rightarrow>
        catchT
          (bindT (Return (entryBody E entry)) (\<lambda>data.
           bindT (accountsCreateT E userId encryptionKey data) (\<lambda>_.
           Return (Inr (imported + 1, skipped)))))
          (\<lambda>e. case e of ConflictException _ \<Rightarrow> Return (Inr (imported, skipped + 1)) | _ \<Rightarrow> Return (Inl e)))"

definition importAccountsT ::
  "env \<Rightarrow> jsstring \<Rightarrow> byte list \<Rightarrow> jsstring option \<Rightarrow> backup_file \<Rightarrow> (world, nat \<times> nat) thread" where
  "importAccountsT E userId encryptionKey exportPassword backup =
     (if bf_version backup \<noteq> Fin 1 then Return (Inl (BadRequestException BackupVersionUnsupported))
      else
        bindT (await (deriveEncryptionKey E exportPassword (bf_salt backup))) (\<lambda>exportKey.
        bindT (catchT (Return (aesDecrypt E (bf_payload backup) exportKey))
                 (\<lambda>_. Return (Inl (BadRequestException BackupPasswordWrongOrDamaged)))) (\<lambda>text.
          case jsonParse E text of
            None \<Rightarrow> Return (Inl SyntaxError)
          | Some v \<Rightarrow>
              bindT (Return (iterate v)) (\<lambda>entries.
              foldT (importEntryT E userId encryptionKey) entries (0, 0)))))"

text \<open>
  The entries are read before the transaction begins. The transaction is one step: what it changes is
  not visible before it ends, and no other statement changes a row it has changed. \<open>rewriteVaultT\<close>
  is the change from there on, with the entries that were read.
\<close>

definition rewriteVaultT ::
  "env \<Rightarrow> jsstring \<Rightarrow> user_row \<Rightarrow> byte list \<Rightarrow> byte list \<Rightarrow> account_row list \<Rightarrow> jsstring \<Rightarrow> jsstring \<Rightarrow> (world, nat) thread" where
  "rewriteVaultT E sid user oldKey newKey rows newHash newKdfSalt =
     bindT (await (transaction
       (bindA (foldA (reencryptAccount E oldKey newKey) rows ()) (\<lambda>_.
        bindA (dbWriteR (updateUser (u_id user)
                 (\<lambda>x. x\<lparr>u_masterPasswordHash := newHash, u_masterKdfSalt := newKdfSalt\<rparr>))) (\<lambda>_.
        dbWriteAll (deleteDevicesOf (u_id user))))))) (\<lambda>revokedDevices.
     await (bindA (keySet sid newKey (u_autoLockMinutes user)) (\<lambda>_.
            bindA (setSession sid (\<lambda>s. s\<lparr>s_unlocked := True\<rparr>)) (\<lambda>_.
            ret revokedDevices))))"

definition changeMasterPasswordT ::
  "env \<Rightarrow> jsstring \<Rightarrow> jsstring \<Rightarrow> jsstring option \<Rightarrow> jsstring option \<Rightarrow> (world, nat) thread" where
  "changeMasterPasswordT E sid userId currentPassword newPassword =
     bindT (await (dbQuery (findUser userId))) (\<lambda>user.
       case user of
         None \<Rightarrow> Return (Inl (UnauthorizedException UserNotFound))
       | Some u \<Rightarrow>
           bindT (await (verifyMasterPassword E currentPassword (u_masterPasswordHash u))) (\<lambda>valid.
             if \<not> valid then Return (Inl (UnauthorizedException CurrentMasterPasswordWrong))
             else if tooShort newPassword then Return (Inl (BadRequestException MasterPasswordTooShort))
             else
               bindT (await (deriveEncryptionKey E currentPassword (u_masterKdfSalt u))) (\<lambda>oldKey.
               bindT (await (bindA (generateKdfSalt E) (\<lambda>newKdfSalt.
                             bindA (hashMasterPassword E (orElse newPassword [])) (\<lambda>newHash.
                             bindA (deriveEncryptionKey E newPassword newKdfSalt) (\<lambda>newKey.
                             ret (newKdfSalt, newHash, newKey)))))) (\<lambda>(newKdfSalt, newHash, newKey).
               bindT (await (dbQuery (\<lambda>d. filter (\<lambda>a. ac_userId a = userId) (accounts d)))) (\<lambda>rows.
               rewriteVaultT E sid u oldKey newKey rows newHash newKdfSalt)))))"

section \<open>Jobs\<close>

text \<open>
  What the server has under way: a request, the scheduled scan, and the clock. The handlers above are
  taken apart; the others run in one step. A scan ends with its counters.
\<close>

datatype job = Serve jsstring request | Schedule | Clock nat

definition noCounts :: "('s, 'a) thread \<Rightarrow> ('s, scan_counters option) thread" where
  "noCounts t = bindT t (\<lambda>_. Return (Inr None))"

definition counts :: "('s, scan_counters) thread \<Rightarrow> ('s, scan_counters option) thread" where
  "counts t = bindT t (\<lambda>c. Return (Inr (Some c)))"

definition guardedT :: "jsstring \<Rightarrow> (jsstring \<Rightarrow> byte list \<Rightarrow> (world, 'a) thread) \<Rightarrow> (world, 'a) thread" where
  "guardedT sid f = bindT (await (unlockedGuard sid)) (\<lambda>(userId, key). f userId key)"

definition updateRouteT :: "env \<Rightarrow> jsstring \<Rightarrow> json \<Rightarrow> jsstring \<Rightarrow> byte list \<Rightarrow> (world, account_row) thread" where
  "updateRouteT E i body userId key =
     (case readBody E body of
        Inl e \<Rightarrow>
          bindT (await (dbQuery (findOwnAccount userId i))) (\<lambda>existing.
            if existing = None then Return (Inl (NotFoundException AccountNotFound)) else Return (Inl e))
      | Inr data \<Rightarrow> accountsUpdateT E userId i key data)"

fun jobT :: "env \<Rightarrow> job \<Rightarrow> (world, scan_counters option) thread" where
  "jobT E (Serve sid PostScan) = counts (guardedT sid (\<lambda>userId _. scanT E userId))"
| "jobT E (Serve sid (PostApprove i)) = noCounts (guardedT sid (\<lambda>userId _. approveT E userId i))"
| "jobT E (Serve sid (PostExclude i)) = noCounts (guardedT sid (\<lambda>userId _. excludeT userId i))"
| "jobT E (Serve sid (DeleteRule i)) = noCounts (guardedT sid (\<lambda>userId _. rulesRemoveT userId i))"
| "jobT E (Serve sid (DeleteEmailAccount i)) =
     noCounts (bindT (await (loggedInGuard sid)) (\<lambda>userId. emailAccountsRemoveT userId i))"
| "jobT E (Serve sid (PostAccount body)) =
     noCounts (guardedT sid (\<lambda>userId key. bindT (Return (readBody E body)) (accountsCreateT E userId key)))"
| "jobT E (Serve sid (PutAccount i body)) = noCounts (guardedT sid (updateRouteT E i body))"
| "jobT E (Serve sid (DeleteAccount i)) = noCounts (guardedT sid (\<lambda>userId _. accountsRemoveT userId i))"
| "jobT E (Serve sid (PostImport password backup)) =
     noCounts (guardedT sid (\<lambda>userId key. importAccountsT E userId key password backup))"
| "jobT E (Serve sid (PutRule i body)) =
     noCounts (guardedT sid (\<lambda>userId _. rulesUpdateT E userId i (readUpdateBody body)))"
| "jobT E (Serve sid (PostMasterPasswordChange cur new)) =
     noCounts (guardedT sid (\<lambda>userId _. changeMasterPasswordT E sid userId cur new))"
| "jobT E (Serve sid req) = await (\<lambda>w. (Inr None, handle E sid req w))"
| "jobT E Schedule = counts (scanAllT E)"
| "jobT E (Clock ms) = await (\<lambda>w. (Inr None, w\<lparr>clock := clock w + int ms\<rparr>))"

section \<open>Left alone\<close>

lemma runT_Return: "runT (Return (Inr x)) = ret x" "runT (Return (Inl e)) = throw e" "runT (Return r) = liftE r"
  by (rule ext, simp add: act_simps)+

lemma bindA_unit [simp]:
  "bindA (ret x) f = f x" "bindA (throw e) f = throw e" "bindA (liftE (Inr x)) f = f x" "bindA (liftE (Inl e)) f = throw e"
  by (rule ext, simp add: act_simps)+

lemma bindA_assoc: "bindA (bindA m f) g = bindA m (\<lambda>x. bindA (f x) g)"
  by (rule ext) (simp add: run_bindA split: prod.split sum.split)

lemma liftE_ret: "liftE (Inr x) = ret x" "liftE (Inl e) = throw e"
  by (rule ext, simp add: act_simps)+

lemmas alone = runT_Return liftE_ret if_distrib [of runT] if_distrib [of "\<lambda>t. runT t s" for s]

lemma runT_onServerT [simp]: "runT (onServerT t) = onServer (runT t)"
proof (rule ext)
  fix s show "runT (onServerT t) s = onServer (runT t) s"
  proof (induction t arbitrary: s rule: thread_induct)
    case (Return r)
    show ?case by (cases s) (simp add: onServer_def)
  next
    case (Await m)
    show ?case using Await.IH [of "fst s" "(snd (m (fst s)), snd s)"]
      by (cases s; cases "m (fst s)") (simp add: onServer_def)
  qed
qed

lemma run_getAuthorizedClientT [simp]: "runT (getAuthorizedClientT E i) = getAuthorizedClient E i"
  by (rule ext) (simp add: getAuthorizedClientT_def getAuthorizedClient_def freshCredentials_def storeCredentials_def
      runT_Return act_simps Let_def split: option.split prod.split sum.split)

lemma run_listCandidateMessagesT [simp]: "runT (listCandidateMessagesT E i) = listCandidateMessages E i"
  by (simp add: listCandidateMessagesT_def listCandidateMessages_def)

lemma run_applyActionT [simp]: "runT (applyActionT E i m a) = applyAction E i m a"
  by (cases a) (simp_all add: applyActionT_def applyAction_def)

lemma run_scanRuleT [simp]: "runT (scanRuleT E a m rule) = scanRule E a m rule"
  unfolding scanRuleT_def scanRule_def runT_bindT runT_Return by (simp add: alone cong: if_cong del: runT.simps)

lemma run_scanMessageT [simp]: "runT (scanMessageT E a rules m u) = scanMessage E a rules m u"
  by (simp add: scanMessageT_def scanMessage_def)

lemma run_scanAccountT [simp]: "runT (scanAccountT E account u) = scanAccount E account u"
  unfolding scanAccountT_def scanAccount_def runT_bindT runT_catchT runT_Return registryGet_eq
  by (simp add: alone gmailProvider_def cong: if_cong del: runT.simps)

lemma run_scanAccountsT [simp]: "runT (scanAccountsT E rows) = scanAccounts E rows"
  by (rule ext) (simp add: scanAccountsT_def scanAccounts_def runT_withLocal split: prod.split sum.split)

lemma run_scanT [simp]: "runT (scanT E userId) = scan E userId" "runT (scanAllT E) = scanAll E"
  by (simp_all add: scanT_def scan_def scanAllT_def scanAll_def)

lemma run_approveT [simp]: "runT (approveT E userId i) = approve E userId i"
  by (rule ext) (auto simp: approveT_def approve_def act_simps alone registryGet_eq gmailProvider_def
      simp del: runT.simps split: option.split prod.split sum.split)

lemma run_guardedExists:
  "runT (bindT (await (dbQuery f)) (\<lambda>found. if found = None then Return (Inl e) else t)) =
   bindA (dbQuery f) (\<lambda>found. bindA (throwIf (found = None) e) (\<lambda>_. runT t))"
  by (rule ext) (simp add: act_simps)

lemma run_removals [simp]:
  "runT (excludeT userId i) = exclude userId i" "runT (rulesRemoveT userId i) = rulesRemove userId i"
  "runT (emailAccountsRemoveT userId i) = emailAccountsRemove userId i"
  "runT (accountsRemoveT userId i) = accountsRemove userId i" "runT (rulesUpdateT E userId i data) = rulesUpdate E userId i data"
  unfolding excludeT_def exclude_def rulesRemoveT_def rulesRemove_def emailAccountsRemoveT_def emailAccountsRemove_def
    accountsRemoveT_def accountsRemove_def rulesUpdateT_def rulesUpdate_def
    run_guardedExists by simp_all

lemma run_accountsCreateT [simp]: "runT (accountsCreateT E userId key data) = accountsCreate E userId key data"
  by (simp add: accountsCreateT_def accountsCreate_def alone del: runT.simps)

lemma run_accountsUpdateT [simp]: "runT (accountsUpdateT E userId i key data) = accountsUpdate E userId i key data"
  unfolding accountsUpdateT_def accountsUpdate_def run_guardedExists
  by (simp add: alone bindA_assoc del: runT.simps)

lemma run_importEntryT [simp]: "runT (importEntryT E userId key entry c) = importEntry E userId key entry c"
proof -
  have conflict: "runT (case e of ConflictException _ \<Rightarrow> Return (Inr a) | _ \<Rightarrow> Return (Inl e)) =
      (case e of ConflictException _ \<Rightarrow> ret a | _ \<Rightarrow> throw e)" for e and a :: "nat \<times> nat"
    by (cases e) (simp_all add: alone del: runT.simps)
  show ?thesis
    unfolding importEntryT_def importEntry_def
    by (cases c) (simp only: prod.case runT_catchT runT_bindT conflict alone run_accountsCreateT)
qed

lemma run_importAccountsT [simp]:
  "runT (importAccountsT E userId key pw backup) = importAccounts E userId key pw backup"
proof -
  have entries: "runT (case v of None \<Rightarrow> Return (Inl SyntaxError)
      | Some v \<Rightarrow> bindT (Return (iterate v)) (\<lambda>entries. foldT (importEntryT E userId key) entries (0, 0))) =
    (case v of None \<Rightarrow> throw SyntaxError
      | Some v \<Rightarrow> bindA (liftE (iterate v)) (\<lambda>entries. foldA (importEntry E userId key) entries (0, 0)))" for v
    by (cases v) (simp_all only: option.case runT_bindT runT_foldT run_importEntryT alone)
  have version: "(if b then throw e else m) = bindA (throwIf b e) (\<lambda>_. m)" for b e and m :: "(nat \<times> nat) action"
    by (rule ext) (simp add: act_simps)
  show ?thesis
    unfolding importAccountsT_def importAccounts_def runT_bindT runT_catchT runT_await entries alone decrypt_def
    by (rule version)
qed

lemma run_changeMasterPasswordT [simp]:
  "runT (changeMasterPasswordT E sid userId cur new) = changeMasterPassword E sid userId cur new"
proof (rule ext)
  fix w :: world
  have "u_id u = userId" if "findUser userId (db w) = Some u" for u using findUser_D [OF that] by simp
  then show "runT (changeMasterPasswordT E sid userId cur new) w = changeMasterPassword E sid userId cur new w"
    by (simp add: changeMasterPasswordT_def rewriteVaultT_def changeMasterPassword_def act_simps alone
      del: runT.simps split: option.split prod.split sum.split)
qed

lemma run_guardedT [simp]: "runT (guardedT sid f) = bindA (unlockedGuard sid) (\<lambda>(userId, key). runT (f userId key))"
  by (simp add: guardedT_def case_prod_unfold)

lemma run_counted:
  "stateAfter (runT (noCounts t)) = stateAfter (runT t)" "stateAfter (runT (counts s)) = stateAfter (runT s)"
  by (rule ext, simp add: noCounts_def counts_def stateAfter_def run_bindA split: prod.split sum.split)+

lemma run_updateRouteT:
  "bindA (unlockedGuard sid) (\<lambda>(userId, key). runT (updateRouteT E i body userId key)) = accountsUpdateRoute E sid i body"
proof -
  have "runT (updateRouteT E i body userId key) =
      (case readBody E body of
        Inl e \<Rightarrow> bindA (dbQuery (findOwnAccount userId i)) (\<lambda>existing.
          bindA (throwIf (existing = None) (NotFoundException AccountNotFound)) (\<lambda>_. throw e))
      | Inr data \<Rightarrow> accountsUpdate E userId i key data)" for userId key
    unfolding updateRouteT_def
    by (cases "readBody E body") (simp_all only: sum.case run_guardedExists alone run_accountsUpdateT)
  then show ?thesis by (simp add: accountsUpdateRoute_def)
qed

lemma run_single: "stateAfter (runT (await (\<lambda>w. (Inr None, stateAfter m w)))) = stateAfter m"
  by (rule ext) (simp add: stateAfter_def)


end
