(* ===== verification/Concurrency.thy ===== *)
theory Concurrency
  imports Interruptions AuthProperties CandidatesProperties
begin

text \<open>
  What holds however the handlers taken apart in \<open>Interruptions\<close> interleave: the invariant of the
  state, what concurrent scans store and count, that all of them return. And what does not: an entry that
  is stored while the master password is being changed, and a candidate that is decided twice.
\<close>

section \<open>The invariant of the pool\<close>

text \<open>
  Besides the invariant of the state, the threads rely on two facts that none of them changes: who is
  logged in, and which mail account a rule belongs to; a rule may only go away.
\<close>

definition logins :: "(jsstring \<Rightarrow> jsstring option) \<Rightarrow> world \<Rightarrow> bool" where
  "logins U w \<longleftrightarrow> (\<forall>sid. s_userId (sessions w sid) = U sid)"

definition rulesIn :: "(jsstring \<times> jsstring) set \<Rightarrow> world \<Rightarrow> bool" where
  "rulesIn R w \<longleftrightarrow> (\<lambda>r. (ru_id r, ru_emailAccountId r)) ` set (emailRules (db w)) \<subseteq> R"

definition poolInv :: "(jsstring \<times> jsstring) set \<Rightarrow> (jsstring \<Rightarrow> jsstring option) \<Rightarrow> world \<Rightarrow> bool" where
  "poolInv R U w \<longleftrightarrow> worldInv w \<and> rulesIn R w \<and> logins U w"

lemma poolInv_I:
  "preserves worldInv m \<Longrightarrow> preserves (rulesIn R) m \<Longrightarrow> preserves (logins U) m \<Longrightarrow> preserves (poolInv R U) m"
  by (simp add: preserves_def poolInv_def)

lemma logins_frame:
  assumes "\<And>S K c. preserves (frame S K c) m"
  shows "preserves (logins U) m"
proof (rule preservesI)
  fix w r w' assume w: "logins U w" and m: "m w = (r, w')"
  have "frame (sessions w) (keyStore w) (clock w) w'" by (rule preservesD [OF assms _ m]) (simp add: frame_def)
  then show "logins U w'" using w by (simp add: logins_def frame_def)
qed

lemma rulesIn_less: "rulesIn R w \<Longrightarrow> set (emailRules (db w')) \<subseteq> set (emailRules (db w)) \<Longrightarrow> rulesIn R w'"
  unfolding rulesIn_def by blast

lemma rulesIn_dbWrite:
  "(\<And>d d'. f d = Inr d' \<Longrightarrow> set (emailRules d') \<subseteq> set (emailRules d)) \<Longrightarrow> preserves (rulesIn R) (dbWrite f)"
  by (fastforce simp: preserves_def run_dbWrite elim!: rulesIn_less split: sum.split)

lemma rulesIn_dbWriteR:
  "(\<And>d d' r. f d = Inr (r, d') \<Longrightarrow> set (emailRules d') \<subseteq> set (emailRules d)) \<Longrightarrow> preserves (rulesIn R) (dbWriteR f)"
  by (fastforce simp: preserves_def run_dbWriteR elim!: rulesIn_less split: sum.split)

lemma rulesIn_writes [preserves_intros]:
  "preserves (rulesIn R) (dbWriteR (updateEmailAccount i f))" "preserves (rulesIn R) (dbWrite (createCandidate c))"
  "preserves (rulesIn R) (dbWriteR (updateCandidate i g))" "preserves (rulesIn R) (dbWrite (createAccount a))"
  "preserves (rulesIn R) (dbWriteR (updateAccount i h))" "preserves (rulesIn R) (dbWriteR (updateUser i k))"
  "preserves (rulesIn R) (dbWrite (deleteRule i))" "preserves (rulesIn R) (dbWrite (deleteEmailAccount i))"
  "preserves (rulesIn R) (dbWrite (deleteAccount i))" "preserves (rulesIn R) (dbWrite (createCondition cond))"
  by (rule rulesIn_dbWrite rulesIn_dbWriteR; auto simp: deleteAccount_def createCondition_def updateEmailAccount_def createCandidate_def updateCandidate_def
      createAccount_def updateAccount_def updateUser_def deleteRule_def deleteEmailAccount_def cascadeRules_def Let_def
      split: sum.splits if_splits option.splits)+

text \<open>The change of a rule leaves the rule with its mail account.\<close>

lemma rulesIn_updateRule [preserves_intros]: "preserves (rulesIn R) (dbWriteR (updateRule i (changedRule data)))"
proof (rule preservesI)
  fix w r w' assume w: "rulesIn R w" and run: "dbWriteR (updateRule i (changedRule data)) w = (r, w')"
  have same: "ru_id (changedRule data x) = ru_id x" "ru_emailAccountId (changedRule data x) = ru_emailAccountId x" for x
    by (auto simp: changedRule_def Let_def split: option.split)
  have "(\<lambda>r. (ru_id r, ru_emailAccountId r)) ` set (emailRules (db w')) \<subseteq>
      (\<lambda>r. (ru_id r, ru_emailAccountId r)) ` set (emailRules (db w))"
    using run by (auto simp: run_dbWriteR updateRule_def same elim!: updateRow_Inr split: sum.splits)
  then show "rulesIn R w'" using w unfolding rulesIn_def by blast
qed

lemma rulesIn_transaction [preserves_intros]:
  assumes "preserves (rulesIn R) m"
  shows "preserves (rulesIn R) (transaction m)"
proof (rule preservesI)
  fix w r w' assume w: "rulesIn R w" and t: "transaction m w = (r, w')"
  obtain r1 w1 where m: "m w = (r1, w1)" by (cases "m w")
  have "rulesIn R w1" by (rule preservesD [OF assms w m])
  then show "rulesIn R w'" using t m w by (cases r1) (auto simp: run_transaction rulesIn_def)
qed

lemma rulesIn_effects [preserves_intros]:
  "preserves (rulesIn R) (dbWriteAll (\<lambda>d. ((), deleteConditionsOf i d)))"
  "preserves (rulesIn R) (dbWriteAll (deleteDevicesOf u))" "preserves (rulesIn R) nextDraw"
  "preserves (rulesIn R) (callGmail c f)" "preserves (rulesIn R) (setSession sid k)" "preserves (rulesIn R) (keySet sid key n)"
  by (auto simp: preserves_def rulesIn_def act_simps deleteDevicesOf_def deleteConditionsOf_def)

lemma logins_frames [preserves_intros]:
  "preserves (logins U) (dbWrite f)" "preserves (logins U) (dbWriteR g)" "preserves (logins U) (dbWriteAll h)"
  "preserves (logins U) nextDraw" "preserves (logins U) (callGmail c k)"
  by (rule logins_frame; rule preserves_intros)+

lemma logins_guards [preserves_intros]:
  "preserves (logins U) (keySet sid key n)" "preserves (logins U) (unlockedGuard sid)" "preserves (logins U) (loggedInGuard sid)"
  "preserves (logins U) (setSession sid (\<lambda>s. s\<lparr>s_unlocked := b\<rparr>))"
  by (auto simp: preserves_def logins_def run_keySet run_unlockedGuard run_loggedInGuard run_setSession
      split: option.splits bool.splits if_splits)

lemma rulesIn_guards [preserves_intros]: "preserves (rulesIn R) (unlockedGuard sid)" "preserves (rulesIn R) (loggedInGuard sid)"
  by (auto simp: preserves_def rulesIn_def run_unlockedGuard run_loggedInGuard split: option.splits bool.splits if_splits)

lemma pool_effects [preserves_intros]:
  "preserves I nextDraw \<Longrightarrow> preserves I (encrypt E p k)" "preserves I nextDraw \<Longrightarrow> preserves I (freshId E)"
  "preserves I nextDraw \<Longrightarrow> preserves I (generateKdfSalt E)" "preserves I nextDraw \<Longrightarrow> preserves I (hashMasterPassword E p)"
  "preserves I (decrypt E c k)" "preserves I (verifyMasterPassword E cur h)" "preserves I (deriveEncryptionKey E cur s)"
  unfolding encrypt_def freshId_def generateKdfSalt_def hashMasterPassword_def decrypt_def verifyMasterPassword_def
    deriveEncryptionKey_def Let_def
  by (intro preserves_intros; assumption)+

lemma worldInv_deletions [preserves_intros]:
  "preserves worldInv (dbWrite (deleteRule i))" "preserves worldInv (dbWrite (deleteEmailAccount i))"
proof -
  have "users d' = users d" if "deleteRule i d = Inr d'" for d d'
    using that by (auto simp: deleteRule_def cascadeRules_def Let_def split: option.splits)
  then show "preserves worldInv (dbWrite (deleteRule i))" by (intro worldInv_dbWrite) (auto dest: dbInv_deleteRule)
  have "users d' = users d" if "deleteEmailAccount i d = Inr d'" for d d'
    using that by (auto simp: deleteEmailAccount_def cascadeRules_def Let_def split: sum.splits)
  then show "preserves worldInv (dbWrite (deleteEmailAccount i))"
    by (intro worldInv_dbWrite) (auto dest: dbInv_deleteEmailAccount)
qed

lemma pool_nextDraw [preserves_intros]: "preserves (poolInv R U) nextDraw"
  by (rule poolInv_I; rule preserves_intros)

lemma pool_steps [preserves_intros]:
  "preserves (poolInv R U) (callGmail c f)"
  "preserves (poolInv R U) (dbWriteR (updateEmailAccount i (\<lambda>a. a\<lparr>em_encryptedAccessToken := x, em_tokenExpiresAt := t\<rparr>)))"
  "preserves (poolInv R U) (dbWrite (createAccount r))" "preserves (poolInv R U) (dbWriteR (updateAccount k h))"
  "preserves (poolInv R U) (dbWrite (deleteRule i))" "preserves (poolInv R U) (dbWrite (deleteEmailAccount i))"
  "preserves (poolInv R U) (unlockedGuard sid)" "preserves (poolInv R U) (loggedInGuard sid)"
  "preserves (poolInv R U) (dbWrite (deleteAccount i))"
  by (rule poolInv_I; rule preserves_intros)+

lemma pool_decide [preserves_intros]: "preserves (poolInv R U) (decide i status)"
  by (rule poolInv_I) (rule preserves_intros, unfold decide_def, (intro preserves_intros)+)

lemma pool_transaction [preserves_intros]:
  "preserves (poolInv R U) (transaction (changeBody E oldKey newKey rows userId hash salt))"
proof -
  have frame: "preserves (frame S K c) (changeBody E oldKey newKey rows userId hash salt)" for S K c
    unfolding changeBody_def reencryptAccount_def by (intro preserves_intros)
  have rules: "preserves (rulesIn R) (changeBody E oldKey newKey rows userId hash salt)"
    unfolding changeBody_def reencryptAccount_def by (intro preserves_intros)
  show ?thesis
    by (intro poolInv_I worldInv_transaction changeBody_inv logins_frame frame_transaction frame rulesIn_transaction rules)
qed

text \<open>The transaction that changes a rule and replaces its conditions.\<close>

definition ruleChange :: "env \<Rightarrow> jsstring \<Rightarrow> rule_body \<Rightarrow> rule_with_conditions action" where
  "ruleChange E i data =
     bindA (case rb_conditions data of
              None \<Rightarrow> ret ()
            | Some _ \<Rightarrow> dbWriteAll (\<lambda>d. ((), deleteConditionsOf i d))) (\<lambda>_.
     bindA (throwIf (rb_invalid data) (PrismaError PValidation)) (\<lambda>_.
     bindA (dbWriteR (updateRule i (changedRule data))) (\<lambda>row.
     bindA (insertConditions E i (orElse (rb_conditions data) [])) (\<lambda>_.
     dbQuery (\<lambda>d. withConditions d row)))))"

lemma pool_ruleChange [preserves_intros]: "preserves (poolInv R U) (transaction (ruleChange E i data))"
proof -
  have frame: "preserves (frame S K c) (ruleChange E i data)" for S K c
    unfolding ruleChange_def insertConditions_def insertCondition_def Let_def by (intro preserves_intros)
  have "preserves worldInv (ruleChange E i data)" "preserves (rulesIn R) (ruleChange E i data)"
    unfolding ruleChange_def insertConditions_def insertCondition_def Let_def by (intro preserves_intros)+
  then show ?thesis
    by (intro poolInv_I worldInv_transaction logins_frame frame_transaction frame rulesIn_transaction)
qed

section \<open>The threads keep it\<close>

lemma obeys_conflict [thread_intros]:
  "obeys I G (\<lambda>_. True) (case e of ConflictException _ \<Rightarrow> Return a | _ \<Rightarrow> Return b)"
  by (cases e) simp_all

abbreviation safe :: "(jsstring \<times> jsstring) set \<Rightarrow> (jsstring \<Rightarrow> jsstring option) \<Rightarrow> (world, 'a) thread \<Rightarrow> bool" where
  "safe R U t \<equiv> obeys (poolInv R U) (\<lambda>_ _. True) (\<lambda>_. True) t"

lemma safe_getAuthorizedClientT: "safe R U (getAuthorizedClientT E i)"
  unfolding getAuthorizedClientT_def freshCredentials_def storeCredentials_def Let_def
  by (intro thread_intros obeys_step preserves_intros)

lemma safe_mailbox: "safe R U (listCandidateMessagesT E i)" "safe R U (applyActionT E i m a)"
  unfolding listCandidateMessagesT_def applyActionT_def fetchMessage_def Let_def
  by (cases a; intro thread_intros obeys_step preserves_intros safe_getAuthorizedClientT;
      simp; intro thread_intros obeys_step preserves_intros)+

lemma safe_decisions:
  "safe R U (approveT E userId i)" "safe R U (excludeT userId i)" "safe R U (rulesRemoveT userId i)"
  "safe R U (emailAccountsRemoveT userId i)" "safe R U (rulesUpdateT E userId i data)"
  unfolding approveT_def excludeT_def rulesRemoveT_def emailAccountsRemoveT_def rulesUpdateT_def ruleChange_def [symmetric]
  by (intro thread_intros obeys_step preserves_intros safe_mailbox)+

lemma safe_vault: "safe R U (accountsCreateT E userId key data)" "safe R U (accountsUpdateT E userId i key data)"
  "safe R U (updateRouteT E i body userId key)" "safe R U (accountsRemoveT userId i)"
  "safe R U (importAccountsT E userId key password backup)"
  unfolding importAccountsT_def importEntryT_def accountsRemoveT_def accountsCreateT_def accountsUpdateT_def updateRouteT_def insertAccount_def encryptValue_def
  by (intro thread_intros obeys_step preserves_intros)+

lemma onServerT_await: "onServerT (await m) = await (onServer m)"
  by (simp add: await_def onServer_def map_prod_def case_prod_unfold fun_eq_iff)

lemma obeys_onServerT:
  assumes "obeys I (\<lambda>_ _. True) Q t"
  shows "obeys (\<lambda>s. I (fst s)) (\<lambda>_ _. True) Q (onServerT t)"
  using assms by (induction t rule: thread_induct) (simp_all add: obeys_Await map_prod_def case_prod_unfold)

lemma pool_insert:
  assumes "(ruleId, a) \<in> R" and "single_valued R"
  shows "preserves (poolInv R U) (insertCandidate E ruleId a m)"
proof (rule preservesI)
  fix w r w' assume w: "poolInv R U w" and run: "insertCandidate E ruleId a m w = (r, w')"
  have "preserves (logins U) (insertCandidate E ruleId a m)" "preserves (rulesIn R) (insertCandidate E ruleId a m)"
    unfolding insertCandidate_def by (intro preserves_intros)+
  then have "logins U w'" "rulesIn R w'" using w run preservesD by (fastforce simp: poolInv_def)+
  moreover have "inAccount {i. (i, a) \<in> R} a w"
    using w assms(2) by (auto simp: poolInv_def inAccount_def rulesIn_def dest: single_valuedD)
  then have "inAccount {i. (i, a) \<in> R} a w'" using assms(1) by (intro preservesD [OF inAccount_insert _ run]) simp_all
  ultimately show "poolInv R U w'" by (simp add: poolInv_def inAccount_def)
qed

abbreviation safeScan :: "(jsstring \<times> jsstring) set \<Rightarrow> (jsstring \<Rightarrow> jsstring option) \<Rightarrow> (world \<times> scan_counters, 'a) thread \<Rightarrow> bool" where
  "safeScan R U t \<equiv> obeys (\<lambda>s. poolInv R U (fst s)) (\<lambda>_ _. True) (\<lambda>_. True) t"

lemma onFirst_eq: "(\<lambda>s. I (fst s)) = onFirst I"
  by (simp add: onFirst_def fun_eq_iff)

lemma safe_scanRuleT:
  assumes "(ru_id (rc_rule rule), a) \<in> R" and "single_valued R"
  shows "safeScan R U (scanRuleT E a m rule)"
  unfolding scanRuleT_def onFirst_eq by (intro thread_intros obeys_step preserves_intros pool_insert assms)

lemma safe_scanAccountT:
  assumes "single_valued R"
  shows "safeScan R U (scanAccountT E account u)"
proof -
  have count: "safeScan R U (await (countUp f))" for f
    unfolding onFirst_eq by (intro obeys_step preserves_intros)
  have query: "safeScan R U (bindT (await (onServer (dbQuery (activeRules (em_id account))))) (\<lambda>rules.
      if length rules = 0 then Return (Inr ())
      else bindT (onServerT (listCandidateMessagesT E (em_id account))) (\<lambda>messages.
           bindT (await (countUp (\<lambda>c. c\<lparr>scannedAccounts := scannedAccounts c + 1\<rparr>))) (\<lambda>_.
           foldT (scanMessageT E (em_id account) rules) messages ()))))"
  proof (rule obeys_bindT_await)
    fix s :: "world \<times> scan_counters"
    assume s: "poolInv R U (fst s)"
    show "poolInv R U (fst (snd (onServer (dbQuery (activeRules (em_id account))) s))) \<and> True"
      using s by (cases s) (simp add: act_simps)
    fix rules assume "fst (onServer (dbQuery (activeRules (em_id account))) s) = Inr rules"
    then have "rules = activeRules (em_id account) (db (fst s))" by (cases s) (simp add: act_simps)
    then have rules: "(ru_id (rc_rule rule), em_id account) \<in> R" if "rule \<in> set rules" for rule
      using s that by (auto simp: poolInv_def rulesIn_def activeRules_def withConditions_def)
    have "safeScan R U (onServerT (listCandidateMessagesT E (em_id account)))"
      by (intro obeys_onServerT safe_mailbox)
    then show "safeScan R U (if length rules = 0 then Return (Inr ())
      else bindT (onServerT (listCandidateMessagesT E (em_id account))) (\<lambda>messages.
           bindT (await (countUp (\<lambda>c. c\<lparr>scannedAccounts := scannedAccounts c + 1\<rparr>))) (\<lambda>_.
           foldT (scanMessageT E (em_id account) rules) messages ())))"
      unfolding scanMessageT_def by (intro thread_intros count safe_scanRuleT rules assms)
  qed
  show ?thesis unfolding scanAccountT_def onServerT_await
    by (rule obeys_catchT_any [OF obeys_bindT_any [OF obeys_Return query] count])
qed

lemma safe_scanAccountsT: "single_valued R \<Longrightarrow> safe R U (scanAccountsT E rows)"
  unfolding scanAccountsT_def by (rule obeys_withLocal [where Q = "\<lambda>_. True"]) (intro thread_intros safe_scanAccountT)

lemma safe_scans: "single_valued R \<Longrightarrow> safe R U (scanT E userId)" "single_valued R \<Longrightarrow> safe R U (scanAllT E)"
  unfolding scanT_def scanAllT_def by (intro thread_intros obeys_step preserves_intros safe_scanAccountsT; assumption)+

lemma pool_unlocks:
  assumes "U sid \<noteq> None" and "1 \<le> n" and "n \<le> 240"
  shows "preserves (poolInv R U) (bindA (keySet sid key n) (\<lambda>_. bindA (setSession sid (\<lambda>s. s\<lparr>s_unlocked := True\<rparr>)) (\<lambda>_. ret x)))"
proof (rule preservesI)
  fix w r w'
  assume w: "poolInv R U w"
    and run: "bindA (keySet sid key n) (\<lambda>_. bindA (setSession sid (\<lambda>s. s\<lparr>s_unlocked := True\<rparr>)) (\<lambda>_. ret x)) w = (r, w')"
  let ?v = "w\<lparr>keyStore := storeSet sid key n (clock w) (keyStore w)\<rparr>"
  have w': "w' = ?v\<lparr>sessions := (sessions ?v)(sid := (sessions ?v sid)\<lparr>s_unlocked := True\<rparr>)\<rparr>"
    using run by (simp add: act_simps)
  have login: "s_userId (sessions w sid) \<noteq> None" using w assms(1) by (simp add: poolInv_def logins_def)
  have "worldInv ?v" using w assms(2,3) login by (intro worldInv_storeSet) (simp_all add: poolInv_def)
  then have "worldInv w'" unfolding w' using login by (intro worldInv_session) simp_all
  then show "poolInv R U w'" using w by (simp add: w' poolInv_def rulesIn_def logins_def)
qed

lemma safe_rewriteVaultT:
  assumes "U sid \<noteq> None" and "1 \<le> u_autoLockMinutes u" and "u_autoLockMinutes u \<le> 240"
  shows "safe R U (rewriteVaultT E sid u oldKey newKey rows hash salt)"
  unfolding rewriteVaultT_def changeBody_def [symmetric]
  by (intro thread_intros obeys_step pool_unlocks assms preserves_intros)

lemma safe_change:
  assumes "U sid \<noteq> None"
  shows "safe R U (changeMasterPasswordT E sid userId cur new)"
  unfolding changeMasterPasswordT_def
proof (rule obeys_bindT_await)
  fix w found
  assume w: "poolInv R U w"
  then show "poolInv R U (snd (dbQuery (findUser userId) w)) \<and> True" by (simp add: act_simps)
  assume "fst (dbQuery (findUser userId) w) = Inr found"
  then have u: "1 \<le> u_autoLockMinutes u" "u_autoLockMinutes u \<le> 240" if "found = Some u" for u
    using that findUser_D [of userId "db w" u] dbInv_lockMinutes [of "db w" u] w
    by (auto simp: poolInv_def worldInv_def act_simps)
  show "safe R U (case found of
       None \<Rightarrow> Return (Inl (UnauthorizedException UserNotFound))
     | Some u \<Rightarrow>
         bindT (await (verifyMasterPassword E cur (u_masterPasswordHash u))) (\<lambda>valid.
           if \<not> valid then Return (Inl (UnauthorizedException CurrentMasterPasswordWrong))
           else if tooShort new then Return (Inl (BadRequestException MasterPasswordTooShort))
           else
             bindT (await (deriveEncryptionKey E cur (u_masterKdfSalt u))) (\<lambda>oldKey.
             bindT (await (bindA (generateKdfSalt E) (\<lambda>newKdfSalt.
                           bindA (hashMasterPassword E (orElse new [])) (\<lambda>newHash.
                           bindA (deriveEncryptionKey E new newKdfSalt) (\<lambda>newKey.
                           ret (newKdfSalt, newHash, newKey)))))) (\<lambda>(newKdfSalt, newHash, newKey).
             bindT (await (dbQuery (\<lambda>d. filter (\<lambda>a. ac_userId a = userId) (accounts d)))) (\<lambda>rows.
             rewriteVaultT E sid u oldKey newKey rows newHash newKdfSalt)))))"
    by (intro thread_intros obeys_step safe_rewriteVaultT assms preserves_intros) (use u in simp_all)
qed

text \<open>The guards hand on the user the session is logged in as.\<close>

lemma safe_guardedT:
  assumes "\<And>userId key. U sid \<noteq> None \<Longrightarrow> safe R U (f userId key)"
  shows "safe R U (guardedT sid f)"
  unfolding guardedT_def
proof (rule obeys_bindT_await)
  fix w x assume w: "poolInv R U w"
  then show "poolInv R U (snd (unlockedGuard sid w)) \<and> True"
    using pool_steps(7) [of R U sid] by (simp add: preserves_def)
  assume x: "fst (unlockedGuard sid w) = Inr x"
  obtain v where "unlockedGuard sid w = (Inr x, v)" using x by (cases "unlockedGuard sid w") auto
  then have "s_userId (sessions v sid) \<noteq> None" "s_userId (sessions v sid) = s_userId (sessions w sid)"
    using guard_login by (blast, auto simp: run_unlockedGuard split: option.splits bool.splits if_splits)
  then have "U sid \<noteq> None" using w by (simp add: poolInv_def logins_def)
  then show "safe R U (case x of (userId, key) \<Rightarrow> f userId key)" by (cases x) (simp add: assms)
qed

section \<open>Every interleaving keeps the invariant\<close>

text \<open>The jobs that are taken apart.\<close>

fun apart :: "job \<Rightarrow> bool" where
  "apart (Serve sid PostScan) = True"
| "apart (Serve sid (PostApprove i)) = True"
| "apart (Serve sid (PostExclude i)) = True"
| "apart (Serve sid (DeleteRule i)) = True"
| "apart (Serve sid (DeleteEmailAccount i)) = True"
| "apart (Serve sid (PostAccount body)) = True"
| "apart (Serve sid (PutAccount i body)) = True"
| "apart (Serve sid (DeleteAccount i)) = True"
| "apart (Serve sid (PostImport password backup)) = True"
| "apart (Serve sid (PutRule i body)) = True"
| "apart (Serve sid (PostMasterPasswordChange cur new)) = True"
| "apart (Serve sid req) = False"
| "apart Schedule = True"
| "apart (Clock ms) = True"

lemma pool_clock: "preserves (poolInv R U) (\<lambda>w. (Inr x, w\<lparr>clock := clock w + int ms\<rparr>))"
  by (force simp: preserves_def poolInv_def worldInv_def sessionsOk_def keyStoreOk_def rulesIn_def logins_def)

lemma safe_jobT:
  assumes "single_valued R" and "apart j"
  shows "safe R U (jobT E j)"
  using assms(2)
proof (cases j)
  case (Serve sid req)
  then show ?thesis using assms
    by (cases req) (simp_all only: jobT.simps noCounts_def counts_def apart.simps,
      (intro thread_intros safe_guardedT safe_scans safe_decisions safe_vault safe_change obeys_step preserves_intros;
       assumption)+)
next
  case Schedule
  then show ?thesis using assms(1) by (simp only: jobT.simps counts_def) (intro thread_intros safe_scans)
next
  case (Clock ms)
  then show ?thesis by (simp only: jobT.simps) (intro obeys_step pool_clock)
qed

lemma interleave_poolInv:
  assumes "single_valued R" and "list_all apart jobs" and "poolInv R U w"
    and "interleave schedule (map (jobT E) jobs, w) = (ts, w')"
  shows "poolInv R U w'"
proof -
  have "\<forall>t \<in> set (map (jobT E) jobs). safe R U t" using assms(1,2) by (auto simp: list_all_iff intro: safe_jobT)
  from interleave_obeys [OF this assms(3,4)] show ?thesis by blast
qed

lemma interleave_worldInv:
  assumes "worldInv w" and "list_all apart jobs"
  shows "worldInv (snd (interleave schedule (map (jobT E) jobs, w)))"
proof -
  let ?R = "(\<lambda>r. (ru_id r, ru_emailAccountId r)) ` set (emailRules (db w))"
  let ?U = "\<lambda>sid. s_userId (sessions w sid)"
  obtain ts w' where run: "interleave schedule (map (jobT E) jobs, w) = (ts, w')"
    by (cases "interleave schedule (map (jobT E) jobs, w)")
  have "dbInv (db w)" using assms(1) by (simp add: worldInv_def)
  then have "single_valued ?R"
    using rule_table.ok_same_key [OF dbInv_tables(5)] by (auto simp: single_valued_def)
  moreover have "poolInv ?R ?U w" using assms(1) by (simp add: poolInv_def rulesIn_def logins_def)
  ultimately have "poolInv ?R ?U w'" using assms(2) run by (blast intro: interleave_poolInv)
  then show ?thesis by (simp add: run poolInv_def)
qed


section \<open>Concurrent scans\<close>

definition candidateKeys :: "world \<Rightarrow> (jsstring \<times> jsstring) list" where
  "candidateKeys w = map candidateKey (emailCandidates (db w))"

definition keysAre :: "(jsstring \<times> jsstring) list \<Rightarrow> world \<Rightarrow> bool" where
  "keysAre ks w \<longleftrightarrow> candidateKeys w = ks"

lemma keysAre_steps [preserves_intros]:
  "preserves (keysAre ks) nextDraw" "preserves (keysAre ks) (callGmail c f)"
  "preserves (keysAre ks) (dbWriteR (updateEmailAccount i g))" "preserves (keysAre ks) (dbWrite (createAccount a))"
  "preserves (keysAre ks) (dbWriteR (updateAccount i h))" "preserves (keysAre ks) (dbWriteR (updateUser i u))"
  "preserves (keysAre ks) (dbWriteAll (deleteDevicesOf v))" "preserves (keysAre ks) (keySet sid key n)"
  "preserves (keysAre ks) (setSession sid x)" "preserves (keysAre ks) (unlockedGuard sid)"
  "preserves (keysAre ks) (dbWrite (deleteAccount i))" "preserves (keysAre ks) (dbWrite (createCondition cond))"
  "preserves (keysAre ks) (dbWriteR (updateRule i upd))"
  "preserves (keysAre ks) (dbWriteAll (\<lambda>d. ((), deleteConditionsOf i d)))"
  by (auto simp: preserves_def keysAre_def candidateKeys_def act_simps deleteAccount_def createCondition_def updateRule_def
      deleteConditionsOf_def updateEmailAccount_def createAccount_def
      updateAccount_def updateUser_def deleteDevicesOf_def run_unlockedGuard
      split: sum.splits option.splits bool.splits if_splits)

lemma keysAre_decide [preserves_intros]: "preserves (keysAre ks) (decide i status)"
  unfolding decide_def
  by (intro preserves_intros)
    (auto simp: preserves_def keysAre_def candidateKeys_def run_dbWriteR updateCandidate_def candidateKey_def
      elim!: updateRow_Inr split: sum.splits)

lemma keysAre_transaction [preserves_intros]:
  assumes "\<And>ks. preserves (keysAre ks) m"
  shows "preserves (keysAre ks) (transaction m)"
proof (rule preservesI)
  fix w r w' assume w: "keysAre ks w" and t: "transaction m w = (r, w')"
  obtain r1 w1 where m: "m w = (r1, w1)" by (cases "m w")
  have "keysAre ks w1" by (rule preservesD [OF assms w m])
  then show "keysAre ks w'" using t m w by (cases r1) (auto simp: run_transaction keysAre_def candidateKeys_def)
qed

text \<open>A thread that stores no candidate.\<close>

abbreviation sameKeys :: "(world, 'a) thread \<Rightarrow> bool" where
  "sameKeys t \<equiv> obeys (\<lambda>_. True) (\<lambda>w w'. candidateKeys w' = candidateKeys w) (\<lambda>_. True) t"

lemma sameKeys_await: "(\<And>ks. preserves (keysAre ks) m) \<Longrightarrow> sameKeys (await m)"
  by (rule obeys_await) (simp add: preserves_def keysAre_def)

lemma sameKeys_getAuthorizedClientT: "sameKeys (getAuthorizedClientT E i)"
  unfolding getAuthorizedClientT_def freshCredentials_def storeCredentials_def Let_def
  by (intro thread_intros sameKeys_await preserves_intros)

lemma sameKeys_mailbox: "sameKeys (listCandidateMessagesT E i)" "sameKeys (applyActionT E i m a)"
  unfolding listCandidateMessagesT_def applyActionT_def fetchMessage_def Let_def
  by (cases a; intro thread_intros sameKeys_await preserves_intros sameKeys_getAuthorizedClientT;
      simp; intro thread_intros sameKeys_await preserves_intros)+

lemma sameKeys_requests:
  "sameKeys (approveT E userId i)" "sameKeys (excludeT userId i)" "sameKeys (accountsCreateT E userId key data)"
  "sameKeys (updateRouteT E i body userId key)" "sameKeys (changeMasterPasswordT E sid userId cur new)"
  "sameKeys (accountsRemoveT userId i)" "sameKeys (importAccountsT E userId key password backup)"
  "sameKeys (rulesUpdateT E userId i rule)"
  unfolding importAccountsT_def importEntryT_def accountsRemoveT_def rulesUpdateT_def insertConditions_def
    insertCondition_def Let_def approveT_def excludeT_def accountsCreateT_def updateRouteT_def accountsUpdateT_def insertAccount_def
    encryptValue_def changeMasterPasswordT_def rewriteVaultT_def reencryptAccount_def
  by (intro thread_intros sameKeys_await preserves_intros sameKeys_mailbox)+

text \<open>A scan stores candidates behind the others and counts each.\<close>

definition grows :: "world \<times> scan_counters \<Rightarrow> world \<times> scan_counters \<Rightarrow> bool" where
  "grows s s' \<longleftrightarrow> (\<exists>new. candidateKeys (fst s') = candidateKeys (fst s) @ new \<and>
     createdCandidates (snd s') = createdCandidates (snd s) + length new)"

lemma grows_onServerT:
  assumes "sameKeys t"
  shows "obeys (\<lambda>_. True) grows (\<lambda>_. True) (onServerT t)"
  using assms
  by (induction t rule: thread_induct) (simp_all add: obeys_Await map_prod_def case_prod_unfold grows_def)

lemma grows_insert:
  "obeys (\<lambda>_. True) grows (\<lambda>_. True) (await (bindA (onServer (insertCandidate E ruleId a m)) (\<lambda>_.
     countUp (\<lambda>c. c\<lparr>createdCandidates := createdCandidates c + 1\<rparr>))))"
proof (rule obeys_await)
  fix s :: "world \<times> scan_counters"
  obtain w c where s: "s = (w, c)" by (cases s)
  obtain r w' where run: "insertCandidate E ruleId a m w = (r, w')" by (cases "insertCandidate E ruleId a m w")
  show "True \<and> grows s (snd (bindA (onServer (insertCandidate E ruleId a m)) (\<lambda>_.
     countUp (\<lambda>c. c\<lparr>createdCandidates := createdCandidates c + 1\<rparr>)) s)) \<and> True"
    using insertCandidate_outcome [OF run] by (auto simp: s act_simps run grows_def candidateKeys_def)
qed

lemma grows_count:
  assumes "\<And>c. createdCandidates (f c) = createdCandidates c"
  shows "obeys (\<lambda>_. True) grows (\<lambda>r. r = Inr ()) (await (countUp f))"
  by (rule obeys_await) (auto simp: countUp_def act_simps grows_def assms split: prod.split)

lemma grows_scanAccountT: "obeys (\<lambda>_. True) grows (\<lambda>r. r = Inr ()) (scanAccountT E account u)"
  unfolding scanAccountT_def
proof (rule obeys_catchT, rule obeys_weaken)
  show "obeys (\<lambda>_. True) grows (\<lambda>_. True)
     (bindT (Return (registryGet E (em_providerType account))) (\<lambda>provider.
        bindT (onServerT (await (dbQuery (activeRules (em_id account))))) (\<lambda>rules.
          if length rules = 0 then Return (Inr ())
          else
            bindT (onServerT (listCandidateMessagesT E (em_id account))) (\<lambda>messages.
            bindT (await (countUp (\<lambda>c. c\<lparr>scannedAccounts := scannedAccounts c + 1\<rparr>))) (\<lambda>_.
            foldT (scanMessageT E (em_id account) rules) messages ())))))"
    unfolding scanMessageT_def scanRuleT_def
    by (intro thread_intros grows_onServerT sameKeys_await preserves_intros sameKeys_mailbox grows_insert
        obeys_any [OF grows_count]) simp_all
  show "case r of Inl e \<Rightarrow> obeys (\<lambda>_. True) grows (\<lambda>r. r = Inr ())
          (await (countUp (\<lambda>c. c\<lparr>failedAccounts := failedAccounts c + 1\<rparr>))) | Inr x \<Rightarrow> Inr x = Inr ()" for r
    by (simp add: grows_count split: sum.split)
qed

lemma grows_scan: "obeys (\<lambda>_. True) grows (\<lambda>r. r = Inr ()) (foldT (scanAccountT E) rows ())"
  by (rule obeys_foldT [of _ "\<lambda>_. True"]) (auto intro: obeys_weaken [OF grows_scanAccountT])

text \<open>What a job reports as newly found; only scans report anything.\<close>

fun created :: "exn + scan_counters option \<Rightarrow> nat" where
  "created (Inr (Some c)) = createdCandidates c"
| "created _ = 0"

fun removes :: "job \<Rightarrow> bool" where
  "removes (Serve sid (DeleteRule i)) = True"
| "removes (Serve sid (DeleteEmailAccount i)) = True"
| "removes _ = False"

definition candidateCount :: "world \<Rightarrow> nat" where
  "candidateCount w = length (candidateKeys w)"

lemma still_sameKeys: "sameKeys t \<Longrightarrow> (\<And>r. Q r) \<Longrightarrow> still candidateCount Q t"
  unfolding still_def
  by (rule obeys_weaken [where Q = "\<lambda>_. True"], rule obeys_weaken_steps) (assumption, simp_all add: candidateCount_def)

lemma adds_scanAccountsT:
  assumes "\<And>c. v (Inr c) = createdCandidates c"
  shows "adds candidateCount v (scanAccountsT E rows) 0"
proof -
  have "obeys (\<lambda>_. True) (\<lambda>s s'. candidateCount (fst s) \<le> candidateCount (fst s') \<and>
      createdCandidates (snd s') + candidateCount (fst s) = createdCandidates (snd s) + candidateCount (fst s'))
      (\<lambda>r. \<exists>x. r = Inr x) (foldT (scanAccountT E) rows ())"
    by (rule obeys_weaken, rule obeys_weaken_steps [OF grows_scan]) (auto simp: grows_def candidateCount_def)
  then have "adds candidateCount v (withLocal (foldT (scanAccountT E) rows ()) noCounters) (createdCandidates noCounters)"
    by (rule adds_withLocal) (rule assms)
  then show ?thesis by (simp add: scanAccountsT_def noCounters_def)
qed

lemma adds_scans:
  assumes "\<And>c. v (Inr c) = createdCandidates c" and "\<And>e. v (Inl e) = 0"
  shows "adds candidateCount v (scanT E userId) 0" and "adds candidateCount v (scanAllT E) 0"
    and "adds candidateCount v (guardedT sid (\<lambda>u _. scanT E u)) 0"
proof -
  show scan: "adds candidateCount v (scanT E u) 0" "adds candidateCount v (scanAllT E) 0" for u
    unfolding scanT_def scanAllT_def
    by (rule adds_bindT, rule still_sameKeys, rule sameKeys_await, intro preserves_intros,
      simp add: adds_scanAccountsT assms split: sum.split)+
  show "adds candidateCount v (guardedT sid (\<lambda>u _. scanT E u)) 0"
    unfolding guardedT_def
    by (rule adds_bindT, rule still_sameKeys, rule sameKeys_await, intro preserves_intros)
      (simp add: scan(1) assms split: sum.split prod.split)
qed

lemma sameKeys_guardedT: "(\<And>userId key. sameKeys (f userId key)) \<Longrightarrow> sameKeys (guardedT sid f)"
  unfolding guardedT_def by (intro thread_intros sameKeys_await preserves_intros)

lemma sameKeys_adds: "sameKeys t \<Longrightarrow> adds candidateCount created (noCounts t) 0"
  unfolding noCounts_def by (rule adds_map, rule adds_still, rule still_sameKeys) (simp_all split: sum.split)

lemma adds_jobT:
  assumes "apart j" and "\<not> removes j"
  shows "adds candidateCount created (jobT E j) 0"
proof (cases j)
  case (Serve sid req)
  then show ?thesis using assms
    by (cases req) (simp_all only: jobT.simps counts_def apart.simps removes.simps not_True_eq_False,
      (rule sameKeys_adds adds_map adds_scans | intro sameKeys_guardedT sameKeys_requests thread_intros | simp)+)
next
  case Schedule
  then show ?thesis by (simp only: jobT.simps counts_def) (rule adds_map, rule adds_scans, simp_all)
next
  case (Clock ms)
  show ?thesis unfolding Clock jobT.simps
    by (rule adds_still, unfold still_def, rule obeys_await) (simp add: candidateCount_def candidateKeys_def)
qed

text \<open>No job but a removal takes a candidate away, and new ones come behind the old.\<close>

abbreviation extends :: "(world, 'a) thread \<Rightarrow> bool" where
  "extends t \<equiv> obeys (\<lambda>_. True) (\<lambda>w w'. prefix (candidateKeys w) (candidateKeys w')) (\<lambda>_. True) t"

lemma extends_sameKeys: "sameKeys t \<Longrightarrow> extends t"
  by (erule obeys_weaken_steps) simp

lemma extends_scanAccountsT: "extends (scanAccountsT E rows)"
  unfolding scanAccountsT_def
  by (rule obeys_withLocal, rule obeys_weaken_steps [OF grows_scan]) (auto simp: grows_def)

lemma extends_scans: "extends (scanT E userId)" "extends (scanAllT E)"
  unfolding scanT_def scanAllT_def
  by (intro thread_intros extends_scanAccountsT extends_sameKeys sameKeys_await preserves_intros)+

lemma extends_guardedT: "(\<And>userId key. extends (f userId key)) \<Longrightarrow> extends (guardedT sid f)"
  unfolding guardedT_def
  by (rule obeys_bindT_any, rule extends_sameKeys, rule sameKeys_await) (intro preserves_intros, rule obeys_cases)

lemma extends_jobT:
  assumes "apart j" and "\<not> removes j"
  shows "extends (jobT E j)"
proof (cases j)
  case (Serve sid req)
  then show ?thesis using assms
    by (cases req) (simp_all only: jobT.simps noCounts_def counts_def apart.simps removes.simps not_True_eq_False,
      (intro thread_intros extends_guardedT extends_scans extends_sameKeys sameKeys_requests)+)
next
  case Schedule
  then show ?thesis by (simp only: jobT.simps counts_def) (intro thread_intros extends_scans)
next
  case (Clock ms)
  show ?thesis unfolding Clock jobT.simps by (rule obeys_await) (simp add: candidateKeys_def)
qed

lemma candidateKeys_distinct:
  assumes "dbInv d"
  shows "distinct (map candidateKey (emailCandidates d))"
proof -
  have "distinct (map candidateKey t)" if "okTable candidate_clash t" for t
    using that by (induction t) (auto simp: okTable_def candidate_clash_def candidateKey_def)
  then show ?thesis using dbInv_tables(7) [OF assms] by blast
qed

text \<open>
  C8: scans may overlap, with one another, with the scheduled one, with decisions and with writes to
  the vault. When all have returned, every pair of a rule and a message is stored at most once, no
  candidate that was there is gone, and the numbers of new candidates the scans report add up to
  exactly what has been added: a candidate that two of them find at once is counted by one.
\<close>

theorem concurrent_scans_count:
  assumes "worldInv w" and "list_all (\<lambda>j. apart j \<and> \<not> removes j) jobs"
    and "interleave schedule (map (jobT E) jobs, w) = (ts, w')" and "map resultOf ts = map Some results"
  shows "distinct (candidateKeys w') \<and>
    (\<exists>new. candidateKeys w' = candidateKeys w @ new \<and> length new = sum_list (map created results))"
proof -
  have "\<forall>t \<in> set (map (jobT E) jobs). extends t" using assms(2) by (auto simp: list_all_iff intro: extends_jobT)
  from interleave_obeys [OF this _ assms(3)]
  have "(\<lambda>w w'. prefix (candidateKeys w) (candidateKeys w'))\<^sup>*\<^sup>* w w'" by simp
  then have "prefix (candidateKeys w) (candidateKeys w')" by (induction rule: rtranclp_induct) (auto intro: prefix_order.trans)
  then obtain new where new: "candidateKeys w' = candidateKeys w @ new" by (rule prefixE)
  have "addedBy candidateCount created (map (jobT E) jobs) (replicate (length jobs) 0)"
    using assms(2) by (auto simp: addedBy_def list_all2_conv_all_nth list_all_length adds_jobT)
  then obtain ks where ks: "addedBy candidateCount created ts ks"
    "sum_list ks + candidateCount w = sum_list (replicate (length jobs) 0) + candidateCount w'"
    using interleave_adds [OF _ assms(3)] by blast
  have "ks = map created results" by (rule addedBy_results [OF ks(1) assms(4)])
  then have "length new = sum_list (map created results)"
    using ks(2) new by (simp add: candidateCount_def sum_list_replicate)
  moreover have "worldInv (snd (interleave schedule (map (jobT E) jobs, w)))"
    using assms(1,2) interleave_worldInv by (simp add: list_all_iff)
  then have "distinct (candidateKeys w')"
    using assms(3) candidateKeys_distinct [of "db w'"] by (simp add: worldInv_def candidateKeys_def)
  ultimately show ?thesis using new by blast
qed

section \<open>Every job returns\<close>


section \<open>Witnesses\<close>

lemma fair_round: "0 < k \<Longrightarrow> fair k (\<lambda>n. n mod k)"
  unfolding fair_def
proof (intro allI impI)
  fix i n assume "0 < k" "i < k"
  moreover from this have "n \<le> k * n" by simp
  ultimately show "\<exists>m \<ge> n. m mod k = i" by (intro exI [of _ "i + k * n"]) (simp add: trans_le_add2)
qed

lemma finished_results: "list_all finished ts \<Longrightarrow> \<exists>results. map resultOf ts = map Some results"
proof (induction ts)
  case Nil
  show ?case by simp
next
  case (Cons t ts)
  then obtain results where "map resultOf ts = map Some results" by auto
  with Cons.prems show ?case by (cases t) (auto intro: exI [of _ "r # results" for r])
qed



lemma concurrent_scans_count_witness:
  "\<exists>schedule ts w' results. interleave schedule (map (jobT demoEnv) [Schedule, Serve (js ''s1'') PostScan], demoWorld) = (ts, w') \<and>
     map resultOf ts = map Some results \<and> length results = 2 \<and>
     length (candidateKeys w') = 1 + sum_list (map created results)"
proof -
  let ?jobs = "[Schedule, Serve (js ''s1'') PostScan]"
  have "fair (length (map (jobT demoEnv) ?jobs)) (\<lambda>n. n mod 2)" using fair_round [of 2] by (simp add: numeral_2_eq_2)
  then obtain n where n: "list_all finished (fst (after (\<lambda>n. n mod 2) n (map (jobT demoEnv) ?jobs, demoWorld)))"
    by (metis all_return)
  obtain ts w' where run: "interleave (map (\<lambda>n. n mod 2) [0..<n]) (map (jobT demoEnv) ?jobs, demoWorld) = (ts, w')"
    by (cases "interleave (map (\<lambda>n. n mod 2) [0..<n]) (map (jobT demoEnv) ?jobs, demoWorld)")
  have "list_all finished ts" using n run by (simp add: after_def)
  then obtain results where r: "map resultOf ts = map Some results" using finished_results by blast
  have "list_all (\<lambda>j. apart j \<and> \<not> removes j) ?jobs" by simp
  from concurrent_scans_count [OF worldInv_demoWorld this run r] obtain new where
    new: "candidateKeys w' = candidateKeys demoWorld @ new" "length new = sum_list (map created results)" by blast
  have "length ts = 2" using length_interleave [of "map (\<lambda>n. n mod 2) [0..<n]" "(map (jobT demoEnv) ?jobs, demoWorld)"]
    by (simp only: run) simp
  then have "length results = 2" using r by (metis length_map)
  moreover have "length (candidateKeys w') = 1 + sum_list (map created results)"
    using new by (simp add: candidateKeys_def demoWorld_def demoDb_def)
  ultimately show ?thesis using run r by blast
qed

end
