(* ===== verification/Races.thy ===== *)
theory Races
  imports Concurrency MailProperties
begin

text \<open>
  Where handlers do get in one another's way: the change of the master password writes back what it read
  before, so that it misses what others store in between; and a decision about a candidate is not final.
\<close>

section \<open>One thread, step by step\<close>

lemma tick_single:
  "tick 0 ([t], s) = (case t of Return r \<Rightarrow> ([t], s) | Await m \<Rightarrow> ([fst (m s)], snd (m s)))"
  by (simp add: tick_def split: thread.split prod.split)

lemma bindT_await: "bindT (await m) f = Await (\<lambda>s. map_prod (\<lambda>r. bindT (Return r) f) id (m s))"
  by (simp add: await_def map_prod_def case_prod_unfold)

section \<open>The change of the master password\<close>

text \<open>After six steps the change has read the entries, or it has failed.\<close>

definition changeJob :: "jsstring \<Rightarrow> jsstring option \<Rightarrow> jsstring option \<Rightarrow> job" where
  "changeJob sid cur new = Serve sid (PostMasterPasswordChange cur new)"

definition reading :: "env \<Rightarrow> jsstring \<Rightarrow> world \<Rightarrow> (world, scan_counters option) thread \<Rightarrow> user_row \<Rightarrow> byte list \<Rightarrow> byte list \<Rightarrow> bool" where
  "reading E sid w t u oldKey newKey \<longleftrightarrow>
     (\<exists>curText newText. findUser (u_id u) (db w) = Some u \<and> s_userId (sessions w sid) = Some (u_id u) \<and>
       deriveKey E curText (u_masterKdfSalt u) = Inr oldKey \<and> argon2Verify E (u_masterPasswordHash u) curText \<and>
       deriveKey E newText (base64Encode (randomBytes E (draws w) 16)) = Inr newKey \<and>
       t = noCounts (rewriteVaultT E sid u oldKey newKey (filter (\<lambda>a. ac_userId a = u_id u) (accounts (db w)))
             (argon2Hash E ARGON2ID_OPTIONS (Suc (draws w)) newText) (base64Encode (randomBytes E (draws w) 16))))"

lemma change_reads:
  assumes "interleave [0, 0, 0, 0, 0, 0] ([jobT E (changeJob sid cur new)], w) = ([t], w1)"
  shows "(\<exists>e. t = Return (Inl e)) \<or> (\<exists>u oldKey newKey. reading E sid w t u oldKey newKey)"
proof (cases "s_userId (sessions w sid)")
  case None
  then show ?thesis using assms
    by (auto simp: changeJob_def tick_single guardedT_def noCounts_def bindT_await run_unlockedGuard split: option.splits bool.splits if_splits)
next
  case (Some i)
  show ?thesis
  proof (cases "\<exists>e. t = Return (Inl e)")
    case False
    have "\<exists>u oldKey newKey. findUser i (db w) = Some u \<and> deriveKey E (the cur) (u_masterKdfSalt u) = Inr oldKey \<and>
       argon2Verify E (u_masterPasswordHash u) (the cur) \<and>
       deriveKey E (the new) (base64Encode (randomBytes E (draws w) 16)) = Inr newKey \<and>
       t = noCounts (rewriteVaultT E sid u oldKey newKey (filter (\<lambda>a. ac_userId a = i) (accounts (db w)))
             (argon2Hash E ARGON2ID_OPTIONS (Suc (draws w)) (the new)) (base64Encode (randomBytes E (draws w) 16)))"
      using assms False Some
      by (auto simp: changeJob_def tick_single guardedT_def noCounts_def changeMasterPasswordT_def bindT_await
          run_unlockedGuard act_simps split: option.splits sum.splits if_splits bool.splits prod.splits)
    then obtain u oldKey newKey where u: "findUser i (db w) = Some u"
      and rest: "deriveKey E (the cur) (u_masterKdfSalt u) = Inr oldKey" "argon2Verify E (u_masterPasswordHash u) (the cur)"
       "deriveKey E (the new) (base64Encode (randomBytes E (draws w) 16)) = Inr newKey"
       "t = noCounts (rewriteVaultT E sid u oldKey newKey (filter (\<lambda>a. ac_userId a = i) (accounts (db w)))
             (argon2Hash E ARGON2ID_OPTIONS (Suc (draws w)) (the new)) (base64Encode (randomBytes E (draws w) 16)))"
      by blast
    have "u_id u = i" using findUser_D [OF u] by simp
    then have "reading E sid w t u oldKey newKey"
      unfolding reading_def using u rest Some by (intro exI [of _ "the cur"] exI [of _ "the new"]) simp
    then show ?thesis by blast
  qed blast
qed

text \<open>The loop over the entries that were read, in whatever state it finds the table.\<close>

lemma reencrypt_succeeds:
  assumes "foldA (reencryptAccount E oldKey newKey) rows () v = (Inr (), v')" and "distinct (map ac_id rows)"
  shows "\<exists>c. accounts (db v') = map (rewritten c (clock v) (ac_id ` set rows)) (accounts (db v)) \<and>
    (\<forall>b \<in> set rows. \<exists>p m. aesDecrypt E (ac_encryptedPassword b) oldKey = Inr p \<and> aesEncrypt E m p newKey = Inr (c (ac_id b)))"
  using assms
proof (induction rows arbitrary: v)
  case Nil
  then show ?case by (auto simp: run_ret rewritten_def intro!: exI [of _ "\<lambda>_. []"])
next
  case (Cons b rows)
  then obtain v1 where step: "reencryptAccount E oldKey newKey b () v = (Inr (), v1)"
    and rest: "foldA (reencryptAccount E oldKey newKey) rows () v1 = (Inr (), v')"
    by (auto simp: run_bindA split: prod.splits sum.splits)
  obtain p c where p: "aesDecrypt E (ac_encryptedPassword b) oldKey = Inr p"
    and c: "aesEncrypt E (draws v) p newKey = Inr c"
    and v1: "accounts (db v1) = map (rewritten (\<lambda>_. c) (clock v) {ac_id b}) (accounts (db v))" "clock v1 = clock v"
    using step by (auto simp: reencryptAccount_def act_simps updateAccount_def rewritten_def
        elim!: updateRow_Inr split: sum.splits if_splits)
  obtain c' where c': "accounts (db v') = map (rewritten c' (clock v) (ac_id ` set rows)) (accounts (db v1))"
    "\<forall>b \<in> set rows. \<exists>p m. aesDecrypt E (ac_encryptedPassword b) oldKey = Inr p \<and> aesEncrypt E m p newKey = Inr (c' (ac_id b))"
    using Cons.IH [OF rest] Cons.prems(2) v1(2) by auto
  let ?c = "c'(ac_id b := c)"
  have new: "ac_id b \<notin> ac_id ` set rows" using Cons.prems(2) by simp
  then have "rewritten c' (clock v) (ac_id ` set rows) (rewritten (\<lambda>_. c) (clock v) {ac_id b} x) =
      rewritten ?c (clock v) (ac_id ` set (b # rows)) x" for x by (auto simp: rewritten_def)
  then have "accounts (db v') = map (rewritten ?c (clock v) (ac_id ` set (b # rows))) (accounts (db v))"
    using c'(1) v1(1) by (simp add: o_def)
  moreover have "\<exists>q m. aesDecrypt E (ac_encryptedPassword x) oldKey = Inr q \<and> aesEncrypt E m q newKey = Inr (?c (ac_id x))"
    if "x \<in> set (b # rows)" for x
    using that p c c'(2) new by (cases "x = b") (auto, metis imageI)
  ultimately show ?case by blast
qed

text \<open>The last two steps, when the change goes through.\<close>

lemma rewrite_runs:
  assumes "interleave [0, 0] ([noCounts (rewriteVaultT E sid u oldKey newKey rows hash salt)], v) = ([Return (Inr None)], v')"
  obtains n v2 where "changeBody E oldKey newKey rows (u_id u) hash salt v = (Inr n, v2)"
    and "v' = v2\<lparr>keyStore := storeSet sid newKey (u_autoLockMinutes u) (clock v2) (keyStore v2),
                 sessions := (sessions v2)(sid := (sessions v2 sid)\<lparr>s_unlocked := True\<rparr>)\<rparr>"
  using assms
  by (cases "changeBody E oldKey newKey rows (u_id u) hash salt v")
    (auto simp: tick_single noCounts_def rewriteVaultT_def bindT_await act_simps simp flip: changeBody_def
      split: sum.splits)

lemma changeBody_accounts:
  assumes "changeBody E oldKey newKey rows userId hash salt v = (Inr n, v2)" and "distinct (map ac_id rows)"
  shows "\<exists>c. accounts (db v2) = map (rewritten c (clock v) (ac_id ` set rows)) (accounts (db v)) \<and>
    (\<forall>b \<in> set rows. \<exists>p m. aesDecrypt E (ac_encryptedPassword b) oldKey = Inr p \<and> aesEncrypt E m p newKey = Inr (c (ac_id b)))"
proof -
  obtain v1 where loop: "foldA (reencryptAccount E oldKey newKey) rows () v = (Inr (), v1)"
    and rest: "bindA (dbWriteR (updateUser userId (\<lambda>x. x\<lparr>u_masterPasswordHash := hash, u_masterKdfSalt := salt\<rparr>)))
      (\<lambda>_. dbWriteAll (deleteDevicesOf userId)) v1 = (Inr n, v2)"
    using assms(1) unfolding changeBody_def by (auto elim: bindA_InrE)
  have "accounts (db v2) = accounts (db v1)"
    using rest by (auto simp: act_simps updateUser_def deleteDevicesOf_def split: sum.splits)
  with reencrypt_succeeds [OF loop assms(2)] show ?thesis by simp
qed

lemma change_overwrites:
  assumes "worldInv w" and "goodPlatform E" and "argon2Law E" and r: "reading E sid w t u oldKey newKey"
    and "interleave [0, 0] ([t], v) = ([Return (Inr None)], v')"
  shows "keyLive sid v' = Some newKey \<and>
    (\<forall>a \<in> set (accounts (db v)). (\<forall>b \<in> set (accounts (db w)). ac_userId b = u_id u \<longrightarrow> ac_id b \<noteq> ac_id a) \<longrightarrow>
       a \<in> set (accounts (db v'))) \<and>
    (\<forall>b \<in> set (accounts (db w)). \<forall>a \<in> set (accounts (db v')). \<forall>p. ac_userId b = u_id u \<and> ac_id a = ac_id b \<and>
       wellFormed p \<and> aesDecrypt E (ac_encryptedPassword b) oldKey = Inr p \<longrightarrow>
       aesDecrypt E (ac_encryptedPassword a) newKey = Inr p)"
proof -
  let ?rows = "filter (\<lambda>a. ac_userId a = u_id u) (accounts (db w))"
  obtain newText where u: "findUser (u_id u) (db w) = Some u"
    and key: "deriveKey E newText (base64Encode (randomBytes E (draws w) 16)) = Inr newKey"
    and t: "t = noCounts (rewriteVaultT E sid u oldKey newKey ?rows
        (argon2Hash E ARGON2ID_OPTIONS (Suc (draws w)) newText) (base64Encode (randomBytes E (draws w) 16)))"
    using r unfolding reading_def by blast
  have inv: "dbInv (db w)" using assms(1) by (simp add: worldInv_def)
  have "randomLaw E" using assms(2) by (simp add: goodPlatform_def)
  then have len: "length newKey = 32" using key assms(3) deriveKey_fresh [of E newText "draws w"] by auto
  obtain n v2 where body: "changeBody E oldKey newKey ?rows (u_id u)
      (argon2Hash E ARGON2ID_OPTIONS (Suc (draws w)) newText) (base64Encode (randomBytes E (draws w) 16)) v = (Inr n, v2)"
    and v': "v' = v2\<lparr>keyStore := storeSet sid newKey (u_autoLockMinutes u) (clock v2) (keyStore v2),
                 sessions := (sessions v2)(sid := (sessions v2 sid)\<lparr>s_unlocked := True\<rparr>)\<rparr>"
    using assms(5) unfolding t by (rule rewrite_runs)
  have "distinct (map ac_id ?rows)"
    using account_table.ok_distinct [OF dbInv_tables(3) [OF inv]] by (simp add: distinct_map_filter)
  then obtain c where c: "accounts (db v2) = map (rewritten c (clock v) (ac_id ` set ?rows)) (accounts (db v))"
    "\<forall>b \<in> set ?rows. \<exists>p m. aesDecrypt E (ac_encryptedPassword b) oldKey = Inr p \<and> aesEncrypt E m p newKey = Inr (c (ac_id b))"
    using changeBody_accounts [OF body] by blast
  have "1 \<le> u_autoLockMinutes u" using findUser_D [OF u] dbInv_lockMinutes [OF inv] by simp
  then have live: "keyLive sid v' = Some newKey" by (simp add: v' keyLive_def storeSet_def)
  have "a \<in> set (accounts (db v'))"
    if "a \<in> set (accounts (db v))" "\<forall>b \<in> set (accounts (db w)). ac_userId b = u_id u \<longrightarrow> ac_id b \<noteq> ac_id a" for a
  proof -
    have "rewritten c (clock v) (ac_id ` set ?rows) a = a" using that(2) by (auto simp: rewritten_def)
    then show ?thesis using that(1) by (force simp: v' c(1))
  qed
  moreover have "aesDecrypt E (ac_encryptedPassword a) newKey = Inr p"
    if b: "b \<in> set (accounts (db w))" "ac_userId b = u_id u" and a: "a \<in> set (accounts (db v'))" "ac_id a = ac_id b"
      and p: "wellFormed p" "aesDecrypt E (ac_encryptedPassword b) oldKey = Inr p" for a b p
  proof -
    have "ac_encryptedPassword a = c (ac_id b)" using a b by (auto simp: v' c(1) rewritten_def)
    moreover obtain m where "aesEncrypt E m p newKey = Inr (c (ac_id b))" using c(2) b p(2) by fastforce
    ultimately show ?thesis using aes.dec_enc p(1) len assms(2) by metis
  qed
  ultimately show ?thesis using live by blast
qed


section \<open>Deciding again\<close>

text \<open>A candidate of the user is found whatever its status.\<close>

lemma findOwned_any:
  assumes "dbInv d" and "c \<in> set (emailCandidates d)" and "ownedAccount userId (ca_emailAccountId c) d"
  shows "\<exists>rule account. findOwned userId (ca_id c) d = Some (c, rule, account)"
proof -
  have "find (\<lambda>x. ca_id x = ca_id c) (emailCandidates d) = Some c"
    using candidate_table.ok_find [OF dbInv_tables(7) [OF assms(1)] assms(2)] by simp
  moreover have "x = c" if "x \<in> set (emailCandidates d)" "ca_id x = ca_id c" for x
    using candidate_table.ok_same_key [OF dbInv_tables(7) [OF assms(1)] that(1) assms(2) that(2)] .
  then have "find (\<lambda>x. ca_id x = ca_id c \<and> ownedAccount userId (ca_emailAccountId x) d) (emailCandidates d) =
      find (\<lambda>x. ca_id x = ca_id c) (emailCandidates d)"
    using assms(3) by (intro find_cong) auto
  moreover have "ca_ruleId c \<in> ru_id ` set (emailRules d)" "ca_emailAccountId c \<in> em_id ` set (emailAccounts d)"
    using dbInv_refs [OF assms(1)] assms(2) by auto
  then have "ruleOf c d \<noteq> None" "accountOf c d \<noteq> None"
    by (auto simp: ruleOf_def accountOf_def find_None_iff)
  ultimately show ?thesis by (auto simp: findOwned_def)
qed

text \<open>
  C40: a decision is not final. After the approval of a candidate of a deleting rule has moved the mail to
  the trash, an exclusion of the same candidate, sent from a list that was loaded before, is accepted: the
  candidate then counts as excluded while the mail stays in the trash. No status is checked.
\<close>

theorem approved_then_excluded:
  assumes "worldInv w" and "findOwned userId i (db w) = Some (c, rule, account)"
    and "ru_actionType rule = js ''delete_candidate''" and "approve E userId i w = (Inr row, w1)"
  shows "\<exists>row2 w2 auth. exclude userId i w1 = (Inr row2, w2) \<and> ca_status row2 = EXCLUDED \<and>
    row2 \<in> set (emailCandidates (db w2)) \<and>
    mailboxChanges (gmailLog w2) = mailboxChanges (gmailLog w) @ [TrashMessage auth (ca_externalMessageId c)]"
proof -
  have inv: "dbInv (db w)" using assms(1) by (simp add: worldInv_def)
  note result = approve_result [OF inv assms(4), unfolded assms(2), simplified]
  obtain auth where log: "mailboxChanges (gmailLog w1) = mailboxChanges (gmailLog w) @ [TrashMessage auth (ca_externalMessageId c)]"
    and row: "row = c\<lparr>ca_status := APPROVED, ca_processedAt := Some (clock w)\<rparr>"
    and rows: "emailCandidates (db w1) = map (\<lambda>x. if ca_id x = i
       then x\<lparr>ca_status := APPROVED, ca_processedAt := Some (clock w)\<rparr> else x) (emailCandidates (db w))"
    using result assms(3) by auto
  note c = findOwned_D [OF assms(2)]
  have stored: "row \<in> set (emailCandidates (db w1))" "ca_id row = i"
    using c(1,2) by (force simp: rows row, simp add: row)
  have inv1: "dbInv (db w1)" using preservesD [OF worldInv_approve assms(1,4)] by (simp add: worldInv_def)
  obtain wa where act: "applyAction E (ca_emailAccountId c) (ca_externalMessageId c) DeleteMail w = (Inr (), wa)"
    and dec: "decide i APPROVED wa = (Inr row, w1)"
    using assms(2-4) by (auto simp: run_approve split: if_splits prod.splits sum.splits)
  have "map withoutToken (emailAccounts (db wa)) = map withoutToken (emailAccounts (db w))"
    using preservesD [OF gmail.apply_keeps onlyTokens_refl act] by (simp add: onlyTokens_def sameButTokens_def)
  moreover have "emailAccounts (db w1) = emailAccounts (db wa)"
    using dec by (auto simp: decide_def act_simps updateCandidate_def split: sum.splits)
  ultimately have "ownedAccount userId (ca_emailAccountId row) (db w1)"
    using c(3) ownedAccount_tokens [of "db w1" "db w"] by (simp add: row)
  then obtain rule' account' where found: "findOwned userId i (db w1) = Some (row, rule', account')"
    using findOwned_any [OF inv1 stored(1)] stored(2) by blast
  let ?row = "row\<lparr>ca_status := EXCLUDED, ca_processedAt := Some (clock w1)\<rparr>"
  let ?w2 = "w1\<lparr>db := (db w1)\<lparr>emailCandidates := map (\<lambda>x. if ca_id x = i
      then x\<lparr>ca_status := EXCLUDED, ca_processedAt := Some (clock w1)\<rparr> else x) (emailCandidates (db w1))\<rparr>\<rparr>"
  have "exclude userId i w1 = (Inr ?row, ?w2)"
    using run_decide [OF dbInv_tables(7) [OF inv1] stored, of EXCLUDED] by (simp add: exclude_def act_simps found)
  moreover have "?row \<in> set (emailCandidates (db ?w2))" 
    using imageI [OF stored(1), of "\<lambda>x. if ca_id x = i
      then x\<lparr>ca_status := EXCLUDED, ca_processedAt := Some (clock w1)\<rparr> else x"] stored(2) by simp
  moreover have "ca_status ?row = EXCLUDED" by simp
  moreover have "mailboxChanges (gmailLog ?w2) = mailboxChanges (gmailLog w) @ [TrashMessage auth (ca_externalMessageId c)]"
    using log by simp
  ultimately show ?thesis by (intro exI conjI)
qed

section \<open>Witnesses\<close>

lemma changeBody_succeeds:
  assumes "goodPlatform E" and "length newKey = 32" and "dbInv (db v)" and "findUser userId (db v) = Some u"
    and "ac_id ` set rows \<subseteq> ac_id ` set (accounts (db v))" and "distinct (map ac_id rows)"
    and "\<forall>a \<in> set rows. \<exists>p. aesDecrypt E (ac_encryptedPassword a) oldKey = Inr p"
  shows "\<exists>n v2. changeBody E oldKey newKey rows userId hash salt v = (Inr n, v2)"
proof -
  obtain c n where loop: "foldA (reencryptAccount E oldKey newKey) rows () v =
      (Inr (), v\<lparr>db := (db v)\<lparr>accounts := map (rewritten c (clock v) (ac_id ` set rows)) (accounts (db v))\<rparr>, draws := n\<rparr>)"
    using run_reencryptAll [OF assms(1,2) dbInv_tables(3) [OF assms(3)] dbInv_refs(2) [OF assms(3)] assms(5-7)] by blast
  let ?d = "(db v)\<lparr>accounts := map (rewritten c (clock v) (ac_id ` set rows)) (accounts (db v))\<rparr>"
  let ?f = "\<lambda>x. x\<lparr>u_masterPasswordHash := hash, u_masterKdfSalt := salt\<rparr>"
  have "find (\<lambda>x. u_id x = userId) (users ?d) = Some u" using assms(4) by (simp add: findUser_def)
  then have "updateUser userId ?f ?d = Inr (?f u, ?d\<lparr>users := map (\<lambda>x. if u_id x = userId then ?f x else x) (users ?d)\<rparr>)"
    by (intro updateUser_ok dbInv_rewritten assms(3)) simp_all
  then show ?thesis by (simp add: changeBody_def act_simps loop deleteDevicesOf_def)
qed

lemma rewrite_returns:
  assumes "changeBody E oldKey newKey rows (u_id u) hash salt v = (Inr n, v2)"
  shows "\<exists>v'. interleave [0, 0] ([noCounts (rewriteVaultT E sid u oldKey newKey rows hash salt)], v) = ([Return (Inr None)], v')"
  using assms
  by (simp add: tick_single noCounts_def rewriteVaultT_def bindT_await act_simps flip: changeBody_def)

text \<open>An entry that another request has stored in between.\<close>

definition lateEntry :: account_row where
  "lateEntry = (demoAccount (js ''a3'') (js ''u1''))\<lparr>ac_loginId := js ''other''\<rparr>"

definition lateWorld :: "world \<Rightarrow> world" where
  "lateWorld w = w\<lparr>db := demoDb\<lparr>accounts := accounts demoDb @ [lateEntry]\<rparr>\<rparr>"

lemma dbInv_late: "dbInv (db (lateWorld w))"
  by (simp add: lateWorld_def lateEntry_def demoDb_def demo_rows inv_defs okTable_def user_clash_def account_clash_def)

lemma change_gets_there:
  assumes "unlockedGuard sid w = (Inr (i, k), v)" and "findUser i (db v) = Some u"
    and "argon2Verify E (u_masterPasswordHash u) cur" and "\<not> tooShort (Some new)"
    and "deriveKey E cur (u_masterKdfSalt u) = Inr oldKey"
    and "deriveKey E new (base64Encode (randomBytes E (draws v) 16)) = Inr newKey"
  shows "interleave [0, 0, 0, 0, 0, 0] ([jobT E (changeJob sid (Some cur) (Some new))], w) =
    ([noCounts (rewriteVaultT E sid u oldKey newKey (filter (\<lambda>a. ac_userId a = i) (accounts (db v)))
        (argon2Hash E ARGON2ID_OPTIONS (Suc (draws v)) new) (base64Encode (randomBytes E (draws v) 16)))],
     v\<lparr>draws := Suc (Suc (draws v))\<rparr>)"
  using assms by (simp add: changeJob_def tick_single guardedT_def noCounts_def changeMasterPasswordT_def bindT_await act_simps)

lemma demo_change_reads:
  obtains key w1 hash salt where
    "interleave [0, 0, 0, 0, 0, 0] ([jobT demoEnv (changeJob (js ''s1'') (Some (js ''password'')) (Some (js ''newpassword'')))], demoWorld) =
      ([noCounts (rewriteVaultT demoEnv (js ''s1'') (demoUser (js ''u1'') (js ''g1'')) demoUserKey key
          [demoAccount (js ''a1'') (js ''u1'')] hash salt)], w1)"
    and "length key = 32" and "take 16 key \<noteq> take 16 demoUserKey"
proof -
  let ?salt = "base64Encode (randomBytes demoEnv 0 16)"
  let ?key = "demoKey (randomBytes demoEnv 0 16) 32 (js ''newpassword'')"
  have key: "deriveKey demoEnv (js ''newpassword'') ?salt = Inr ?key"
    by (simp add: deriveKey_def demoEnv_def AES_256_KEY_LENGTH_def)
  have "hd ?key = 110" "hd demoUserKey = 112" by (simp_all add: demoKey_def demoUserKey_def js_def byteOf_def)
  moreover have "hd (take 16 k) = hd k" for k :: "byte list" by (cases k) simp_all
  ultimately have "hd (take 16 ?key) \<noteq> hd (take 16 demoUserKey)" by simp
  then have other: "take 16 ?key \<noteq> take 16 demoUserKey" by (rule contrapos_nn) simp
  obtain v where v: "unlockedGuard (js ''s1'') demoWorld = (Inr (js ''u1'', demoUserKey), v)" "db v = demoDb" "draws v = 0"
    by (simp add: run_unlockedGuard keyLive_def demoWorld_def demoSession_def emptySession_def)
  have short: "\<not> tooShort (Some (js ''newpassword''))" using tooShort_iff [of "Some (js ''newpassword'')"] by simp
  have rows: "filter (\<lambda>a. ac_userId a = js ''u1'') (accounts demoDb) = [demoAccount (js ''a1'') (js ''u1'')]"
    by (simp add: demoDb_def demoAccount_def)
  have user: "findUser (js ''u1'') (db v) = Some (demoUser (js ''u1'') (js ''g1''))" using demo_user v(2) by (simp only:)
  note reads = change_gets_there [OF v(1) user demo_verify short demo_derive, unfolded v(2,3), OF key, unfolded rows]
  from that [OF reads length_demoKey other] show ?thesis .
qed

lemma late_closed:
  assumes "length key = 32" and "take 16 key \<noteq> take 16 demoUserKey"
  shows "aesDecrypt demoEnv (ac_encryptedPassword lateEntry) key = Inl CryptoError"
proof -
  have "length (randomBytes demoEnv 0 IV_LENGTH) = IV_LENGTH" using randomLaw_demoEnv by (rule randomLaw_bytes)
  moreover have "length (take 16 demoUserKey) = AUTH_TAG_LENGTH" by (simp add: length_demoUserKey AUTH_TAG_LENGTH_def)
  moreover have "gcmOpen demoEnv key iv (take 16 demoUserKey) m = None" for iv m
    using assms by (auto simp: demoEnv_def)
  ultimately show ?thesis by (simp add: lateEntry_def demoAccount_def demoSeal_def aesDecrypt_layout)
qed


lemma approved_then_excluded_witness:
  "\<exists>w row w1 row2 w2 auth. approve demoEnv (js ''u1'') (js ''k1'') w = (Inr row, w1) \<and>
     exclude (js ''u1'') (js ''k1'') w1 = (Inr row2, w2) \<and> ca_status row2 = EXCLUDED \<and>
     mailboxChanges (gmailLog w2) = [TrashMessage auth (js ''m0'')]"
proof -
  have c: "ca_emailAccountId demoCandidate = js ''e1''" "ca_externalMessageId demoCandidate = js ''m0''"
    "ru_actionType demoRule = js ''delete_candidate''" "em_providerType demoMailAccount = js ''gmail''"
    "ca_id demoCandidate = js ''k1''"
    by (simp_all add: demoCandidate_def demoRule_def demoMailAccount_def)
  let ?v = "demoWorld\<lparr>gmailLog := [TrashMessage demoCredentials (js ''m0'')]\<rparr>"
  have "approve demoEnv (js ''u1'') (js ''k1'') demoWorld = decide (js ''k1'') APPROVED ?v"
    by (simp add: run_approve demo_findOwned c demo_applyAction) (simp add: demoWorld_def)
  moreover have "okTable candidate_clash (emailCandidates (db ?v))" "demoCandidate \<in> set (emailCandidates (db ?v))"
    using dbInv_tables(7) [OF dbInv_demoWorld] by simp_all (simp add: demoWorld_def demoDb_def)
  ultimately obtain row w1 where run: "approve demoEnv (js ''u1'') (js ''k1'') demoWorld = (Inr row, w1)"
    using run_decide [of ?v demoCandidate "js ''k1''" APPROVED] c(5) by metis
  have "findOwned (js ''u1'') (js ''k1'') (db demoWorld) = Some (demoCandidate, demoRule, demoMailAccount)"
    by (simp add: demo_findOwned)
  from approved_then_excluded [OF worldInv_demoWorld this c(3) run] show ?thesis
    using run by (simp add: c(2) mailboxChanges_def demoWorld_def) blast
qed

end
