(* ===== verification/Wiring.thy ===== *)
theory Wiring
  imports Phases
begin

text \<open>
  The start of the server (\<open>main.ts\<close>) and what its session options mean to the browsers: each holds at
  most one cookie with a session id and a date of expiry. The session middleware itself is a library;
  \<open>answers\<close> states what its documentation says of the options that \<open>main.ts\<close> sets. Shown are that a server
  with browsers in front of it runs as the \<open>Server\<close> does, that browsers do not share sessions, and that a
  cookie lives longer than the key of its session, while a key may outlive its use.
\<close>

section \<open>The options\<close>

record session_options =
  so_secret :: jsstring
  so_name :: jsstring
  so_resave :: bool
  so_saveUninitialized :: bool
  so_rolling :: bool
  so_httpOnly :: bool
  so_sameSite :: jsstring
  so_secure :: bool
  so_maxAge :: int

definition buildSessionMiddleware :: "env \<Rightarrow> session_options" where
  "buildSessionMiddleware E =
     \<lparr>so_secret = orElse (envVar E (js ''SESSION_SECRET'')) (js ''dev-only-change-me''),
      so_name = js ''sid'',
      so_resave = False,
      so_saveUninitialized = False,
      so_rolling = True,
      so_httpOnly = True,
      so_sameSite = js ''lax'',
      so_secure = (envVar E (js ''NODE_ENV'') = Some (js ''production'')),
      so_maxAge = 1000 * 60 * 60 * 24 * 14\<rparr>"

record server_options =
  sv_globalPrefix :: jsstring
  sv_origin :: jsstring
  sv_credentials :: bool
  sv_session :: session_options
  sv_port :: "jsstring + nat"

definition bootstrap :: "env \<Rightarrow> server_options" where
  "bootstrap E =
     \<lparr>sv_globalPrefix = js ''api/v1'',
      sv_origin = orElse (envVar E (js ''FRONTEND_ORIGIN'')) (js ''http://localhost:3000''),
      sv_credentials = True,
      sv_session = buildSessionMiddleware E,
      sv_port = (case envVar E (js ''PORT'') of Some p \<Rightarrow> Inl p | None \<Rightarrow> Inr 3001)\<rparr>"

section \<open>Browsers with cookies\<close>

text \<open>
  \<open>kept\<close> are the sessions in the session store, \<open>issued\<close> the ids that were ever in use. The row of a
  session expires with its cookie, because both dates are set together.
\<close>

record cookie =
  ck_sid :: jsstring
  ck_expires :: int

record wired =
  backend :: world
  jar :: "nat \<Rightarrow> cookie option"
  kept :: "jsstring set"
  issued :: "jsstring set"

definition presented :: "nat \<Rightarrow> wired \<Rightarrow> jsstring option" where
  "presented c W =
     (case jar W c of
        None \<Rightarrow> None
      | Some k \<Rightarrow> if clock (backend W) \<le> ck_expires k \<and> ck_sid k \<in> kept W then Some (ck_sid k) else None)"

text \<open>
  After the handler a session is stored when it holds data, or in any case with \<open>saveUninitialized\<close>. The
  cookie is set for a session that is stored: on the first response, with \<open>rolling\<close> on every one. Logging
  out destroys the session and clears the cookie named \<open>sid\<close>.
\<close>

definition answers :: "session_options \<Rightarrow> nat \<Rightarrow> jsstring \<Rightarrow> request \<Rightarrow> wired \<Rightarrow> world \<Rightarrow> wired" where
  "answers opts c sid req W w' =
     (if req = PostLogout
      then \<lparr>backend = w', jar = (if so_name opts = js ''sid'' then (jar W)(c := None) else jar W),
            kept = kept W - {sid}, issued = insert sid (issued W)\<rparr>
      else
        let kept' = (if so_saveUninitialized opts \<or> sessions w' sid \<noteq> emptySession then insert sid (kept W) else kept W);
            sets = sid \<in> kept' \<and> (sid \<notin> kept W \<or> so_rolling opts)
        in \<lparr>backend = w',
            jar = (if sets then (jar W)(c := Some \<lparr>ck_sid = sid, ck_expires = clock w' + so_maxAge opts\<rparr>) else jar W),
            kept = kept', issued = insert sid (issued W)\<rparr>)"

definition wiredStart :: wired where
  "wiredStart = \<lparr>backend = initWorld, jar = (\<lambda>_. None), kept = {}, issued = {}\<rparr>"

text \<open>A request without a session in the store is served under an id \<open>fresh\<close> that was never in use.\<close>

definition servedAs :: "nat \<Rightarrow> jsstring \<Rightarrow> wired \<Rightarrow> jsstring" where
  "servedAs c fresh W = (case presented c W of Some sid \<Rightarrow> sid | None \<Rightarrow> fresh)"

definition browse :: "env \<Rightarrow> nat \<Rightarrow> jsstring \<Rightarrow> request \<Rightarrow> wired \<Rightarrow> wired" where
  "browse E c fresh req W =
     answers (sv_session (bootstrap E)) c (servedAs c fresh W) req W (handle E (servedAs c fresh W) req (backend W))"

inductive wiredStep :: "env \<Rightarrow> wired \<Rightarrow> event \<Rightarrow> wired \<Rightarrow> bool" for E where
  browsing: "fresh \<notin> issued W \<Longrightarrow> wiredStep E W (Request (servedAs c fresh W) req) (browse E c fresh req W)"
| by_itself: "\<forall>sid req. ev \<noteq> Request sid req \<Longrightarrow> step E (backend W) ev w' \<Longrightarrow> wiredStep E W ev (W\<lparr>backend := w'\<rparr>)"

inductive wiredSteps :: "env \<Rightarrow> wired \<Rightarrow> event list \<Rightarrow> wired \<Rightarrow> bool" for E where
  wired_refl: "wiredSteps E W [] W"
| wired_next: "wiredSteps E W evs V \<Longrightarrow> wiredStep E V ev W' \<Longrightarrow> wiredSteps E W (evs @ [ev]) W'"

lemma answers_server [simp]: "backend (answers opts c sid req W w') = w'"
  by (simp add: answers_def Let_def)

lemma answers_issued [simp]: "issued (answers opts c sid req W w') = insert sid (issued W)"
  by (simp add: answers_def Let_def)

lemma options_simps [simp]:
  "so_name (sv_session (bootstrap E)) = js ''sid''" "\<not> so_saveUninitialized (sv_session (bootstrap E))"
  "so_rolling (sv_session (bootstrap E))" "so_maxAge (sv_session (bootstrap E)) = 1209600000"
  by (simp_all add: bootstrap_def buildSessionMiddleware_def)

text \<open>The server behind the browsers runs as \<open>Server\<close> says.\<close>

lemma wiredStep_step: "wiredStep E W ev W' \<Longrightarrow> step E (backend W) ev (backend W')"
  by (induction rule: wiredStep.induct) (simp_all add: browse_def)

lemma wiredSteps_steps: "wiredSteps E W evs W' \<Longrightarrow> steps E (backend W) evs (backend W')"
  by (induction rule: wiredSteps.induct) (auto intro: steps_refl steps_snoc wiredStep_step)

section \<open>The invariant of the browsers\<close>

text \<open>
  An id that is not in use has no session and no key; the sessions in the store and in the cookies are
  in use; two browsers hold different ids; a session with a key is in the store; and the last use of a
  key was not after the response that set the cookie.
\<close>

definition unusedEmpty :: "wired \<Rightarrow> bool" where
  "unusedEmpty W \<longleftrightarrow> (\<forall>sid. sid \<notin> issued W \<longrightarrow> sessions (backend W) sid = emptySession \<and> keyStore (backend W) sid = None)"

definition cookiesApart :: "wired \<Rightarrow> bool" where
  "cookiesApart W \<longleftrightarrow> (\<forall>c k. jar W c = Some k \<longrightarrow> ck_sid k \<in> issued W) \<and>
     (\<forall>c c' k k'. jar W c = Some k \<longrightarrow> jar W c' = Some k' \<longrightarrow> ck_sid k = ck_sid k' \<longrightarrow> c = c')"

definition storedKept :: "wired \<Rightarrow> bool" where
  "storedKept W \<longleftrightarrow> kept W \<subseteq> issued W \<and> (\<forall>sid. sessions (backend W) sid \<noteq> emptySession \<longrightarrow> sid \<in> kept W)"

definition keysBeforeCookies :: "wired \<Rightarrow> bool" where
  "keysBeforeCookies W \<longleftrightarrow> (\<forall>c k e. jar W c = Some k \<longrightarrow> keyStore (backend W) (ck_sid k) = Some e \<longrightarrow>
     ue_lastActivityAt e + 1209600000 \<le> ck_expires k)"

definition wiredInv :: "wired \<Rightarrow> bool" where
  "wiredInv W \<longleftrightarrow> worldInv (backend W) \<and> unusedEmpty W \<and> cookiesApart W \<and> storedKept W \<and> keysBeforeCookies W"

lemma logout_empty: "sessions (handle E sid PostLogout w) sid = emptySession" "keyStore (handle E sid PostLogout w) sid = None"
  by (simp_all add: stateAfter_def logoutRoute_def logout_def act_simps storeDelete_def)

lemma key_in_use:
  assumes "worldInv w" and "keyStore w sid = Some e"
  shows "sessions w sid \<noteq> emptySession" and "ue_lastActivityAt e \<le> clock w" and "ue_autoLockMinutes e \<le> 240"
proof -
  have e: "s_userId (sessions w sid) \<noteq> None \<and> 1 \<le> ue_autoLockMinutes e \<and> ue_autoLockMinutes e \<le> 240 \<and>
      ue_lastActivityAt e \<le> clock w"
    using assms unfolding worldInv_def keyStoreOk_def by blast
  then show "ue_lastActivityAt e \<le> clock w" and "ue_autoLockMinutes e \<le> 240" by simp_all
  show "sessions w sid \<noteq> emptySession"
  proof
    assume "sessions w sid = emptySession"
    then show False using e by (simp add: emptySession_def)
  qed
qed

text \<open>A browser that is served under \<open>sid\<close> is the only one with that id, if any has it.\<close>

lemma wiredInv_answers:
  assumes inv: "wiredInv W" and own: "\<And>c' k. jar W c' = Some k \<Longrightarrow> ck_sid k = sid \<Longrightarrow> c' = c"
  shows "wiredInv (answers (sv_session (bootstrap E)) c sid req W (handle E sid req (backend W)))"
proof -
  let ?w = "handle E sid req (backend W)"
  let ?W = "answers (sv_session (bootstrap E)) c sid req W ?w"
  have w: "worldInv ?w" using inv worldInv_handle unfolding wiredInv_def by blast
  have other: "sessions ?w s = sessions (backend W) s" "keyStore ?w s = keyStore (backend W) s" if "s \<noteq> sid" for s
    using bystander_handle [OF that] by blast+
  have "unusedEmpty ?W" using inv other by (auto simp: wiredInv_def unusedEmpty_def simp del: handle.simps)
  moreover have "cookiesApart ?W" using inv own
    by (auto simp: wiredInv_def cookiesApart_def answers_def Let_def simp del: handle.simps split: if_splits)
  moreover have "s \<in> kept ?W" if "sessions ?w s \<noteq> emptySession" for s
  proof (cases "s = sid")
    case True
    then have "req \<noteq> PostLogout" using that logout_empty(1) by metis
    then show ?thesis using that True by (simp add: answers_def Let_def del: handle.simps)
  next
    case False
    then have "s \<in> kept W" using that inv other(1) [OF False] by (simp add: wiredInv_def storedKept_def)
    then show ?thesis using False by (simp add: answers_def Let_def del: handle.simps)
  qed
  then have "kept ?W \<subseteq> issued ?W \<Longrightarrow> storedKept ?W" unfolding storedKept_def by (simp del: handle.simps)
  moreover have "kept ?W \<subseteq> issued ?W" using inv by (auto simp: wiredInv_def storedKept_def answers_def Let_def)
  moreover have "keysBeforeCookies ?W"
    unfolding keysBeforeCookies_def
  proof (intro allI impI)
    fix c' k e assume k: "jar ?W c' = Some k" and "keyStore (backend ?W) (ck_sid k) = Some e"
    then have e: "keyStore ?w (ck_sid k) = Some e" by (simp del: handle.simps)
    note used = key_in_use [OF w e]
    show "ue_lastActivityAt e + 1209600000 \<le> ck_expires k"
    proof (cases "ck_sid k = sid")
      case True
      then have "req \<noteq> PostLogout" using e logout_empty(2) by (metis option.distinct(1))
      moreover have "jar W c' = Some k \<Longrightarrow> c' = c" using own True by blast
      ultimately have "k = \<lparr>ck_sid = sid, ck_expires = clock ?w + 1209600000\<rparr>"
        using k used(1) True by (auto simp: answers_def Let_def simp del: handle.simps split: if_splits)
      then have "ck_expires k = clock ?w + 1209600000" by (simp del: handle.simps)
      then show ?thesis using used(2) by simp
    next
      case False
      then have "jar W c' = Some k" using k by (auto simp: answers_def Let_def simp del: handle.simps split: if_splits)
      then show ?thesis using inv e other(2) [OF False] by (simp add: wiredInv_def keysBeforeCookies_def)
    qed
  qed
  ultimately show ?thesis using w by (simp add: wiredInv_def del: handle.simps)
qed

lemma scheduled_keeps:
  "sessions (stateAfter (handleScheduledScan E) w) sid = sessions w sid"
  "keyStore (stateAfter (handleScheduledScan E) w) sid = keyStore w sid"
  "clock (stateAfter (handleScheduledScan E) w) = clock w"
proof -
  let ?I = "bystander sid (0 # sid) (sessions w sid) (keyStore w sid)"
  have "?I (stateAfter (handleScheduledScan E) w)"
    by (rule preserves_stateAfter [OF bystander.candidate_routes(6)]) (simp add: bystander_def)
  then show "sessions (stateAfter (handleScheduledScan E) w) sid = sessions w sid"
    "keyStore (stateAfter (handleScheduledScan E) w) sid = keyStore w sid" by (simp_all add: bystander_def)
  have "clockAt (clock w) (stateAfter (handleScheduledScan E) w)"
    by (rule preserves_stateAfter [OF ticking.candidate_routes(6)]) (simp add: clockAt_def)
  then show "clock (stateAfter (handleScheduledScan E) w) = clock w" by (simp add: clockAt_def)
qed

lemma wiredInv_step:
  assumes "wiredStep E W ev W'" and "wiredInv W"
  shows "wiredInv W'"
  using assms
proof (induction rule: wiredStep.induct)
  case (browsing fresh W c req)
  show ?case unfolding browse_def using browsing.prems
  proof (rule wiredInv_answers)
    fix c' k assume k: "jar W c' = Some k" "ck_sid k = servedAs c fresh W"
    then have "ck_sid k \<noteq> fresh" using browsing by (auto simp: wiredInv_def cookiesApart_def)
    then have "\<exists>k'. jar W c = Some k' \<and> ck_sid k' = ck_sid k"
      using k(2) by (auto simp: servedAs_def presented_def split: option.splits if_splits)
    then show "c' = c" using browsing.prems k(1) unfolding wiredInv_def cookiesApart_def by metis
  qed
next
  case (by_itself ev W w')
  have w: "worldInv w'" using by_itself.hyps(2) by_itself.prems worldInv_step unfolding wiredInv_def by blast
  have "sessions w' = sessions (backend W) \<and> (keyStore w' = keyStore (backend W) \<or> keyStore w' = Map.empty)"
    using by_itself.hyps scheduled_keeps by (cases ev) (auto intro!: ext)
  then show ?case using by_itself.prems w
    by (auto simp: wiredInv_def unusedEmpty_def cookiesApart_def storedKept_def keysBeforeCookies_def)
qed

lemma wiredInv_start: "wiredInv wiredStart"
proof -
  have "backend wiredStart = initWorld" "jar wiredStart = (\<lambda>_. None)" "kept wiredStart = {}" by (simp_all add: wiredStart_def)
  then show ?thesis using worldInv_init
    by (simp add: wiredInv_def unusedEmpty_def cookiesApart_def storedKept_def keysBeforeCookies_def) (simp add: initWorld_def)
qed

lemma wiredInv_steps: "wiredSteps E W evs W' \<Longrightarrow> wiredInv W \<Longrightarrow> wiredInv W'"
  by (induction rule: wiredSteps.induct) (auto intro: wiredInv_step)

section \<open>Properties\<close>

lemma presented_Some: "presented c W = Some sid \<longleftrightarrow>
    (\<exists>k. jar W c = Some k \<and> ck_sid k = sid \<and> clock (backend W) \<le> ck_expires k \<and> sid \<in> kept W)"
  by (auto simp: presented_def split: option.split)

lemma served_other:
  assumes "wiredInv W" and "fresh \<notin> issued W" and "c \<noteq> c'" and "jar W c' = Some k"
  shows "servedAs c fresh W \<noteq> ck_sid k"
proof
  assume eq: "servedAs c fresh W = ck_sid k"
  have "ck_sid k \<noteq> fresh" using assms by (auto simp: wiredInv_def cookiesApart_def)
  then obtain k' where "jar W c = Some k'" "ck_sid k' = ck_sid k"
    using eq by (auto simp: servedAs_def presented_Some split: option.splits)
  then show False using assms unfolding wiredInv_def cookiesApart_def by metis
qed

text \<open>
  C18: browsers do not share sessions. However they take turns from the start of the server on, a request
  of one leaves the session another would present, its login and its key as they are; and a browser without
  a valid cookie, be it new, logged out or late, is served as nobody.
\<close>

theorem browsers_apart:
  assumes "wiredSteps E wiredStart evs W" and "fresh \<notin> issued W" and "c \<noteq> c'"
  shows "presented c' (browse E c fresh req W) = presented c' W \<and>
    (\<forall>sid. presented c' W = Some sid \<longrightarrow>
       sessions (backend (browse E c fresh req W)) sid = sessions (backend W) sid \<and>
       keyStore (backend (browse E c fresh req W)) sid = keyStore (backend W) sid) \<and>
    (presented c W = None \<longrightarrow> phaseOf (servedAs c fresh W) (backend W) = Anonymous)"
proof (intro conjI allI impI)
  have inv: "wiredInv W" by (rule wiredInv_steps [OF assms(1) wiredInv_start])
  let ?s = "servedAs c fresh W"
  let ?W = "browse E c fresh req W"
  have jar: "jar ?W c' = jar W c'" using assms(3) by (simp add: browse_def answers_def Let_def)
  have kept: "sid \<in> kept ?W \<longleftrightarrow> sid \<in> kept W" if "sid \<noteq> ?s" for sid
    using that by (simp add: browse_def answers_def Let_def)
  have clock: "clock (backend ?W) = clock (backend W)" by (simp only: browse_def answers_server clock_handle)
  have other: "sid \<noteq> ?s" if "jar W c' = Some k" "ck_sid k = sid" for k sid
    using served_other [OF inv assms(2,3) that(1)] that(2) by simp
  show "presented c' ?W = presented c' W"
    unfolding presented_def jar clock using kept [OF other] by (simp split: option.split)
  fix sid assume "presented c' W = Some sid"
  then have "sid \<noteq> ?s" using other by (auto simp: presented_Some)
  from bystander_handle [OF this, of E req "backend W"]
  show "sessions (backend ?W) sid = sessions (backend W) sid" "keyStore (backend ?W) sid = keyStore (backend W) sid"
    by (simp_all only: browse_def answers_server)
next
  assume "presented c W = None"
  then have "sessions (backend W) (servedAs c fresh W) = emptySession"
    using wiredInv_steps [OF assms(1) wiredInv_start] assms(2) by (simp add: servedAs_def wiredInv_def unusedEmpty_def)
  then show "phaseOf (servedAs c fresh W) (backend W) = Anonymous"
    by (simp add: phaseOf_def loginOf_def emptySession_def)
qed


text \<open>
  C20: the key of a session nobody comes back to stays in memory. Once no browser presents the session any
  more, because its cookie has expired or is gone, nothing the browsers, the clock and the scheduled scans
  do removes the key, however long ago its lock time has passed: entries are only dropped when their own
  session asks. Only the end of the process takes them away.
\<close>

theorem abandoned_key_stays:
  assumes "wiredInv W" and "keyStore (backend W) sid = Some e" and "\<forall>c. presented c W \<noteq> Some sid"
    and "wiredSteps E W evs W'" and "Restart \<notin> set evs"
  shows "keyStore (backend W') sid = Some e"
proof -
  have "keyStore (backend W') sid = Some e \<and> sid \<in> issued W' \<and> (\<forall>c. presented c W' \<noteq> Some sid)"
    using assms(4,1-3,5)
  proof (induction rule: wiredSteps.induct)
    case (wired_refl W)
    then show ?case by (auto simp: wiredInv_def unusedEmpty_def)
  next
    case (wired_next W evs V ev W')
    then have V: "keyStore (backend V) sid = Some e" "sid \<in> issued V" "\<And>c. presented c V \<noteq> Some sid" by simp_all
    from wired_next.hyps(2) show ?case
    proof cases
      case (browsing fresh c req)
      have other: "servedAs c fresh V \<noteq> sid"
        using browsing(3) V(2,3) by (auto simp: servedAs_def split: option.split)
      have "keyStore (backend W') sid = Some e"
        using bystander_handle(2) [OF other [symmetric], of E req "backend V"] V(1)
        by (simp only: browsing(2) browse_def answers_server)
      moreover have "presented d W' \<noteq> Some sid" for d
      proof
        assume "presented d W' = Some sid"
        then obtain k where k: "jar W' d = Some k" "ck_sid k = sid" "clock (backend W') \<le> ck_expires k" "sid \<in> kept W'"
          by (auto simp: presented_Some)
        have "clock (backend W') = clock (backend V)" by (simp only: browsing(2) browse_def answers_server clock_handle)
        moreover have "jar V d = Some k" "sid \<in> kept V"
          using k(1,2,4) other by (auto simp: browsing(2) browse_def answers_def Let_def split: if_splits)
        ultimately show False using V(3) [of d] k(2,3) by (auto simp: presented_Some)
      qed
      ultimately show ?thesis using V(2) by (simp add: browsing(2) browse_def)
    next
      case (by_itself w')
      have "keyStore w' sid = Some e \<and> clock (backend V) \<le> clock w'"
        using by_itself V(1) wired_next.prems(4) scheduled_keeps by (cases ev) auto
      then show ?thesis using V(2,3) by (auto simp: by_itself(1) presented_Some)
    qed
  qed
  then show ?thesis by simp
qed

section \<open>Witnesses\<close>

lemma browsers_apart_witness:
  "presented 0 (browse demoEnv 1 (js ''s2'') GetGoogleStart (browse demoEnv 0 (js ''s1'') GetGoogleStart wiredStart)) =
     Some (js ''s1'')"
proof -
  let ?W = "browse demoEnv 0 (js ''s1'') GetGoogleStart wiredStart"
  let ?w = "handle demoEnv (js ''s1'') GetGoogleStart initWorld"
  have sid: "servedAs 0 (js ''s1'') wiredStart = js ''s1''" by (simp add: servedAs_def presented_def wiredStart_def)
  have W: "?W = answers (sv_session (bootstrap demoEnv)) 0 (js ''s1'') GetGoogleStart wiredStart ?w"
    unfolding browse_def sid by (simp add: wiredStart_def)
  have "wiredStep demoEnv wiredStart (Request (servedAs 0 (js ''s1'') wiredStart) GetGoogleStart) ?W"
    by (rule browsing) (simp add: wiredStart_def)
  from wired_next [OF wired_refl this] have run: "wiredSteps demoEnv wiredStart [Request (js ''s1'') GetGoogleStart] ?W"
    by (simp add: sid)
  have "sessions ?w (js ''s1'') \<noteq> emptySession"
    by (simp add: stateAfter_def run_googleStart Let_def initWorld_def emptySession_def)
  then have "presented 0 ?W = Some (js ''s1'')"
    unfolding W by (simp add: presented_def answers_def Let_def wiredStart_def del: handle.simps)
  moreover have "js ''s2'' \<notin> issued ?W" unfolding W by (simp add: wiredStart_def)
  ultimately show ?thesis using browsers_apart [OF run, of "js ''s2''" 1 0 GetGoogleStart] by simp
qed

text \<open>The demo session with its cookie, \<open>ms\<close> milliseconds later.\<close>

definition wiredDemo :: "nat \<Rightarrow> wired" where
  "wiredDemo ms =
     \<lparr>backend = demoWorld\<lparr>clock := clock demoWorld + int ms\<rparr>,
      jar = (\<lambda>c. if c = 0 then Some \<lparr>ck_sid = js ''s1'', ck_expires = 60000 + 1209600000\<rparr> else None),
      kept = {js ''s1''}, issued = {js ''s1''}\<rparr>"

lemma wiredInv_demo: "wiredInv (wiredDemo ms)"
proof -
  have "worldInv (backend (wiredDemo ms))"
    unfolding wiredDemo_def wired.simps by (rule worldInv_step [OF step_time worldInv_demoWorld])
  then show ?thesis
    by (auto simp: wiredInv_def unusedEmpty_def cookiesApart_def storedKept_def keysBeforeCookies_def wiredDemo_def
        demoWorld_def split: if_splits)
qed


lemma abandoned_key_stays_witness:
  "\<exists>W' e. wiredSteps demoEnv (wiredDemo 2000000000) [TimePasses 1000] W' \<and>
     keyStore (backend W') (js ''s1'') = Some e \<and> keyLive (js ''s1'') (backend W') = None"
proof -
  let ?W = "wiredDemo 2000000000"
  let ?w = "(backend ?W)\<lparr>clock := clock (backend ?W) + int 1000\<rparr>"
  let ?e = "\<lparr>ue_key = demoUserKey, ue_autoLockMinutes = 15, ue_lastActivityAt = 0\<rparr>"
  have "wiredStep demoEnv ?W (TimePasses 1000) (?W\<lparr>backend := ?w\<rparr>)"
    by (rule by_itself) (simp_all only: event.distinct step_simps, simp_all)
  from wired_next [OF wired_refl this] have run: "wiredSteps demoEnv ?W [TimePasses 1000] (?W\<lparr>backend := ?w\<rparr>)" by simp
  have key: "keyStore (backend ?W) (js ''s1'') = Some ?e" by (simp add: wiredDemo_def demoWorld_def)
  have "\<forall>c. presented c ?W \<noteq> Some (js ''s1'')" by (simp add: presented_def wiredDemo_def demoWorld_def)
  from abandoned_key_stays [OF wiredInv_demo key this run]
  have "keyStore (backend (?W\<lparr>backend := ?w\<rparr>)) (js ''s1'') = Some ?e" by simp
  moreover have "keyLive (js ''s1'') (backend (?W\<lparr>backend := ?w\<rparr>)) = None"
    by (simp add: keyLive_def wiredDemo_def demoWorld_def)
  ultimately show ?thesis using run by blast
qed

end
