(* ===== verification/Home.thy ===== *)
theory Home
  imports Screens PagesProperties MailProperties
begin

text \<open>
  The first page after the login and what surrounds every page: the dashboard \<open>app/(app)/page.tsx\<close>, the
  navigation of \<open>app/(app)/layout.tsx\<close>, the sections for the devices and the lock time on the settings
  page, and the field for a password. The numbers on the dashboard are what the server holds for the user.
\<close>

section \<open>Dashboard\<close>

datatype card_label = RegisteredEntries | WaitingMails | ImportantMails

record summary_card =
  sc_href :: "string list"
  sc_label :: card_label
  sc_value :: "nat option" \<comment> \<open>\<open>None\<close>: dots\<close>

definition dashboardScreen :: "dashboard_view \<Rightarrow> exn option \<times> summary_card list" where
  "dashboardScreen v =
     (hv_error v,
      [\<lparr>sc_href = [''accounts''], sc_label = RegisteredEntries, sc_value = hv_accountCount v\<rparr>,
       \<lparr>sc_href = [''mail'', ''review''], sc_label = WaitingMails, sc_value = hv_pendingCount v\<rparr>,
       \<lparr>sc_href = [''mail'', ''important''], sc_label = ImportantMails, sc_value = importantTotal v\<rparr>])"

section \<open>Navigation\<close>

datatype nav_button = LockButton | LogoutButton

text \<open>The links with the mark of the current page, which must be the very path of the link.\<close>

definition navScreen :: "string list \<Rightarrow> (string list \<times> bool) list \<times> nav_button list" where
  "navScreen pathname = (map (\<lambda>href. (href, pathname = href)) NAV_ITEMS, [LockButton, LogoutButton])"

section \<open>Devices and lock time\<close>

record device_item =
  di_id :: jsstring
  di_label :: jsstring
  di_createdAt :: int
  di_lastUsedAt :: "int option"

record device_screen =
  ds_unsupported :: bool
  ds_items :: "device_item list"
  ds_empty :: bool
  ds_form :: bool
  ds_info :: "bool option"
  ds_error :: "exn option"

definition deviceScreen :: "bool \<Rightarrow> settings_view \<Rightarrow> device_screen" where
  "deviceScreen supported v =
     \<lparr>ds_unsupported = (\<not> supported),
      ds_items = map (\<lambda>(i, label, _, created, used).
        \<lparr>di_id = i, di_label = label, di_createdAt = created, di_lastUsedAt = used\<rparr>) (orElse (sv_devices v) []),
      ds_empty = (sv_devices v = Some []), ds_form = supported,
      ds_info = sv_prfSupported v, ds_error = sv_error v\<rparr>"

text \<open>The field for the lock time is empty and cannot be used before the time is loaded.\<close>

record lock_screen =
  ks_value :: "jsnum option"
  ks_fieldEnabled :: bool
  ks_buttonEnabled :: bool

definition lockScreen :: "bool \<Rightarrow> lock_view \<Rightarrow> lock_screen" where
  "lockScreen saving v =
     \<lparr>ks_value = lv_autoLockMinutes v, ks_fieldEnabled = (lv_autoLockMinutes v \<noteq> None),
      ks_buttonEnabled = (\<not> (saving \<or> lv_autoLockMinutes v = None))\<rparr>"

section \<open>The field for a password\<close>

datatype field_event = Typed jsstring | ShowToggled | GenerateClicked

fun fieldEvent :: "env \<Rightarrow> jsstring \<Rightarrow> field_event \<Rightarrow> password_field \<Rightarrow> password_field on_page" where
  "fieldEvent E sid (Typed s) field = ret (field\<lparr>pf_value := s\<rparr>)"
| "fieldEvent E sid ShowToggled field = ret (field\<lparr>pf_show := \<not> pf_show field\<rparr>)"
| "fieldEvent E sid GenerateClicked field = handleGenerate E sid field"

definition fieldScreen :: "password_field \<Rightarrow> entry_text \<times> exn option" where
  "fieldScreen field = (if pf_show field then Plain (pf_value field) else Dots, pf_error field)"

section \<open>What the dashboard counts\<close>

lemma guard_keeps_passing:
  assumes "worldInv w" and "fst (unlockedGuard sid w) = Inr x"
  obtains w' where "unlockedGuard sid w = (Inr x, w')" and "worldInv w'" and "fst (unlockedGuard sid w') = Inr x"
    and "db w' = db w"
proof -
  let ?w = "w\<lparr>keyStore := snd (storeTouch sid (clock w) (keyStore w))\<rparr>"
  have run: "unlockedGuard sid w = (Inr x, ?w)" using assms(2) by (rule guard_runs)
  have "worldInv ?w" using worldInv_unlockedGuard assms(1) run by (rule preservesD)
  moreover have "fst (unlockedGuard sid ?w) = Inr x"
    using guard_again [OF assms, of "draws w" "db w"] by simp
  ultimately show ?thesis using that [OF run] by simp
qed

lemma count_by_key:
  assumes "distinct (map g as)"
  shows "(\<Sum>a\<leftarrow>as. length (filter (\<lambda>c. f c = g a \<and> P c) cs)) = length (filter (\<lambda>c. P c \<and> (\<exists>a \<in> set as. f c = g a)) cs)"
  using assms
proof (induction "as")
  case Nil
  show ?case by simp
next
  case (Cons a as)
  have "length (filter (\<lambda>c. P c \<and> (\<exists>x \<in> set (a # as). f c = g x)) cs) =
      length (filter (\<lambda>c. f c = g a \<and> P c) cs) + length (filter (\<lambda>c. P c \<and> (\<exists>x \<in> set as. f c = g x)) cs)"
  proof (induction cs)
    case Nil
    show ?case by simp
  next
    case (Cons c cs)
    have "\<not> (f c = g a \<and> (\<exists>x \<in> set as. f c = g x))" using \<open>distinct (map g (a # as))\<close> by auto
    with Cons show ?case by auto
  qed
  with Cons show ?case by simp
qed

lemma foldl_count: "foldl (\<lambda>sum item. sum + h item) n xs = n + (\<Sum>x\<leftarrow>xs. h x :: nat)"
  by (induction xs arbitrary: n) simp_all

text \<open>
  C21: the dashboard tells the truth. Loaded in an unlocked session it shows, without an error, the number
  of the entries of the user, the number of the mails that wait for his decision, and the number of his
  mails approved as important; the links of its cards lead to pages that exist.
\<close>

theorem dashboard_counts:
  assumes "worldInv (server p)" and "fst (unlockedGuard sid (server p)) = Inr (userId, key)"
    and "loadDashboard E sid v p = (r, p')" and "hv_error v = None"
  shows "db (server p') = db (server p) \<and>
    (\<exists>v'. r = Inr v' \<and> fst (dashboardScreen v') = None \<and> list_all (\<lambda>card. screenAt (sc_href card) \<noteq> None) (snd (dashboardScreen v')) \<and>
       map sc_value (snd (dashboardScreen v')) =
         [Some (length (filter (\<lambda>a. ac_userId a = userId) (accounts (db (server p))))),
          Some (length (filter (\<lambda>c. ca_status c = PENDING \<and> ownedAccount userId (ca_emailAccountId c) (db (server p)))
            (emailCandidates (db (server p))))),
          Some (length (filter (\<lambda>c. (ca_status c = APPROVED \<and> actionTypeOf (db (server p)) c = js ''important'') \<and>
              ownedAccount userId (ca_emailAccountId c) (db (server p))) (emailCandidates (db (server p)))))])"
proof -
  obtain w1 where w1: "unlockedGuard sid (server p) = (Inr (userId, key), w1)" "worldInv w1"
    "fst (unlockedGuard sid w1) = Inr (userId, key)" "db w1 = db (server p)"
    using guard_keeps_passing [OF assms(1,2)] by blast
  obtain w2 where w2: "unlockedGuard sid w1 = (Inr (userId, key), w2)" "worldInv w2"
    "fst (unlockedGuard sid w2) = Inr (userId, key)" "db w2 = db w1"
    using guard_keeps_passing [OF w1(2,3)] by blast
  obtain w3 where w3: "unlockedGuard sid w2 = (Inr (userId, key), w3)" "db w3 = db w2"
    using guard_keeps_passing [OF w2(2,3)] by blast
  let ?d = "db (server p)"
  let ?as = "filter (\<lambda>a. em_userId a = userId) (emailAccounts ?d)"
  let ?P = "\<lambda>c. ca_status c = APPROVED \<and> actionTypeOf ?d c = js ''important''"
  obtain rows where rows: "accountsFindAll E userId None None w1 = (Inr rows, w1)"
    "length rows = length (filter (\<lambda>a. ac_userId a = userId) (accounts ?d))"
    by (simp add: accountsFindAll_def act_simps accountWhere_def [abs_def] newestFirst_def w1(4))
  obtain pending where pending: "findPending userId w2 = (Inr pending, w2)"
    "length pending = length (filter (\<lambda>c. ca_status c = PENDING \<and> ownedAccount userId (ca_emailAccountId c) ?d) (emailCandidates ?d))"
    by (simp add: findPending_def act_simps newestFirst_def w2(4) w1(4))
  have "distinct (map em_id ?as)"
    using assms(1) email_account_table.ok_distinct [OF dbInv_tables(4)]
    by (intro distinct_map_filter) (auto simp: worldInv_def)
  then have sum: "(\<Sum>a\<leftarrow>?as. length (filter (\<lambda>c. ca_emailAccountId c = em_id a \<and> ?P c) (emailCandidates ?d))) =
      length (filter (\<lambda>c. ?P c \<and> ownedAccount userId (ca_emailAccountId c) ?d) (emailCandidates ?d))"
    by (simp only: count_by_key) (rule arg_cong [where f = length], rule filter_cong, auto simp: ownedAccount_def)
  obtain s where s: "importantSummary userId w3 = (Inr s, w3)"
    "(\<Sum>x\<leftarrow>s. sm_importantCount x) = length (filter (\<lambda>c. ?P c \<and> ownedAccount userId (ca_emailAccountId c) ?d) (emailCandidates ?d))"
    using sum by (simp add: importantSummary_exact comp_def w3(2) w2(4) w1(4))
  let ?v = "v\<lparr>hv_accountCount := Some (length rows), hv_pendingCount := Some (length pending), hv_importantSummary := Some s\<rparr>"
  have "loadDashboard E sid v p = (Inr ?v, p\<lparr>server := w3\<rparr>)"
    by (simp add: loadDashboard_def loadCard_def run_bindA run_catchA run_apiFetch run_ret accountsFindAllRoute_def
        findPendingRoute_def importantSummaryRoute_def w1(1) w2(1) w3(1) rows(1) pending(1) s(1))
  then have "r = Inr ?v" "p' = p\<lparr>server := w3\<rparr>" using assms(3) by simp_all
  moreover have "importantTotal ?v = Some (\<Sum>x\<leftarrow>s. sm_importantCount x)" by (simp add: importantTotal_def foldl_count)
  ultimately show ?thesis
    using assms(4) rows(2) pending(2) s(2) w1(4) w2(4) w3(2) by (simp add: dashboardScreen_def)
qed

section \<open>Witnesses\<close>

definition demoDashboard :: dashboard_view where
  "demoDashboard = \<lparr>hv_accountCount = None, hv_pendingCount = None, hv_importantSummary = None, hv_error = None\<rparr>"

lemma dashboard_counts_witness:
  "\<exists>v' p'. loadDashboard demoEnv (js ''s1'') demoDashboard demoPage = (Inr v', p') \<and>
     map sc_value (snd (dashboardScreen v')) = [Some 1, Some 1, Some 0]"
proof -
  obtain r p' where run: "loadDashboard demoEnv (js ''s1'') demoDashboard demoPage = (r, p')"
    by (cases "loadDashboard demoEnv (js ''s1'') demoDashboard demoPage")
  have page: "server demoPage = demoWorld" by (simp add: demoPage_def)
  have "worldInv (server demoPage)" by (simp add: page worldInv_demoWorld)
  from dashboard_counts [OF this demo_guard run] show ?thesis using run
    by (auto simp: demoDashboard_def page demoWorld_def demoDb_def demo_rows ownedAccount_def)
qed

end
