(* ===== verification/Spec2Isabelle.thy ===== *)
theory Spec2Isabelle
  imports Server History MailProperties AccountsProperties Backup PasswordGenerator RulesProperties
    BrowserProperties RuleFormProperties PagesProperties BackupPage ScreensProperties Phases Races Wiring Home
begin

text \<open>
  A model of a personal manager for passwords and mail: a NestJS server (\<open>apps/api\<close>) over a Postgres
  database (\<open>prisma/schema.prisma\<close>), and a Next.js front end (\<open>apps/web\<close>).

  \<^bold>\<open>The program.\<close> A user logs in with Google and then unlocks a vault with a master password. The
  password is checked against an argon2 hash, and a key derived from it encrypts every password entry;
  the key is only held in the memory of the server (\<open>UnlockKeyStore\<close>), per session, until the session
  has been idle for its lock time. A trusted device can stand in for typing the password: the browser
  keeps the password, sealed under a secret of the authenticator, and sends it along with an assertion.
  The second half of the program reads mailboxes: rules select messages, a scan (by request or by the
  clock) turns matches into candidates, and approving a candidate deletes the mail or marks it as spam.

  \<^bold>\<open>How the code is modelled.\<close> A handler is an action: a function from the state to a result, an
  exception or a value, and the new state (\<open>Effects\<close>). The state of the server is the record \<open>world\<close>
  (\<open>World\<close>): the database, the key store, the sessions, the clock in milliseconds, the number of random
  draws so far, and the log of calls to the mail service. Every handler keeps the name it has in the
  source, and so do its local names where they are free. Code outside the repository is a parameter, the
  record \<open>env\<close> of \<open>Platform\<close> (argon2, AES-GCM, randomness, Google, the WebAuthn library, JSON text,
  Unicode tables) or the record \<open>browser\<close> of \<open>WebCrypto\<close>; what the properties rely on is stated as a
  law (\<open>goodPlatform\<close>, \<open>argon2Law\<close>, \<open>jsonLaw\<close>, \<open>subtleLaw\<close>), and \<open>demoEnv\<close> and \<open>demoBrowser\<close> satisfy them. JavaScript
  strings are lists of 16-bit code units, so that lone surrogates exist; bytes are \<open>8 word\<close>; numbers
  that a body may send are integers or \<open>NaN\<close>; a JSON object keeps the order of its fields.

  \<^bold>\<open>Theories and sources.\<close>
  \<^item> \<open>Prelude\<close>, \<open>Effects\<close>: collections, JavaScript values, exceptions, actions and how they preserve.
  \<^item> \<open>Encoding\<close>: hexadecimal, UTF-8, UTF-16 and base64, each with its round trip.
  \<^item> \<open>Platform\<close>, \<open>Demo\<close>: the parameters, their laws, and instances the witnesses run on.
  \<^item> \<open>Tables\<close>, \<open>Database\<close>, \<open>Integrity\<close>: keyed tables as a locale with its interpretations, the tables of
    the schema with their unique constraints, foreign keys and cascades, and the database invariant.
  \<^item> \<open>Crypto\<close>: \<open>common/crypto\<close>. \<open>UnlockKeyStore\<close>: \<open>auth/unlock-key-store.service.ts\<close> and the guards.
  \<^item> \<open>Auth\<close>, \<open>AuthProperties\<close>: \<open>auth/auth.service.ts\<close>, \<open>google-oauth.service.ts\<close>, \<open>auth.controller.ts\<close>.
  \<^item> \<open>WebAuthn\<close>: \<open>auth/webauthn.service.ts\<close> and its routes.
  \<^item> \<open>Accounts\<close>, \<open>AccountsProperties\<close>, \<open>Backup\<close>, \<open>PasswordGenerator\<close>: \<open>accounts/\<close>.
  \<^item> \<open>GmailProvider\<close>, \<open>EmailAccounts\<close>: \<open>mail/providers\<close>, \<open>email-accounts/\<close>.
  \<^item> \<open>RuleMatcher\<close>, \<open>Rules\<close>, \<open>RulesProperties\<close>: \<open>mail/rules\<close>.
  \<^item> \<open>Candidates\<close>, \<open>Scanning\<close>, \<open>CandidatesProperties\<close>, \<open>MailProperties\<close>: \<open>mail/candidates\<close>, \<open>notifications/\<close>.
  \<^item> \<open>Server\<close>, \<open>History\<close>: the routes of all modules as one transition system, and what its runs keep.
  \<^item> \<open>WebCrypto\<close>, \<open>Browser\<close>, \<open>BrowserProperties\<close>: \<open>apps/web/src/lib\<close>, the login page, \<open>proxy.ts\<close>.
  \<^item> \<open>Phases\<close>: the life of a session as an abstract machine that the server implements.
  \<^item> \<open>RuleForm\<close>, \<open>RuleFormProperties\<close>: the page of the mail rules.
  \<^item> \<open>Pages\<close>, \<open>PagesProperties\<close>, \<open>BackupPage\<close>: the handlers of the pages for the entries, the settings and
    the candidates, the dashboard, the navigation and the password field.
  \<^item> \<open>Wiring\<close>: \<open>main.ts\<close>, its session options and the browsers with their cookies.
  \<^item> \<open>Threads\<close>: computations that stop at every awaited statement, pools of them under a schedule, and
    rules for what they rely on and guarantee.
  \<^item> \<open>Interruptions\<close>: the handlers of \<open>candidates.service.ts\<close>, \<open>gmail.provider.ts\<close>, the changes and
    removals of rules, the removal of mail accounts, the writes to the vault, the import and the change
    of the master password as threads.
  \<^item> \<open>Concurrency\<close>, \<open>Races\<close>: what their interleavings keep, and where they get in one another's way.
  \<^item> \<open>Screens\<close>, \<open>ScreensProperties\<close>: what the pages show and let the user do, and which pages there are.
  \<^item> \<open>Home\<close>: the dashboard, the navigation around every page, the devices, the lock time and the password field.
  \<^item> This theory: the properties of the server as a whole.

  \<^bold>\<open>What is proved.\<close> The operations of each service are characterised on every branch, errors
  included. The database invariant (unique keys, references, ranges) and the invariant of the world
  (a session is unlocked only when logged in, a key belongs to a logged-in session) hold in every
  reachable state. Passwords survive encryption, the change of the master password, backups and the
  storage of a device. The matcher refines a specification by clauses. The locales of \<open>Server\<close> prove
  once, for all routes, what the primitive effects keep; their interpretations give that keys only
  come from passwords, that mailboxes only change by approval, that sessions do not interfere, and that the
  server implements the abstract machine of the phases of a session. The pages are composed with the
  server: what they show stays what is stored, their forms make the checks of the server, their
  buttons do what their texts say, and a backup comes back through its file. A handler taken apart
  into its awaited statements agrees with the handler as a whole when nothing interrupts it; when many
  run at once, the invariant holds after every step, overlapping scans store and count every candidate
  once, and all return. Browsers with cookies keep apart, and a cookie outlives its key. The
  names of some theorems tell of weaknesses of the code: they state what it does where that is not
  what it means to do.

  \<^bold>\<open>Bounds and termination.\<close> Every definition is total: recursion is on lists, on threads, or on the
  number of bytes, and no fuel is used. A thread is a finite tree of steps, so that it returns under every
  schedule that does not forget it. A transaction restores the tables on failure and is one step for the
  others; \<open>Promise.all\<close> takes its elements in order.

  \<^bold>\<open>Not modelled.\<close> The lists of the modules and the connection to the database (\<open>prisma.service.ts\<close>); the
  inside of the session middleware, of which each request sees the current session rather than a copy
  made at its start; interleavings inside the handlers that are not taken apart (logging in, devices,
  new rules and mail accounts: one step each) and with a restart; the texts and styles of the pages, the flags
  that disable a button while a request runs, and the tables \<open>notification_channels\<close> and
  \<open>activity_logs\<close>, which no code uses.
\<close>

section \<open>Demo runs\<close>

text \<open>The first login of a user on a fresh server, up to the set-up of his master password.\<close>

definition demoState :: jsstring where
  "demoState = toHex (randomBytes demoEnv 0 16)"

definition demoLogin :: "event list" where
  "demoLogin =
     [Request (js ''s1'') GetGoogleStart,
      Request (js ''s1'') (GetGoogleCallback (Some (js ''g1'')) (Some demoState))]"

definition demoSetup :: event where
  "demoSetup = Request (js ''s1'') (PostMasterPasswordSetup (Some (js ''password'')))"

lemma steps_request: "steps E w evs v \<Longrightarrow> steps E w (evs @ [Request sid req]) (handle E sid req v)"
  by (rule steps_snoc) (assumption, simp)

lemma truthy_demoState: "truthy (Some demoState)"
proof -
  have "length demoState = 32" using randomLaw_demoEnv by (simp add: demoState_def length_toHex)
  then show ?thesis by auto
qed

lemma demo_login:
  "\<exists>v. steps demoEnv initWorld demoLogin v \<and> db v = emptyDatabase \<and> keyStore v = Map.empty \<and> draws v = 1 \<and>
     clock v = 0 \<and>
     sessions v (js ''s1'') = emptySession\<lparr>s_pendingGoogle := Some \<lparr>gp_sub = js ''g1'', gp_email = js ''me''\<rparr>\<rparr>"
proof -
  let ?v = "handle demoEnv (js ''s1'') GetGoogleStart initWorld"
  let ?w = "handle demoEnv (js ''s1'') (GetGoogleCallback (Some (js ''g1'')) (Some demoState)) ?v"
  have "steps demoEnv initWorld demoLogin ?w"
    using steps_request [OF steps_request [OF steps_refl [of demoEnv initWorld], of "js ''s1''" GetGoogleStart],
        of "js ''s1''" "GetGoogleCallback (Some (js ''g1'')) (Some demoState)"]
    by (simp only: demoLogin_def append.simps)
  moreover have v: "?v = initWorld\<lparr>draws := 1, sessions := (\<lambda>_. emptySession)
      (js ''s1'' := emptySession\<lparr>s_oauthState := Some demoState\<rparr>)\<rparr>"
    by (simp add: stateAfter_def run_googleStart Let_def initWorld_def demoState_def)
  moreover have "exchangeCodeForProfile demoEnv (Some (js ''g1'')) = Inr \<lparr>gp_sub = js ''g1'', gp_email = js ''me''\<rparr>"
    by (simp add: exchangeCodeForProfile_def demoEnv_def)
  then have "?w = initWorld\<lparr>draws := 1, sessions := (\<lambda>_. emptySession)(js ''s1'' :=
      emptySession\<lparr>s_pendingGoogle := Some \<lparr>gp_sub = js ''g1'', gp_email = js ''me''\<rparr>\<rparr>)\<rparr>"
    unfolding v using truthy_demoState
    by (simp add: stateAfter_def googleCallback_def run_catchA run_bindA run_handleGoogleCallback Let_def
        initWorld_def emptyDatabase_def run_ret emptySession_def)
  ultimately show ?thesis by (intro exI [of _ ?w]) (simp add: initWorld_def)
qed

lemma demo_setup:
  "\<exists>w key u. steps demoEnv initWorld (demoLogin @ [demoSetup]) w \<and> users (db w) = [u] \<and> u_id u \<noteq> [] \<and>
     fst (unlockedGuard (js ''s1'') w) = Inr (u_id u, key)"
proof -
  obtain v where v: "steps demoEnv initWorld demoLogin v" "db v = emptyDatabase" "keyStore v = Map.empty"
    "draws v = 1" "clock v = 0"
    "sessions v (js ''s1'') = emptySession\<lparr>s_pendingGoogle := Some \<lparr>gp_sub = js ''g1'', gp_email = js ''me''\<rparr>\<rparr>"
    using demo_login by blast
  let ?w = "handle demoEnv (js ''s1'') (PostMasterPasswordSetup (Some (js ''password''))) v"
  obtain key where key: "deriveKey demoEnv (js ''password'') (base64Encode (randomBytes demoEnv 1 16)) = Inr key"
    using randomLaw_demoEnv argon2Law_demoEnv by (rule deriveKey_fresh)
  have "steps demoEnv initWorld (demoLogin @ [demoSetup]) ?w"
    unfolding demoSetup_def by (rule steps_request [OF v(1)])
  moreover have "uuid demoEnv n \<noteq> []" for n by (simp add: demoEnv_def)
  then have "\<exists>u. users (db ?w) = [u] \<and> u_id u \<noteq> [] \<and> fst (unlockedGuard (js ''s1'') ?w) = Inr (u_id u, key)"
    using v key
    by (simp add: stateAfter_def setupRoute_def run_setupMasterPassword Let_def createUser_def createRow_def
        emptyDatabase_def emptySession_def unlockedGuard_pass keyLive_def storeSet_def)
  ultimately show ?thesis by blast
qed

section \<open>Properties\<close>





text \<open>
  C3: nothing is done to a mailbox without approval. If a step makes a call that changes a mailbox, the
  step is an approval by an unlocked session, of a candidate of its own user whose rule deletes or marks
  as spam; the call is the one its rule asks for, on the message of the candidate, and it is the only
  one. Scans, the scheduled one included, exclusions and all other requests only read.
\<close>

theorem mailbox_only_by_approval:
  assumes "step E w ev w'" and "mailboxChanges (gmailLog w') \<noteq> mailboxChanges (gmailLog w)"
  shows "\<exists>sid i userId key c rule account auth. ev = Request sid (PostApprove i) \<and>
    fst (unlockedGuard sid w) = Inr (userId, key) \<and> findOwned userId i (db w) = Some (c, rule, account) \<and>
    (ru_actionType rule = js ''delete_candidate'' \<and>
       mailboxChanges (gmailLog w') = mailboxChanges (gmailLog w) @ [TrashMessage auth (ca_externalMessageId c)] \<or>
     ru_actionType rule = js ''spam_candidate'' \<and>
       mailboxChanges (gmailLog w') = mailboxChanges (gmailLog w) @ [ModifyMessage auth (ca_externalMessageId c) [js ''SPAM'']])"
proof -
  have same: "sameMailbox (mailboxChanges (gmailLog w)) w" by (simp add: sameMailbox_def)
  have "ev \<noteq> ScheduledScan"
    using assms preserves_stateAfter [OF mailbox.candidate_routes(6) same] by (auto simp: sameMailbox_def)
  then obtain sid req where ev: "ev = Request sid req" and w': "w' = handle E sid req w"
    using assms by (cases ev) auto
  have "approves req" using assms(2) mailbox.handle_keeps_key [OF _ same] by (auto simp: w' sameMailbox_def)
  then obtain i where req: "req = PostApprove i" by (cases req) auto
  obtain g v where g: "unlockedGuard sid w = (g, v)" by (cases "unlockedGuard sid w")
  have v: "db v = db w" "gmailLog v = gmailLog w"
    using g by (auto simp: run_unlockedGuard split: if_splits bool.splits option.splits)
  obtain userId key where ok: "g = Inr (userId, key)"
    using assms(2) g v by (cases g) (auto simp: w' req stateAfter_def approveRoute_def run_bindA)
  obtain r u where run: "approve E userId i v = (r, u)" by (cases "approve E userId i v")
  then have "u = w'" by (simp add: w' req stateAfter_def approveRoute_def run_bindA g ok)
  with run approve_change [of E userId i v r w'] assms(2) v g ok ev req show ?thesis by fastforce
qed

lemma mailbox_only_by_approval_witness:
  "\<exists>w' sid auth. step demoEnv demoWorld (Request sid (PostApprove (js ''k1''))) w' \<and>
     mailboxChanges (gmailLog w') = [TrashMessage auth (js ''m0'')]"
proof -
  let ?w' = "handle demoEnv (js ''s1'') (PostApprove (js ''k1'')) demoWorld"
  obtain v where v: "unlockedGuard (js ''s1'') demoWorld = (Inr (js ''u1'', demoUserKey), v)"
    "db v = db demoWorld" "gmailLog v = []"
    by (simp add: run_unlockedGuard keyLive_def demoWorld_def demoSession_def emptySession_def)
  have c: "ca_emailAccountId demoCandidate = js ''e1''" "ca_externalMessageId demoCandidate = js ''m0''"
    "ru_actionType demoRule = js ''delete_candidate''" "em_providerType demoMailAccount = js ''gmail''"
    by (simp_all add: demoCandidate_def demoRule_def demoMailAccount_def)
  let ?v = "v\<lparr>gmailLog := [TrashMessage demoCredentials (js ''m0'')]\<rparr>"
  have "approve demoEnv (js ''u1'') (js ''k1'') v = decide (js ''k1'') APPROVED ?v"
    using v by (simp add: run_approve demo_findOwned c demo_applyAction)
  then have "?w' = snd (decide (js ''k1'') APPROVED ?v)"
    by (simp add: stateAfter_def approveRoute_def run_bindA v(1))
  then have changed: "mailboxChanges (gmailLog ?w') \<noteq> mailboxChanges (gmailLog demoWorld)"
    using mailboxChanges_keeps [OF mailbox.decide, of "js ''k1''" APPROVED ?v]
    by (cases "decide (js ''k1'') APPROVED ?v") (simp add: mailboxChanges_def demoWorld_def)
  have step: "step demoEnv demoWorld (Request (js ''s1'') (PostApprove (js ''k1''))) ?w'"
    by (simp only: step_simps)
  from mailbox_only_by_approval [OF step changed] obtain sid i userId key c rule account auth
    where *: "Request (js ''s1'') (PostApprove (js ''k1'')) = Request sid (PostApprove i)"
      "fst (unlockedGuard sid demoWorld) = Inr (userId, key)"
      "findOwned userId i (db demoWorld) = Some (c, rule, account)"
      "ru_actionType rule = js ''delete_candidate'' \<and>
         mailboxChanges (gmailLog ?w') = mailboxChanges (gmailLog demoWorld) @ [TrashMessage auth (ca_externalMessageId c)] \<or>
       ru_actionType rule = js ''spam_candidate'' \<and>
         mailboxChanges (gmailLog ?w') = mailboxChanges (gmailLog demoWorld) @ [ModifyMessage auth (ca_externalMessageId c) [js ''SPAM'']]"
    by (elim exE conjE) (rule that; assumption)
  have "sid = js ''s1''" "i = js ''k1''" "userId = js ''u1''" using * v(1) by simp_all
  then have "c = demoCandidate" "rule = demoRule" using *(3) by (simp_all add: demo_findOwned)
  with *(4) have "mailboxChanges (gmailLog ?w') = [TrashMessage auth (js ''m0'')]"
    by (simp add: c mailboxChanges_def demoWorld_def)
  with step show ?thesis by blast
qed

text \<open>
  sessions do not disturb one another. A request leaves the data and the key of every other session
  as they are: it can neither log out, lock, unlock nor switch the user of another browser.
\<close>

theorem sessions_independent:
  assumes "other \<noteq> sid"
  shows "sessions (handle E sid req w) other = sessions w other \<and> keyStore (handle E sid req w) other = keyStore w other"
  using bystander_handle [OF assms] by simp

lemma sessions_independent_witness:
  "sessions (handle demoEnv (js ''s2'') PostLogout demoWorld) (js ''s1'') = demoSession"
proof -
  have "js ''s1'' \<noteq> js ''s2''" by simp
  from sessions_independent [OF this] show ?thesis by (simp only:) (simp add: demoWorld_def)
qed

end
